(* ===== verification/Prelude.thy ===== *)
theory Prelude
  imports Main "HOL-Library.Word"
begin

text \<open>
  Shared vocabulary of the development: the Rust scalar types at their widths, the
  \<open>Result\<close> and slice operations the sources use (\<open>?\<close>, \<open>get\<close>, \<open>position\<close>,
  \<open>collect\<close>), decimal rendering of integers, and the string operations on UTF-8
  bytes. A Rust \<open>String\<close> is the HOL \<open>string\<close> of its UTF-8 bytes, so
  \<open>length\<close> counts bytes as \<open>str::len\<close> does. \<open>Result<T, E>\<close> is
  \<open>'e + 'a\<close> with the error on the left.
\<close>

section \<open>Scalar types\<close>

type_synonym u8 = "8 word"
type_synonym i16 = "16 word"
type_synonym u16 = "16 word"
type_synonym i32 = "32 word"
type_synonym u32 = "32 word"
type_synonym i64 = "64 word"
type_synonym u64 = "64 word"
type_synonym u128 = "128 word"
type_synonym i128 = "128 word"

text \<open>Floating-point values are their IEEE-754 bit patterns; the bridge only moves them.\<close>

type_synonym f32 = "32 word"
type_synonym f64 = "64 word"

type_synonym bytes = "u8 list"

section \<open>Lemma collections\<close>

named_theorems conv_defs \<open>definitions of the value conversions\<close>
named_theorems client_defs \<open>definitions of the client operations\<close>

section \<open>Results and slices\<close>

fun is_ok :: "'e + 'a \<Rightarrow> bool" where
  "is_ok (Inl e) = False"
| "is_ok (Inr x) = True"

fun map_err :: "('e \<Rightarrow> 'f) \<Rightarrow> 'e + 'a \<Rightarrow> 'f + 'a" where
  "map_err f (Inl e) = Inl (f e)"
| "map_err f (Inr x) = Inr x"

fun map_ok :: "('a \<Rightarrow> 'b) \<Rightarrow> 'e + 'a \<Rightarrow> 'e + 'b" where
  "map_ok f (Inl e) = Inl e"
| "map_ok f (Inr x) = Inr (f x)"

text \<open>The \<open>?\<close> operator.\<close>

fun and_then :: "'e + 'a \<Rightarrow> ('a \<Rightarrow> 'e + 'b) \<Rightarrow> 'e + 'b" where
  "and_then (Inl e) f = Inl e"
| "and_then (Inr x) f = f x"

lemma and_then_eq_Inr [simp]:
  "(and_then r f = Inr y) = (\<exists>x. r = Inr x \<and> f x = Inr y)"
  by (cases r) auto

lemma map_err_eq_Inr [simp]: "(map_err f r = Inr y) = (r = Inr y)"
  by (cases r) auto

lemma map_ok_eq_Inr [simp]: "(map_ok f r = Inr y) = (\<exists>x. r = Inr x \<and> y = f x)"
  by (cases r) auto

fun ok_or :: "'a option \<Rightarrow> 'e \<Rightarrow> 'e + 'a" where
  "ok_or None e = Inl e"
| "ok_or (Some x) e = Inr x"

text \<open>\<open>iter().collect::<Result<Vec<_>>>()\<close>: the first error wins.\<close>

fun collect_ok :: "('e + 'a) list \<Rightarrow> 'e + 'a list" where
  "collect_ok [] = Inr []"
| "collect_ok (r # rs) =
     (case r of Inl e \<Rightarrow> Inl e
      | Inr x \<Rightarrow> (case collect_ok rs of Inl e \<Rightarrow> Inl e | Inr xs \<Rightarrow> Inr (x # xs)))"

lemma collect_ok_Inr: "collect_ok (map Inr xs) = Inr xs"
  by (induction xs) auto

lemma collect_ok_length: "collect_ok rs = Inr xs \<Longrightarrow> length xs = length rs"
  by (induction rs arbitrary: xs) (auto split: sum.splits)

lemma collect_ok_nth:
  "collect_ok rs = Inr xs \<Longrightarrow> i < length rs \<Longrightarrow> rs ! i = Inr (xs ! i)"
proof (induction rs arbitrary: xs i)
  case Nil
  then show ?case by simp
next
  case (Cons r rs)
  then show ?case by (cases i) (auto split: sum.splits)
qed

text \<open>\<open>slice::get\<close>.\<close>

definition nth_opt :: "'a list \<Rightarrow> nat \<Rightarrow> 'a option" where
  "nth_opt xs i = (if i < length xs then Some (xs ! i) else None)"

lemma nth_opt_simps [simp]:
  "nth_opt [] i = None"
  "nth_opt (x # xs) 0 = Some x"
  "nth_opt (x # xs) (Suc i) = nth_opt xs i"
  by (auto simp: nth_opt_def)

lemma nth_opt_Some: "(nth_opt xs i = Some x) = (i < length xs \<and> xs ! i = x)"
  by (auto simp: nth_opt_def)

lemma nth_opt_None: "(nth_opt xs i = None) = (length xs \<le> i)"
  by (auto simp: nth_opt_def)

lemma nth_opt_map: "nth_opt (map f xs) i = map_option f (nth_opt xs i)"
  by (auto simp: nth_opt_def)

text \<open>\<open>Iterator::position\<close>: the index of the first element that satisfies the test.\<close>

fun position :: "('a \<Rightarrow> bool) \<Rightarrow> 'a list \<Rightarrow> nat option" where
  "position p [] = None"
| "position p (x # xs) = (if p x then Some 0 else map_option Suc (position p xs))"

lemma position_Some:
  "position p xs = Some i \<longleftrightarrow> i < length xs \<and> p (xs ! i) \<and> (\<forall>j<i. \<not> p (xs ! j))"
proof (induction xs arbitrary: i)
  case Nil
  then show ?case by simp
next
  case (Cons x xs)
  show ?case
  proof (cases i)
    case 0
    then show ?thesis by (auto split: if_splits)
  next
    case (Suc k)
    have "(\<forall>j<Suc k. \<not> p ((x # xs) ! j)) \<longleftrightarrow> \<not> p x \<and> (\<forall>j<k. \<not> p (xs ! j))"
      by (metis less_Suc_eq_0_disj nth_Cons_0 nth_Cons_Suc)
    with Suc Cons.IH [of k] show ?thesis by auto
  qed
qed

lemma position_None: "position p xs = None \<longleftrightarrow> (\<forall>x\<in>set xs. \<not> p x)"
  by (induction xs) auto

lemma position_append:
  "position p (xs @ ys) =
     (case position p xs of Some i \<Rightarrow> Some i | None \<Rightarrow> map_option ((+) (length xs)) (position p ys))"
proof (induction xs)
  case Nil
  show ?case by (cases "position p ys") auto
next
  case (Cons x xs)
  have "(\<lambda>n. Suc (length xs + n)) = (+) (Suc (length xs))" by auto
  with Cons show ?case by (auto simp: option.map_comp comp_def split: option.splits)
qed

section \<open>Decimal rendering\<close>

text \<open>\<open>ToString\<close> of the integer types, and the reading function used in the statements.\<close>

definition digit_char :: "nat \<Rightarrow> char" where
  "digit_char d = char_of (48 + d)"

lemma digit_char_numerals [simp]:
  "digit_char 0 = CHR ''0''" "digit_char (Suc 0) = CHR ''1''" "digit_char 1 = CHR ''1''"
  "digit_char 2 = CHR ''2''" "digit_char 3 = CHR ''3''" "digit_char 4 = CHR ''4''"
  "digit_char 5 = CHR ''5''" "digit_char 6 = CHR ''6''" "digit_char 7 = CHR ''7''"
  "digit_char 8 = CHR ''8''" "digit_char 9 = CHR ''9''"
  by (simp_all add: digit_char_def char_of_def bit_Suc bit_0)

fun show_nat :: "nat \<Rightarrow> string" where
  "show_nat n = (if n < 10 then [digit_char n] else show_nat (n div 10) @ [digit_char (n mod 10)])"

declare show_nat.simps [simp del]

definition show_int :: "int \<Rightarrow> string" where
  "show_int i = (if i < 0 then ''-'' @ show_nat (nat (- i)) else show_nat (nat i))"

definition digit_val :: "char \<Rightarrow> nat" where
  "digit_val c = of_char c - 48"

definition is_digit :: "char \<Rightarrow> bool" where
  "is_digit c \<longleftrightarrow> 48 \<le> (of_char c :: nat) \<and> (of_char c :: nat) \<le> 57"

definition read_nat :: "string \<Rightarrow> nat" where
  "read_nat s = foldl (\<lambda>n c. 10 * n + digit_val c) 0 s"

lemma of_char_digit: "d < 10 \<Longrightarrow> (of_char (digit_char d) :: nat) = 48 + d"
  by (simp add: digit_char_def)

lemma digit_char_props [simp]:
  assumes "d < 10"
  shows "digit_val (digit_char d) = d" and "is_digit (digit_char d)"
  using assms by (simp_all add: digit_val_def is_digit_def of_char_digit)

lemma read_nat_snoc: "read_nat (s @ [c]) = 10 * read_nat s + digit_val c"
  by (simp add: read_nat_def)

lemma read_show_nat [simp]: "read_nat (show_nat n) = n"
proof (induction n rule: show_nat.induct)
  case (1 n)
  show ?case
  proof (cases "n < 10")
    case True
    then show ?thesis by (subst show_nat.simps) (simp add: read_nat_def)
  next
    case False
    with "1.IH" show ?thesis by (subst show_nat.simps) (simp add: read_nat_snoc)
  qed
qed

lemma show_nat_inj: "show_nat m = show_nat n \<Longrightarrow> m = n"
  by (metis read_show_nat)

lemma show_nat_digits: "\<forall>c\<in>set (show_nat n). is_digit c"
proof (induction n rule: show_nat.induct)
  case (1 n)
  show ?case
  proof (cases "n < 10")
    case True
    then show ?thesis by (subst show_nat.simps) simp
  next
    case False
    with "1.IH" show ?thesis by (subst show_nat.simps) auto
  qed
qed

lemma show_nat_nonempty: "show_nat n \<noteq> []"
  by (subst show_nat.simps) simp

section \<open>Strings\<close>

text \<open>\<open>str::starts_with\<close>, \<open>eq_ignore_ascii_case\<close>, \<open>join\<close>, \<open>repeat\<close> on bytes.\<close>

fun starts_with :: "string \<Rightarrow> string \<Rightarrow> bool" where
  "starts_with s [] = True"
| "starts_with [] (p # ps) = False"
| "starts_with (c # cs) (p # ps) = (c = p \<and> starts_with cs ps)"

lemma starts_with_append [simp]: "starts_with (p @ s) p"
  by (induction p) auto

definition to_ascii_lower :: "char \<Rightarrow> char" where
  "to_ascii_lower c =
     (if 65 \<le> (of_char c :: nat) \<and> (of_char c :: nat) \<le> 90 then char_of ((of_char c :: nat) + 32) else c)"

definition eq_ignore_ascii_case :: "string \<Rightarrow> string \<Rightarrow> bool" where
  "eq_ignore_ascii_case s t \<longleftrightarrow> map to_ascii_lower s = map to_ascii_lower t"

lemma eq_ignore_ascii_case_refl [simp]: "eq_ignore_ascii_case s s"
  by (simp add: eq_ignore_ascii_case_def)

fun join :: "string \<Rightarrow> string list \<Rightarrow> string" where
  "join sep [] = []"
| "join sep [s] = s"
| "join sep (s # t # ss) = s @ sep @ join sep (t # ss)"

text \<open>
  \<open>encode_utf16().count()\<close> on UTF-8 bytes: a continuation byte starts no character, a
  four-byte sequence (lead byte from \<open>0xF0\<close>) is a surrogate pair, any other lead byte is
  one code unit.
\<close>

definition utf16_units :: "char \<Rightarrow> nat" where
  "utf16_units c =
     (let b = (of_char c :: nat) in if 128 \<le> b \<and> b < 192 then 0 else if 240 \<le> b then 2 else 1)"

definition utf16_len :: "string \<Rightarrow> nat" where
  "utf16_len s = sum_list (map utf16_units s)"

lemma utf16_len_le: "utf16_len s \<le> 2 * length s"
proof -
  have "sum_list (map utf16_units s) \<le> sum_list (map (\<lambda>_. 2) s)"
    by (rule sum_list_mono) (simp add: utf16_units_def Let_def)
  then show ?thesis by (simp add: utf16_len_def sum_list_triv)
qed

section \<open>Checked machine arithmetic\<close>

text \<open>
  \<open>try_from\<close>, \<open>checked_add\<close>, \<open>checked_mul\<close>, \<open>saturating_mul\<close>: the value is
  computed exactly and then tested against the range of the target width.
\<close>

definition fits_signed :: "nat \<Rightarrow> int \<Rightarrow> bool" where
  "fits_signed w i \<longleftrightarrow> - (2 ^ (w - 1)) \<le> i \<and> i < 2 ^ (w - 1)"

definition fits_unsigned :: "nat \<Rightarrow> int \<Rightarrow> bool" where
  "fits_unsigned w i \<longleftrightarrow> 0 \<le> i \<and> i < 2 ^ w"

definition saturate :: "nat \<Rightarrow> int \<Rightarrow> int" where
  "saturate w i =
     (if i < - (2 ^ (w - 1)) then - (2 ^ (w - 1))
      else if 2 ^ (w - 1) \<le> i then 2 ^ (w - 1) - 1 else i)"

lemma saturate_fits: "0 < w \<Longrightarrow> fits_signed w (saturate w i)"
  by (auto simp: saturate_def fits_signed_def)

lemma saturate_id: "fits_signed w i \<Longrightarrow> saturate w i = i"
  by (auto simp: saturate_def fits_signed_def)

lemma uint_of_fitting: "fits_unsigned LENGTH('a) i \<Longrightarrow> uint (word_of_int i :: 'a::len word) = i"
  by (simp add: fits_unsigned_def uint_word_of_int_eq take_bit_int_eq_self)

lemma sint_fits: "fits_signed LENGTH('a) (sint (x :: 'a::len word))"
  using sint_ge [of x] sint_less [of x] by (simp add: fits_signed_def)

lemma sint_of_fitting:
  assumes "fits_signed LENGTH('a) i"
  shows "sint (word_of_int i :: 'a::len word) = i"
proof -
  have "signed_take_bit (LENGTH('a) - 1) i = i"
    using assms by (intro signed_take_bit_int_eq_self) (auto simp: fits_signed_def)
  then show ?thesis by (simp add: sint_sbintrunc')
qed

text \<open>Widening casts: \<open>u8 as i16\<close> is zero extension, \<open>i16 as i32\<close> sign extension.\<close>

lemma sint_ucast_wider:
  assumes "LENGTH('a::len) < LENGTH('b::len)"
  shows "sint (ucast (x :: 'a word) :: 'b word) = uint x"
proof -
  have "uint x < 2 ^ LENGTH('a)" using uint_lt2p by blast
  also have "(2::int) ^ LENGTH('a) \<le> 2 ^ (LENGTH('b) - 1)"
    using assms by (intro power_increasing) auto
  finally have lt: "uint x < 2 ^ (LENGTH('b) - 1)" .
  have "- (2 ^ (LENGTH('b) - 1)) \<le> (0::int)" by simp
  also have "0 \<le> uint x" by simp
  finally have "fits_signed LENGTH('b) (uint x)"
    using lt unfolding fits_signed_def by blast
  then show ?thesis unfolding ucast_eq by (rule sint_of_fitting)
qed

lemma sint_scast_wider:
  assumes "LENGTH('a::len) \<le> LENGTH('b::len)"
  shows "sint (scast (x :: 'a word) :: 'b word) = sint x"
proof -
  have le: "(2::int) ^ (LENGTH('a) - 1) \<le> 2 ^ (LENGTH('b) - 1)"
    using assms by (intro power_increasing) auto
  have "- (2 ^ (LENGTH('a) - 1)) \<le> sint x" "sint x < 2 ^ (LENGTH('a) - 1)"
    using sint_fits [of x] unfolding fits_signed_def by auto
  with le have "fits_signed LENGTH('b) (sint x)"
    unfolding fits_signed_def by linarith
  then show ?thesis unfolding scast_eq by (rule sint_of_fitting)
qed

end
