(* ===== verification/TdsTypes.thy ===== *)
theory TdsTypes
  imports Prelude
begin

text \<open>
  The values the bridge exchanges with its dependencies, with the constructors and fields
  the sources match on, and the functions it calls on them. The dependencies themselves
  (\<open>mssql-tds\<close>, \<open>chrono\<close>, \<open>rust_decimal\<close>, \<open>serde_json\<close>) are not part of the
  repository: their functions are the fields of the records \<open>tds_lib\<close>, \<open>chrono_lib\<close>,
  \<open>decimal_lib\<close> and \<open>json_lib\<close>, passed to the definitions that call them, and what
  the bridge relies on is stated as named laws over these records. The unified error type
  of \<open>error.rs\<close> is at the end.
\<close>

section \<open>Driver values\<close>

text \<open>\<open>EncodingType\<close> is carried and never inspected.\<close>

datatype encoding_type = EncodingType nat

datatype sql_string = SqlString bytes encoding_type
datatype sql_xml = SqlXml bytes
datatype sql_json = SqlJson bytes
datatype vector_data = Float32 "f32 list"
datatype vector_base_type = BaseFloat32 | BaseFloat16

record sql_vector =
  sv_data :: vector_data

record decimal_parts =
  dp_is_positive :: bool
  dp_precision :: u8
  dp_scale :: u8
  dp_magnitude :: nat

datatype sql_date = SqlDate (get_days: u32)

record sql_time =
  time_nanoseconds :: u64
  st_scale :: u8

record sql_datetime2 =
  dt2_days :: u32
  dt2_time :: sql_time

record sql_datetimeoffset =
  dto_datetime2 :: sql_datetime2
  dto_offset :: i16

record sql_datetime =
  sdt_days :: i32
  sdt_time :: u32

record sql_smalldatetime =
  ssdt_days :: u16
  ssdt_time :: u16

record sql_money =
  lsb_part :: i32
  msb_part :: i32

record sql_smallmoney =
  int_val :: i32

record tvp_type_name =
  tvp_schema_name :: "string option"
  tvp_name :: string

record udt_type_name =
  udt_db_name :: "string option"
  udt_schema_name :: "string option"
  udt_name :: string

text \<open>\<open>ColumnValues\<close>: a decoded cell.\<close>

datatype column_values =
    CV_TinyInt u8
  | CV_SmallInt i16
  | CV_Int i32
  | CV_BigInt i64
  | CV_Real f32
  | CV_Float f64
  | CV_Decimal decimal_parts
  | CV_Numeric decimal_parts
  | CV_Bit bool
  | CV_String sql_string
  | CV_DateTime sql_datetime
  | CV_Date sql_date
  | CV_Time sql_time
  | CV_DateTime2 sql_datetime2
  | CV_DateTimeOffset sql_datetimeoffset
  | CV_SmallDateTime sql_smalldatetime
  | CV_SmallMoney sql_smallmoney
  | CV_Money sql_money
  | CV_Bytes bytes
  | CV_Xml sql_xml
  | CV_Null
  | CV_Uuid u128
  | CV_Json sql_json
  | CV_Vector sql_vector

text \<open>\<open>SqlType\<close>: a typed parameter; \<open>None\<close> is the typed SQL NULL. The payload of a
  table-valued parameter is opaque to the bridge.\<close>

datatype sql_type =
    ST_Bit "bool option"
  | ST_TinyInt "u8 option"
  | ST_SmallInt "i16 option"
  | ST_Int "i32 option"
  | ST_BigInt "i64 option"
  | ST_Real "f32 option"
  | ST_Float "f64 option"
  | ST_Decimal "decimal_parts option"
  | ST_Numeric "decimal_parts option"
  | ST_Money "sql_money option"
  | ST_SmallMoney "sql_smallmoney option"
  | ST_Time "sql_time option"
  | ST_DateTime2 "sql_datetime2 option"
  | ST_DateTimeOffset "sql_datetimeoffset option"
  | ST_SmallDateTime "sql_smalldatetime option"
  | ST_DateTime "sql_datetime option"
  | ST_Date "sql_date option"
  | ST_NVarchar "sql_string option" nat
  | ST_NVarcharMax "sql_string option"
  | ST_Varchar "sql_string option" nat
  | ST_VarcharMax "sql_string option"
  | ST_VarBinary "bytes option" nat
  | ST_VarBinaryMax "bytes option"
  | ST_Binary "bytes option" nat
  | ST_Char "sql_string option" nat
  | ST_NChar "sql_string option" nat
  | ST_Text "sql_string option"
  | ST_NText "sql_string option"
  | ST_Image "bytes option"
  | ST_Json "sql_json option"
  | ST_Xml "sql_xml option"
  | ST_Uuid "u128 option"
  | ST_Vector "sql_vector option" u16 vector_base_type
  | ST_Variant sql_type
  | ST_Table tvp_type_name "nat option"
  | ST_Udt udt_type_name "bytes option"

text \<open>\<open>TdsDataType\<close>, with one constructor for the data types no source line names.\<close>

datatype tds_data_type =
    TD_Void | TD_Bit | TD_BitN | TD_Int1 | TD_Int2 | TD_Int4 | TD_IntN | TD_Int8
  | TD_Flt4 | TD_Flt8 | TD_FltN | TD_DateTime | TD_DateTimeN | TD_DateTime2N | TD_DateTim4
  | TD_DateTimeOffsetN | TD_DateN | TD_TimeN | TD_Decimal | TD_DecimalN | TD_Numeric
  | TD_NumericN | TD_Money | TD_MoneyN | TD_Guid | TD_NVarChar | TD_VarChar | TD_BigVarChar
  | TD_NChar | TD_Char | TD_NText | TD_Text | TD_Binary | TD_VarBinary | TD_BigVarBinary
  | TD_Image | TD_Xml | TD_Json | TD_Vector | TD_SsVariant | TD_Udt
  | TD_Unlisted nat

datatype tds_error =
    ConnectionClosed string
  | UsageError string
  | ProtocolError string
  | OtherTdsError string

datatype status_flags = FLAGS_NONE | BY_REF_VALUE

record rpc_parameter =
  rp_name :: "string option"
  rp_flags :: status_flags
  rp_value :: sql_type

section \<open>Functions of the dependencies\<close>

record tds_lib =
  sqlstr_new :: "bytes \<Rightarrow> encoding_type \<Rightarrow> sql_string"
  sqlstr_from_utf8 :: "string \<Rightarrow> sql_string"
  sqlstr_to_utf8 :: "sql_string \<Rightarrow> string"
  xml_from :: "string \<Rightarrow> sql_xml"
  xml_as_string :: "sql_xml \<Rightarrow> string"
  json_from :: "string \<Rightarrow> sql_json"
  json_as_string :: "sql_json \<Rightarrow> string"
  dec_from_string :: "string \<Rightarrow> u8 \<Rightarrow> u8 \<Rightarrow> tds_error + decimal_parts"
  dec_to_string :: "decimal_parts \<Rightarrow> string"
  date_create :: "u32 \<Rightarrow> tds_error + sql_date"
  vec_try_from_f32 :: "f32 list \<Rightarrow> tds_error + sql_vector"
  vec_dimension_count :: "sql_vector \<Rightarrow> u16"
  vec_base_type :: "sql_vector \<Rightarrow> vector_base_type"
  tds_type_name :: "sql_type \<Rightarrow> tds_error + string"
  tds_error_display :: "tds_error \<Rightarrow> string"

text \<open>Laws over the driver's value functions that the bridge relies on.\<close>

definition string_codec_law :: "tds_lib \<Rightarrow> bool" where
  "string_codec_law L \<longleftrightarrow> (\<forall>s. sqlstr_to_utf8 L (sqlstr_from_utf8 L s) = s)"

definition xml_codec_law :: "tds_lib \<Rightarrow> bool" where
  "xml_codec_law L \<longleftrightarrow> (\<forall>s. xml_as_string L (xml_from L s) = s)"

definition json_codec_law :: "tds_lib \<Rightarrow> bool" where
  "json_codec_law L \<longleftrightarrow> (\<forall>s. json_as_string L (json_from L s) = s)"

text \<open>\<open>SqlDate::create\<close> accepts the days of 0001-01-01 (0) to 9999-12-31 (3652058).\<close>

definition date_create_law :: "tds_lib \<Rightarrow> bool" where
  "date_create_law L \<longleftrightarrow>
     (\<forall>d. if unat d \<le> 3652058 then date_create L d = Inr (SqlDate d) else \<exists>e. date_create L d = Inl e)"

text \<open>A sample library, the concrete instance the witnesses use: strings are stored as
  their bytes, decimals and vectors as themselves.\<close>

definition string_to_bytes :: "string \<Rightarrow> bytes" where
  "string_to_bytes s = map (\<lambda>c. word_of_nat (of_char c)) s"

definition bytes_to_string :: "bytes \<Rightarrow> string" where
  "bytes_to_string bs = map (\<lambda>b. char_of (unat b)) bs"

lemma bytes_string_roundtrip [simp]: "bytes_to_string (string_to_bytes s) = s"
proof -
  have "unat (word_of_nat (of_char c) :: u8) = of_char c" for c
    by (simp add: unat_of_nat take_bit_eq_mod)
  then show ?thesis by (simp add: bytes_to_string_def string_to_bytes_def comp_def map_idI)
qed

definition sample_lib :: tds_lib where
  "sample_lib = \<lparr>
     sqlstr_new = SqlString,
     sqlstr_from_utf8 = (\<lambda>s. SqlString (string_to_bytes s) (EncodingType 0)),
     sqlstr_to_utf8 = (\<lambda>x. case x of SqlString bs _ \<Rightarrow> bytes_to_string bs),
     xml_from = (\<lambda>s. SqlXml (string_to_bytes s)),
     xml_as_string = (\<lambda>x. case x of SqlXml bs \<Rightarrow> bytes_to_string bs),
     json_from = (\<lambda>s. SqlJson (string_to_bytes s)),
     json_as_string = (\<lambda>x. case x of SqlJson bs \<Rightarrow> bytes_to_string bs),
     dec_from_string = (\<lambda>s p sc.
       if list_all is_digit s \<and> length s \<le> unat p
       then Inr \<lparr>dp_is_positive = True, dp_precision = p, dp_scale = sc, dp_magnitude = read_nat s\<rparr>
       else Inl (UsageError ''invalid decimal'')),
     dec_to_string = (\<lambda>d. show_nat (dp_magnitude d)),
     date_create = (\<lambda>d. if unat d \<le> 3652058 then Inr (SqlDate d) else Inl (UsageError ''date'')),
     vec_try_from_f32 = (\<lambda>ds. Inr \<lparr>sv_data = Float32 ds\<rparr>),
     vec_dimension_count = (\<lambda>v. case sv_data v of Float32 ds \<Rightarrow> word_of_nat (length ds)),
     vec_base_type = (\<lambda>v. BaseFloat32),
     tds_type_name = (\<lambda>t. Inr ''type''),
     tds_error_display = (\<lambda>e. case e of ConnectionClosed m \<Rightarrow> m | UsageError m \<Rightarrow> m
       | ProtocolError m \<Rightarrow> m | OtherTdsError m \<Rightarrow> m)\<rparr>"

lemma sample_lib_laws [simp]:
  "string_codec_law sample_lib" "xml_codec_law sample_lib"
  "json_codec_law sample_lib" "date_create_law sample_lib"
  by (simp_all add: string_codec_law_def xml_codec_law_def json_codec_law_def
      date_create_law_def sample_lib_def)

section \<open>Bridge errors\<close>

text \<open>\<open>enum Error\<close>, its \<open>Display\<close> and its \<open>source\<close>.\<close>

datatype error =
    Tds tds_error
  | ColumnNotFound string
  | ColumnIndexOutOfBounds nat nat
  | Conversion string
  | BulkInput string
  | PoolError string
  | InvalidPreparedStatement

fun error_display :: "tds_lib \<Rightarrow> error \<Rightarrow> string" where
  "error_display L (Tds e) = ''TDS error: '' @ tds_error_display L e"
| "error_display L (ColumnNotFound name) = ''Column not found: '' @ name"
| "error_display L (ColumnIndexOutOfBounds index count) =
     ''Column index '' @ show_nat index @ '' out of bounds (count: '' @ show_nat count @ '')''"
| "error_display L (Conversion msg) = ''Conversion error: '' @ msg"
| "error_display L (BulkInput msg) = ''BULK UPLOAD input failure: '' @ msg"
| "error_display L (PoolError msg) = ''Pool error: '' @ msg"
| "error_display L InvalidPreparedStatement =
     ''Prepared statement belongs to a different or reset client session''"

fun error_source :: "error \<Rightarrow> tds_error option" where
  "error_source (Tds e) = Some e"
| "error_source _ = None"

end
