(* ===== verification/OperationGuard.thy ===== *)
theory OperationGuard
  imports TdsTypes
begin

text \<open>
  \<open>operation.rs\<close>: the guard around every native I/O of the bridge, and the model of
  asynchronous execution the client theories share. An asynchronous computation runs over a
  world (the connection, the number of further \<open>await\<close> points that complete before the
  caller drops the future, and the next fresh \<open>Arc\<close> identity) and ends in an outcome: it
  returns, its future is dropped at an \<open>await\<close>, or it panics. \<open>None\<close> is a computation
  that does not return. The interface \<open>ConnectionHealth\<close> is a locale.
\<close>

section \<open>Asynchronous computations\<close>

datatype 'a outcome = Ret 'a | Dropped | Panicked

record 'c world =
  conn :: 'c
  budget :: "nat option" \<comment> \<open>\<open>None\<close>: the future is never dropped\<close>
  next_arc :: nat

type_synonym ('c, 'a) io = "'c world \<Rightarrow> ('a outcome \<times> 'c world) option"

definition io_ret :: "'a \<Rightarrow> ('c, 'a) io" where
  "io_ret a w = Some (Ret a, w)"

definition io_bind :: "('c, 'a) io \<Rightarrow> ('a \<Rightarrow> ('c, 'b) io) \<Rightarrow> ('c, 'b) io" where
  "io_bind m f w =
     (case m w of
        None \<Rightarrow> None
      | Some (r, w') \<Rightarrow>
          (case r of Ret a \<Rightarrow> f a w' | Dropped \<Rightarrow> Some (Dropped, w') | Panicked \<Rightarrow> Some (Panicked, w')))"

text \<open>\<open>m?\<close> inside an \<open>async\<close> block.\<close>

definition io_try :: "('c, 'e + 'a) io \<Rightarrow> ('a \<Rightarrow> ('c, 'e + 'b) io) \<Rightarrow> ('c, 'e + 'b) io" where
  "io_try m f = io_bind m (\<lambda>r. case r of Inl e \<Rightarrow> io_ret (Inl e) | Inr x \<Rightarrow> f x)"

text \<open>\<open>op.await\<close>: when the budget is used up the future is dropped here, after the
  partial I/O that \<open>abandon\<close> describes.\<close>

definition io_await :: "('c \<Rightarrow> 'c) \<Rightarrow> ('c \<Rightarrow> 'a \<times> 'c) \<Rightarrow> ('c, 'a) io" where
  "io_await abandon f w =
     (case budget w of
        Some 0 \<Rightarrow> Some (Dropped, w\<lparr>conn := abandon (conn w)\<rparr>)
      | b \<Rightarrow> (case f (conn w) of
               (a, c') \<Rightarrow> Some (Ret a, w\<lparr>conn := c', budget := map_option (\<lambda>n. n - 1) b\<rparr>)))"

definition io_sync :: "('c \<Rightarrow> 'a \<times> 'c) \<Rightarrow> ('c, 'a) io" where
  "io_sync f w = (case f (conn w) of (a, c') \<Rightarrow> Some (Ret a, w\<lparr>conn := c'\<rparr>))"

definition io_panic :: "('c, 'a) io" where
  "io_panic w = Some (Panicked, w)"

lemma io_ret_simp [simp]: "io_ret a w = Some (Ret a, w)"
  by (simp add: io_ret_def)

lemma io_bind_ret [simp]: "io_bind (io_ret a) f = f a"
  by (rule ext) (simp add: io_bind_def)

lemma io_try_ret [simp]:
  "io_try (io_ret (Inr x)) f = f x"
  "io_try (io_ret (Inl e)) f w = Some (Ret (Inl e), w)"
  by (simp_all add: io_try_def)

lemma io_bind_Ret_conv:
  "(io_bind m f w = Some (Ret b, w'')) \<longleftrightarrow>
     (\<exists>a w'. m w = Some (Ret a, w') \<and> f a w' = Some (Ret b, w''))"
  by (auto simp: io_bind_def split: option.splits outcome.splits)

lemma io_try_Inr_conv:
  "(io_try m f w = Some (Ret (Inr b), w'')) \<longleftrightarrow>
     (\<exists>a w'. m w = Some (Ret (Inr a), w') \<and> f a w' = Some (Ret (Inr b), w''))"
  by (auto simp: io_try_def io_bind_Ret_conv split: sum.splits) (metis sum.exhaust)

lemma io_try_step:
  "m w = Some (Ret (Inr a), w') \<Longrightarrow> io_try m f w = f a w'"
  "m w = Some (Ret (Inl e), w') \<Longrightarrow> io_try m f w = Some (Ret (Inl e), w')"
  "m w = Some (Dropped, w') \<Longrightarrow> io_try m f w = Some (Dropped, w')"
  "m w = Some (Panicked, w') \<Longrightarrow> io_try m f w = Some (Panicked, w')"
  by (simp_all add: io_try_def io_bind_def)

lemma io_await_unlimited [simp]:
  "budget w = None \<Longrightarrow>
     io_await ab f w = (case f (conn w) of (a, c') \<Rightarrow> Some (Ret a, w\<lparr>conn := c'\<rparr>))"
  by (cases w) (simp add: io_await_def split: prod.splits)

lemma io_await_returns: "io_await ab f w \<noteq> None"
  by (auto simp: io_await_def split: option.splits nat.splits prod.splits)

section \<open>The health interface\<close>

text \<open>\<open>trait ConnectionHealth\<close> as a record of its two methods.\<close>

record 'c health =
  is_dead :: "'c \<Rightarrow> bool"
  mark_dead :: "'c \<Rightarrow> 'c"

definition dead_error :: error where
  "dead_error =
     Tds (ConnectionClosed ''Connection is known dead; discard this Client and reconnect'')"

definition ensure_usable :: "'c health \<Rightarrow> 'c \<Rightarrow> error + unit" where
  "ensure_usable H c = (if is_dead H c then Inl dead_error else Inr ())"

record 'c operation =
  op_client :: 'c
  armed :: bool

definition operation_new :: "'c health \<Rightarrow> 'c \<Rightarrow> error + 'c operation" where
  "operation_new H c = and_then (ensure_usable H c) (\<lambda>_. Inr \<lparr>op_client = c, armed = True\<rparr>)"

text \<open>\<open>Drop for Operation\<close>.\<close>

definition operation_drop :: "'c health \<Rightarrow> 'c operation \<Rightarrow> 'c" where
  "operation_drop H g = (if armed g then mark_dead H (op_client g) else op_client g)"

text \<open>\<open>complete\<close> disarms, returns the result and drops the guard.\<close>

definition operation_complete :: "'c health \<Rightarrow> 'c operation \<Rightarrow> 'a \<Rightarrow> 'a \<times> 'c" where
  "operation_complete H g result = (result, operation_drop H (g\<lparr>armed := False\<rparr>))"

text \<open>
  The shape every guarded method has: \<open>let mut operation = Operation::new(..)?; let result =
  async { .. }.await; operation.complete(result)\<close>. Leaving the body by a drop of the future
  or by unwinding drops the armed guard.
\<close>

definition guarded :: "'c health \<Rightarrow> ('c, error + 'a) io \<Rightarrow> ('c, error + 'a) io" where
  "guarded H body w =
     (case operation_new H (conn w) of
        Inl e \<Rightarrow> Some (Ret (Inl e), w)
      | Inr g \<Rightarrow>
          (case body (w\<lparr>conn := op_client g\<rparr>) of
             None \<Rightarrow> None
           | Some (r, w') \<Rightarrow>
               (case r of
                  Ret result \<Rightarrow>
                    (case operation_complete H (g\<lparr>op_client := conn w'\<rparr>) result of
                       (result', c') \<Rightarrow> Some (Ret result', w'\<lparr>conn := c'\<rparr>))
                | Dropped \<Rightarrow>
                    Some (Dropped, w'\<lparr>conn := operation_drop H (g\<lparr>op_client := conn w'\<rparr>)\<rparr>)
                | Panicked \<Rightarrow>
                    Some (Panicked, w'\<lparr>conn := operation_drop H (g\<lparr>op_client := conn w'\<rparr>)\<rparr>))))"

lemmas guard_defs =
  guarded_def operation_new_def operation_complete_def operation_drop_def ensure_usable_def

lemma guarded_dead: "is_dead H (conn w) \<Longrightarrow> guarded H body w = Some (Ret (Inl dead_error), w)"
  by (simp add: guard_defs)

lemma guarded_alive:
  assumes "\<not> is_dead H (conn w)"
  shows "guarded H body w =
     (case body w of
        None \<Rightarrow> None
      | Some (Ret r, w') \<Rightarrow> Some (Ret r, w')
      | Some (Dropped, w') \<Rightarrow> Some (Dropped, w'\<lparr>conn := mark_dead H (conn w')\<rparr>)
      | Some (Panicked, w') \<Rightarrow> Some (Panicked, w'\<lparr>conn := mark_dead H (conn w')\<rparr>))"
  using assms by (simp add: guard_defs split: option.splits outcome.splits)

text \<open>What a guarded method can do, as cases.\<close>

lemma guarded_cases:
  assumes "guarded H body w = Some (r, w')"
  obtains
    (rejected) "is_dead H (conn w)" "r = Ret (Inl dead_error)" "w' = w"
  | (completed) x where "\<not> is_dead H (conn w)" "r = Ret x" "body w = Some (Ret x, w')"
  | (interrupted) w1 where "\<not> is_dead H (conn w)" "r = Dropped \<or> r = Panicked"
      "body w = Some (r, w1)" "w' = w1\<lparr>conn := mark_dead H (conn w1)\<rparr>"
proof (cases "is_dead H (conn w)")
  case True
  with assms show thesis by (intro rejected) (simp_all add: guarded_dead)
next
  case False
  with assms show thesis
    by (auto simp: guarded_alive split: option.splits outcome.splits intro: completed interrupted)
qed

text \<open>The contract of an implementation of \<open>ConnectionHealth\<close>, and what the guard gives
  its clients under it.\<close>

locale connection_health =
  fixes H :: "'c health"
  assumes mark_dead_is_dead: "is_dead H (mark_dead H c)"
begin

lemma interrupted_is_dead:
  assumes "guarded H body w = Some (r, w')" and "r = Dropped \<or> r = Panicked"
  shows "is_dead H (conn w')"
  using assms(1) by (rule guarded_cases) (use assms(2) mark_dead_is_dead in auto)

lemma dead_stays_rejected:
  assumes "guarded H body w = Some (r, w')" and "r = Dropped \<or> r = Panicked"
  shows "guarded H body' w' = Some (Ret (Inl dead_error), w')"
  using interrupted_is_dead [OF assms] by (rule guarded_dead)

end

section \<open>The implementation used by the unit tests\<close>

text \<open>\<open>struct Health\<close> of the tests counts the marks.\<close>

record test_health =
  th_dead :: bool
  th_marks :: nat

definition test_health_impl :: "test_health health" where
  "test_health_impl =
     \<lparr>is_dead = th_dead, mark_dead = (\<lambda>h. h\<lparr>th_dead := True, th_marks := Suc (th_marks h)\<rparr>)\<rparr>"

interpretation test_impl: connection_health test_health_impl
  by unfold_locales (simp add: test_health_impl_def)

text \<open>A guard that is completed never marks the connection, with a successful or with
  an error result: the driver's own liveness outcome is what is left.\<close>

theorem completed_operation_preserves_health:
  assumes "guarded H body w = Some (Ret r, w')" and "\<not> is_dead H (conn w)"
  shows "body w = Some (Ret r, w')"
  using assms(1) by (rule guarded_cases) (use assms(2) in auto)

theorem completed_operation_preserves_health_witness:
  "io_ret (Inl (Conversion ''x'') :: error + nat)
      \<lparr>conn = \<lparr>th_dead = False, th_marks = 0\<rparr>, budget = Some 0, next_arc = 0\<rparr>
     = Some (Ret (Inl (Conversion ''x'')), \<lparr>conn = \<lparr>th_dead = False, th_marks = 0\<rparr>, budget = Some 0, next_arc = 0\<rparr>)"
  by (rule completed_operation_preserves_health [where H = test_health_impl])
    (simp_all add: guarded_alive test_health_impl_def)

text \<open>A guarded operation whose future is dropped while it awaits, or that unwinds,
  leaves the connection marked dead, and every later guarded operation fails with
  \<open>ConnectionClosed\<close> without touching the connection.\<close>

theorem interrupted_operation_poisons:
  assumes "\<And>c. is_dead H (mark_dead H c)"
    and "guarded H body w = Some (r, w')" and "r = Dropped \<or> r = Panicked"
  shows "is_dead H (conn w') \<and> guarded H later w' = Some (Ret (Inl dead_error), w')"
proof -
  have H: "connection_health H" by unfold_locales (rule assms(1))
  show ?thesis
    using connection_health.interrupted_is_dead [OF H assms(2,3)]
      connection_health.dead_stays_rejected [OF H assms(2,3)] by blast
qed

theorem interrupted_operation_poisons_witness:
  "let w = \<lparr>conn = \<lparr>th_dead = False, th_marks = 0\<rparr>, budget = Some 0, next_arc = 0\<rparr>;
       w' = \<lparr>conn = \<lparr>th_dead = True, th_marks = 1\<rparr>, budget = Some 0, next_arc = 0\<rparr>;
       pending = (io_await id (\<lambda>h. (Inr (), h)) :: (test_health, error + unit) io)
   in is_dead test_health_impl (conn w') \<and>
      guarded test_health_impl pending w' = Some (Ret (Inl dead_error), w')"
  unfolding Let_def
  by (rule interrupted_operation_poisons
        [where body = "io_await id (\<lambda>h. (Inr (), h))" and r = Dropped
          and w = "\<lparr>conn = \<lparr>th_dead = False, th_marks = 0\<rparr>, budget = Some 0, next_arc = 0\<rparr>"])
    (rule test_impl.mark_dead_is_dead, simp_all add: guarded_alive io_await_def test_health_impl_def)

end
