(* ===== verification/Temporal.thy ===== *)
theory Temporal
  imports TdsTypes
begin

text \<open>
  Date and time conversions with \<open>chrono\<close>: the parameter side of \<open>query.rs\<close>
  (\<open>chrono_to_sql\<close>) and the row side of \<open>row.rs\<close> (\<open>FromSql\<close> for \<open>NaiveDate\<close>,
  \<open>NaiveTime\<close>, \<open>NaiveDateTime\<close> and \<open>DateTime<FixedOffset>\<close>). A \<open>NaiveDate\<close> is
  its day number (1 is 0001-01-01), a \<open>NaiveTime\<close> its seconds since midnight and its
  nanosecond field, as the accessors of \<open>chrono\<close> give them. An encoder that panics is
  \<open>None\<close>. Integer casts and products wrap at their width.
\<close>

section \<open>Values of chrono\<close>

datatype naive_date = NaiveDate (num_days_from_ce: i32)

datatype naive_time = NaiveTime (num_seconds_from_midnight: u32) (nanosecond: u32)

datatype naive_datetime = NaiveDateTime (ndt_date: naive_date) (ndt_time: naive_time)

text \<open>\<open>DateTime<FixedOffset>\<close>: the UTC date and time, and the offset in seconds.\<close>

datatype datetime_fixed = DateTimeFixed (naive_utc: naive_datetime) (local_minus_utc: i32)

record chrono_lib =
  from_num_days_from_ce_opt :: "i32 \<Rightarrow> naive_date option"
  from_ymd_opt :: "i32 \<Rightarrow> u32 \<Rightarrow> u32 \<Rightarrow> naive_date option"
  checked_add_days :: "naive_date \<Rightarrow> int \<Rightarrow> naive_date option"
  from_num_seconds_from_midnight_opt :: "u32 \<Rightarrow> u32 \<Rightarrow> naive_time option"
  east_opt :: "i32 \<Rightarrow> i32 option"

text \<open>Laws: day numbers of SQL Server's range are dates; times below one day are times;
  offsets below one day are offsets; 1900-01-01 is day 693596 and adding days adds to the
  day number.\<close>

definition chrono_days_law :: "chrono_lib \<Rightarrow> bool" where
  "chrono_days_law C \<longleftrightarrow>
     (\<forall>n. 1 \<le> sint n \<and> sint n \<le> 3652059 \<longrightarrow> from_num_days_from_ce_opt C n = Some (NaiveDate n))"

definition chrono_time_law :: "chrono_lib \<Rightarrow> bool" where
  "chrono_time_law C \<longleftrightarrow>
     (\<forall>s n. unat n < 1000000000 \<longrightarrow>
        from_num_seconds_from_midnight_opt C s n =
          (if unat s < 86400 then Some (NaiveTime s n) else None))"

definition chrono_offset_law :: "chrono_lib \<Rightarrow> bool" where
  "chrono_offset_law C \<longleftrightarrow>
     (\<forall>s. - 86400 < sint s \<and> sint s < 86400 \<longrightarrow> east_opt C s = Some s)"

definition chrono_base_law :: "chrono_lib \<Rightarrow> bool" where
  "chrono_base_law C \<longleftrightarrow>
     from_ymd_opt C 1900 1 1 = Some (NaiveDate 693596) \<and>
     (\<forall>d k. 1 \<le> sint (num_days_from_ce d) + k \<and> sint (num_days_from_ce d) + k \<le> 3652059 \<longrightarrow>
        checked_add_days C d k = Some (NaiveDate (word_of_int (sint (num_days_from_ce d) + k))))"

definition sample_chrono :: chrono_lib where
  "sample_chrono = \<lparr>
     from_num_days_from_ce_opt = (\<lambda>n. Some (NaiveDate n)),
     from_ymd_opt = (\<lambda>y m d. if y = 1900 \<and> m = 1 \<and> d = 1 then Some (NaiveDate 693596) else None),
     checked_add_days = (\<lambda>d k. Some (NaiveDate (word_of_int (sint (num_days_from_ce d) + k)))),
     from_num_seconds_from_midnight_opt = (\<lambda>s n.
       if unat s < 86400 then Some (NaiveTime s n) else None),
     east_opt = (\<lambda>s. Some s)\<rparr>"

lemma sample_chrono_laws [simp]:
  "chrono_days_law sample_chrono" "chrono_time_law sample_chrono"
  "chrono_offset_law sample_chrono" "chrono_base_law sample_chrono"
  by (simp_all add: chrono_days_law_def chrono_time_law_def chrono_offset_law_def
      chrono_base_law_def sample_chrono_def)

section \<open>Encoding: chrono to SQL\<close>

definition DEFAULT_VARTIME_SCALE :: u8 where
  "DEFAULT_VARTIME_SCALE = 7"

definition naive_date_to_sql :: "tds_lib \<Rightarrow> naive_date \<Rightarrow> sql_date option" where
  "naive_date_to_sql L d =
     (let days = sint (num_days_from_ce d) - 1
      in if fits_unsigned 32 days
         then (case date_create L (word_of_int days) of Inl e \<Rightarrow> None | Inr sd \<Rightarrow> Some sd)
         else None)"

definition naive_time_to_sql :: "naive_time \<Rightarrow> sql_time" where
  "naive_time_to_sql t =
     (let nanos_since_midnight =
        (ucast (num_seconds_from_midnight t) :: u64) * 1000000000 + ucast (nanosecond t)
      in \<lparr>time_nanoseconds = nanos_since_midnight div 100, st_scale = DEFAULT_VARTIME_SCALE\<rparr>)"

definition naive_dt_to_sql :: "tds_lib \<Rightarrow> naive_datetime \<Rightarrow> sql_datetime2 option" where
  "naive_dt_to_sql L dt =
     (case naive_date_to_sql L (ndt_date dt) of
        None \<Rightarrow> None
      | Some d \<Rightarrow> Some \<lparr>dt2_days = get_days d, dt2_time = naive_time_to_sql (ndt_time dt)\<rparr>)"

definition to_sql_naive_date :: "tds_lib \<Rightarrow> naive_date \<Rightarrow> sql_type option" where
  "to_sql_naive_date L d = map_option (\<lambda>x. ST_Date (Some x)) (naive_date_to_sql L d)"

definition to_sql_naive_time :: "naive_time \<Rightarrow> sql_type" where
  "to_sql_naive_time t = ST_Time (Some (naive_time_to_sql t))"

definition to_sql_naive_datetime :: "tds_lib \<Rightarrow> naive_datetime \<Rightarrow> sql_type option" where
  "to_sql_naive_datetime L dt = map_option (\<lambda>x. ST_DateTime2 (Some x)) (naive_dt_to_sql L dt)"

text \<open>Rust's \<open>/\<close> on signed integers truncates towards zero.\<close>

definition quot_int :: "int \<Rightarrow> int \<Rightarrow> int" where
  "quot_int a b = sgn a * sgn b * (\<bar>a\<bar> div \<bar>b\<bar>)"

definition to_sql_datetime_fixed :: "tds_lib \<Rightarrow> datetime_fixed \<Rightarrow> sql_type option" where
  "to_sql_datetime_fixed L x =
     map_option
       (\<lambda>dt2. ST_DateTimeOffset (Some
          \<lparr>dto_datetime2 = dt2,
           dto_offset = (word_of_int (quot_int (sint (local_minus_utc x)) 60) :: i16)\<rparr>))
       (naive_dt_to_sql L (naive_utc x))"

definition to_sql_datetime_utc :: "tds_lib \<Rightarrow> naive_datetime \<Rightarrow> sql_type option" where
  "to_sql_datetime_utc L x =
     map_option (\<lambda>dt2. ST_DateTimeOffset (Some \<lparr>dto_datetime2 = dt2, dto_offset = 0\<rparr>))
       (naive_dt_to_sql L x)"

section \<open>Decoding: SQL to chrono\<close>

definition from_sql_naive_date :: "chrono_lib \<Rightarrow> column_values \<Rightarrow> naive_date option" where
  "from_sql_naive_date C v =
     (case v of
        CV_Date d \<Rightarrow> from_num_days_from_ce_opt C (ucast (get_days d) + 1)
      | CV_DateTime2 dt \<Rightarrow> from_num_days_from_ce_opt C (ucast (dt2_days dt) + 1)
      | CV_DateTime dt \<Rightarrow>
          Option.bind (from_ymd_opt C 1900 1 1) (\<lambda>base. checked_add_days C base (sint (sdt_days dt)))
      | _ \<Rightarrow> None)"

definition time_of_units :: "chrono_lib \<Rightarrow> u64 \<Rightarrow> naive_time option" where
  "time_of_units C units =
     (let total_nanos = units * 100;
          secs = (ucast (total_nanos div 1000000000) :: u32);
          nanos = (ucast (total_nanos mod 1000000000) :: u32)
      in from_num_seconds_from_midnight_opt C secs nanos)"

definition from_sql_naive_time :: "chrono_lib \<Rightarrow> column_values \<Rightarrow> naive_time option" where
  "from_sql_naive_time C v =
     (case v of CV_Time t \<Rightarrow> time_of_units C (time_nanoseconds t) | _ \<Rightarrow> None)"

definition from_sql_naive_datetime :: "chrono_lib \<Rightarrow> column_values \<Rightarrow> naive_datetime option" where
  "from_sql_naive_datetime C v =
     (case v of
        CV_DateTime2 dt \<Rightarrow>
          Option.bind (from_num_days_from_ce_opt C (ucast (dt2_days dt) + 1)) (\<lambda>date.
          Option.bind (time_of_units C (time_nanoseconds (dt2_time dt))) (\<lambda>time.
          Some (NaiveDateTime date time)))
      | CV_DateTime dt \<Rightarrow>
          Option.bind (from_ymd_opt C 1900 1 1) (\<lambda>base.
          Option.bind (checked_add_days C base (sint (sdt_days dt))) (\<lambda>date.
          (let total_ms = (ucast (sdt_time dt) :: u64) * 10 div 3;
               secs = (ucast (total_ms div 1000) :: u32);
               nanos = (ucast ((total_ms mod 1000) * 1000000) :: u32)
           in Option.bind (from_num_seconds_from_midnight_opt C secs nanos) (\<lambda>time.
              Some (NaiveDateTime date time)))))
      | CV_SmallDateTime sdt \<Rightarrow>
          Option.bind (from_ymd_opt C 1900 1 1) (\<lambda>base.
          Option.bind (checked_add_days C base (uint (ssdt_days sdt))) (\<lambda>date.
          Option.bind (from_num_seconds_from_midnight_opt C ((ucast (ssdt_time sdt) :: u32) * 60) 0) (\<lambda>time.
          Some (NaiveDateTime date time))))
      | _ \<Rightarrow> None)"

definition from_sql_datetime_fixed :: "chrono_lib \<Rightarrow> column_values \<Rightarrow> datetime_fixed option" where
  "from_sql_datetime_fixed C v =
     (case v of
        CV_DateTimeOffset dto \<Rightarrow>
          (let dt2 = dto_datetime2 dto
           in Option.bind (from_num_days_from_ce_opt C (ucast (dt2_days dt2) + 1)) (\<lambda>date.
              Option.bind (time_of_units C (time_nanoseconds (dt2_time dt2))) (\<lambda>time.
              Option.bind (east_opt C ((scast (dto_offset dto) :: i32) * 60)) (\<lambda>offset.
              Some (DateTimeFixed (NaiveDateTime date time) offset)))))
      | _ \<Rightarrow> None)"

section \<open>Round trips\<close>

text \<open>A time of day as the encoder's exact arithmetic sees it.\<close>

definition wf_time :: "naive_time \<Rightarrow> bool" where
  "wf_time t \<longleftrightarrow> unat (num_seconds_from_midnight t) < 86400 \<and> unat (nanosecond t) < 1000000000"

definition wf_date :: "naive_date \<Rightarrow> bool" where
  "wf_date d \<longleftrightarrow> 1 \<le> sint (num_days_from_ce d) \<and> sint (num_days_from_ce d) \<le> 3652059"

text \<open>Truncation to the 100 ns of the wire format.\<close>

definition trunc_100ns :: "naive_time \<Rightarrow> naive_time" where
  "trunc_100ns t = NaiveTime (num_seconds_from_midnight t) (nanosecond t - nanosecond t mod 100)"

lemma unat_ucast_wider:
  "LENGTH('a::len) \<le> LENGTH('b::len) \<Longrightarrow> unat (ucast (x :: 'a word) :: 'b word) = unat x"
  by (simp add: unsigned_ucast_eq take_bit_nat_eq_self unsigned_less [THEN order_less_le_trans])

lemma unat_mul_bound:
  assumes "unat a * unat b < 2 ^ LENGTH('a)"
  shows "unat ((a :: 'a::len word) * b) = unat a * unat b"
  using assms by (simp add: unat_word_ariths)

lemma unat_add_bound:
  assumes "unat a + unat b < 2 ^ LENGTH('a)"
  shows "unat ((a :: 'a::len word) + b) = unat a + unat b"
  using assms by (simp add: unat_word_ariths)

lemma unat_time_units:
  fixes s n :: u32
  shows "unat (time_nanoseconds (naive_time_to_sql (NaiveTime s n))) =
         (unat s * 1000000000 + unat n) div 100"
proof -
  have s: "unat s < 4294967296" and n: "unat n < 4294967296"
    using unsigned_less [of s] unsigned_less [of n] by simp_all
  have us: "unat (ucast s :: u64) = unat s" and un: "unat (ucast n :: u64) = unat n"
    by (simp_all add: unat_ucast_wider)
  have m: "unat ((ucast s :: u64) * 1000000000) = unat s * 1000000000"
    using s us by (subst unat_mul_bound) simp_all
  have "unat ((ucast s :: u64) * 1000000000 + ucast n) = unat s * 1000000000 + unat n"
    using s n m un by (subst unat_add_bound) simp_all
  then show ?thesis by (simp add: naive_time_to_sql_def Let_def unat_div)
qed

lemma time_units_value:
  assumes "wf_time t"
  shows "unat (time_nanoseconds (naive_time_to_sql t) * 100) =
     unat (num_seconds_from_midnight t) * 1000000000
       + (unat (nanosecond t) - unat (nanosecond t) mod 100)"
proof -
  define s n where "s = unat (num_seconds_from_midnight t)" and "n = unat (nanosecond t)"
  have b: "s < 86400" "n < 1000000000" using assms by (simp_all add: wf_time_def s_def n_def)
  have u: "unat (time_nanoseconds (naive_time_to_sql t)) = (s * 1000000000 + n) div 100"
    using unat_time_units [of "num_seconds_from_midnight t" "nanosecond t"]
    by (simp add: s_def n_def)
  have "(s * 1000000000 + n) div 100 = (n + 100 * (s * 10000000)) div 100"
    by (simp add: mult.commute add.commute)
  also have "\<dots> = s * 10000000 + n div 100" by (rule div_mult_self2) simp
  finally have e: "(s * 1000000000 + n) div 100 * 100 = s * 1000000000 + (n - n mod 100)"
    by (simp add: minus_mod_eq_div_mult)
  have "unat (time_nanoseconds (naive_time_to_sql t) * 100) = (s * 1000000000 + n) div 100 * 100"
    using b by (subst unat_mul_bound) (simp_all add: u)
  with e show ?thesis by (simp add: s_def n_def)
qed

lemma ucast_of_unat:
  assumes "unat (x :: u64) = unat (y :: u32)"
  shows "(ucast x :: u32) = y"
proof (rule unsigned_word_eqI)
  show "unat (ucast x :: u32) = unat y"
    using assms unsigned_less [of y, where 'a = nat]
    by (simp add: unsigned_ucast_eq take_bit_nat_eq_self)
qed

lemma unat_sub_mod: "unat ((n :: u32) - n mod 100) = unat n - unat n mod 100"
proof -
  have "n mod 100 \<le> n" by (simp add: word_le_nat_alt unat_mod)
  then show ?thesis by (simp add: unat_sub unat_mod)
qed

lemma time_of_units_encode:
  assumes "chrono_time_law C" and "wf_time t"
  shows "time_of_units C (time_nanoseconds (naive_time_to_sql t)) = Some (trunc_100ns t)"
proof -
  define s n where "s = num_seconds_from_midnight t" and "n = nanosecond t"
  define tot where "tot = time_nanoseconds (naive_time_to_sql t) * 100"
  have b: "unat s < 86400" "unat n < 1000000000"
    using assms(2) by (simp_all add: wf_time_def s_def n_def)
  have tot: "unat tot = unat s * 1000000000 + (unat n - unat n mod 100)"
    using time_units_value [OF assms(2)] by (simp add: tot_def s_def n_def)
  have "unat (tot div 1000000000) = unat s"
    using b by (simp add: unat_div tot)
  then have secs: "(ucast (tot div 1000000000) :: u32) = s" by (rule ucast_of_unat)
  have "unat n - unat n mod 100 < 1000000000" using b by simp
  then have "(unat n - unat n mod 100 + unat s * 1000000000) mod 1000000000 = unat n - unat n mod 100"
    by (simp only: mod_mult_self1 mod_less)
  then have "unat (tot mod 1000000000) = unat (n - n mod 100)"
    by (simp only: unat_mod tot unat_sub_mod add.commute) simp
  then have nanos: "(ucast (tot mod 1000000000) :: u32) = n - n mod 100" by (rule ucast_of_unat)
  have "unat (n - n mod 100) < 1000000000" using b by (simp add: unat_sub_mod)
  then have "from_num_seconds_from_midnight_opt C s (n - n mod 100) = Some (NaiveTime s (n - n mod 100))"
    using assms(1) b by (simp add: chrono_time_law_def)
  then show ?thesis
    unfolding time_of_units_def Let_def tot_def [symmetric] secs nanos
    by (simp add: trunc_100ns_def s_def n_def)
qed

lemma naive_date_to_sql_wf:
  assumes "date_create_law L" and "wf_date d"
  shows "naive_date_to_sql L d = Some (SqlDate (num_days_from_ce d - 1))"
proof -
  define k where "k = sint (num_days_from_ce d) - 1"
  have k: "0 \<le> k" "k \<le> 3652058" using assms(2) by (simp_all add: k_def wf_date_def)
  have w: "(word_of_int k :: u32) = num_days_from_ce d - 1"
    by (simp add: k_def)
  have "uint (word_of_int k :: u32) = k"
    using k by (intro uint_of_fitting) (simp add: fits_unsigned_def)
  then have "unat (word_of_int k :: u32) \<le> 3652058" using k by (simp add: unat_eq_nat_uint)
  then have "date_create L (word_of_int k) = Inr (SqlDate (word_of_int k))"
    using assms(1) by (simp add: date_create_law_def)
  moreover have "fits_unsigned 32 k" using k by (simp add: fits_unsigned_def)
  ultimately show ?thesis
    by (simp add: naive_date_to_sql_def Let_def w flip: k_def)
qed

lemma naive_date_to_sql_out_of_range:
  assumes "date_create_law L" and "\<not> wf_date d"
  shows "naive_date_to_sql L d = None"
proof -
  define k where "k = sint (num_days_from_ce d) - 1"
  have k: "k < 0 \<or> 3652058 < k" using assms(2) by (auto simp: k_def wf_date_def)
  show ?thesis
  proof (cases "fits_unsigned 32 k")
    case True
    then have "uint (word_of_int k :: u32) = k" by (intro uint_of_fitting) simp
    moreover have "3652058 < k" using k True by (simp add: fits_unsigned_def)
    ultimately have "\<not> unat (word_of_int k :: u32) \<le> 3652058"
      by (simp add: unat_eq_nat_uint)
    then have "\<exists>e. date_create L (word_of_int k) = Inl e"
      using assms(1) unfolding date_create_law_def by meson
    then show ?thesis by (auto simp: naive_date_to_sql_def Let_def simp flip: k_def)
  next
    case False
    then show ?thesis by (simp add: naive_date_to_sql_def Let_def flip: k_def)
  qed
qed

lemma decode_day:
  assumes "chrono_days_law C" and "wf_date d"
  shows "from_num_days_from_ce_opt C (num_days_from_ce d) = Some d"
  using assms by (cases d) (simp add: chrono_days_law_def wf_date_def)

lemma naive_dt_to_sql_wf:
  assumes "date_create_law L" and "wf_date (ndt_date dt)"
  shows "naive_dt_to_sql L dt =
     Some \<lparr>dt2_days = num_days_from_ce (ndt_date dt) - 1, dt2_time = naive_time_to_sql (ndt_time dt)\<rparr>"
  using naive_date_to_sql_wf [OF assms] by (simp add: naive_dt_to_sql_def)

lemma ucast_u32_id [simp]: "(ucast (x :: u32) :: u32) = x"
  by simp

lemma decode_encoded_datetime:
  assumes "date_create_law L" "chrono_days_law C" "chrono_time_law C"
    and "wf_date (ndt_date dt)" "wf_time (ndt_time dt)"
  shows "\<exists>x. naive_dt_to_sql L dt = Some x \<and>
     from_num_days_from_ce_opt C (dt2_days x + 1) = Some (ndt_date dt) \<and>
     time_of_units C (time_nanoseconds (dt2_time x)) = Some (trunc_100ns (ndt_time dt))"
  using assms by (simp add: naive_dt_to_sql_wf decode_day time_of_units_encode)

text \<open>C33: a \<open>NaiveDateTime\<close> from 0001-01-01 to 9999-12-31 whose time is not a leap second
  (\<open>chrono\<close>'s nanosecond field below one second), sent as \<open>datetime2\<close> and read back, is the
  same date and time up to the 100 ns resolution of the wire format.\<close>

theorem datetime2_roundtrip:
  assumes "date_create_law L" "chrono_days_law C" "chrono_time_law C"
    and "wf_date (ndt_date dt)" "wf_time (ndt_time dt)"
  shows "\<exists>x. to_sql_naive_datetime L dt = Some (ST_DateTime2 (Some x)) \<and>
     from_sql_naive_datetime C (CV_DateTime2 x) =
       Some (NaiveDateTime (ndt_date dt) (trunc_100ns (ndt_time dt)))"
  using decode_encoded_datetime [OF assms]
  by (auto simp: to_sql_naive_datetime_def from_sql_naive_datetime_def)

theorem datetime2_roundtrip_witness:
  "\<exists>x. to_sql_naive_datetime sample_lib
         (NaiveDateTime (NaiveDate 738945) (NaiveTime 45296 123456789)) = Some (ST_DateTime2 (Some x)) \<and>
     from_sql_naive_datetime sample_chrono (CV_DateTime2 x) =
       Some (NaiveDateTime (NaiveDate 738945) (NaiveTime 45296 123456700))"
  using datetime2_roundtrip [of sample_lib sample_chrono
      "NaiveDateTime (NaiveDate 738945) (NaiveTime 45296 123456789)"]
  by (simp add: wf_date_def wf_time_def trunc_100ns_def)

text \<open>The date encoders accept exactly SQL Server's range 0001-01-01 to 9999-12-31;
  outside of it they panic, on either side.\<close>

theorem date_encoding_range:
  assumes "date_create_law L"
  shows "to_sql_naive_date L d \<noteq> None \<longleftrightarrow> wf_date d"
  using naive_date_to_sql_wf [OF assms] naive_date_to_sql_out_of_range [OF assms]
  by (cases "wf_date d") (auto simp: to_sql_naive_date_def)

theorem date_encoding_range_witness:
  "to_sql_naive_date sample_lib (NaiveDate 0) = None \<and>
   to_sql_naive_date sample_lib (NaiveDate 3652059) \<noteq> None \<and>
   to_sql_naive_date sample_lib (NaiveDate 3652060) = None"
  using date_encoding_range [of sample_lib "NaiveDate 0"]
    date_encoding_range [of sample_lib "NaiveDate 3652059"]
    date_encoding_range [of sample_lib "NaiveDate 3652060"]
  by (simp add: wf_date_def)

lemma offset_minutes:
  assumes "sint off = 60 * m" and "\<bar>m\<bar> < 1440"
  shows "(scast (word_of_int (quot_int (sint (off :: i32)) 60) :: i16) :: i32) * 60 = off"
proof -
  have "quot_int (60 * m) 60 = m"
    by (cases "m = 0") (auto simp: quot_int_def sgn_mult abs_mult mult_sgn_abs)
  then have q: "quot_int (sint off) 60 = m" by (simp add: assms(1))
  have "sint (word_of_int m :: i16) = m"
    using assms(2) by (intro sint_of_fitting) (auto simp: fits_signed_def)
  then have "(scast (word_of_int m :: i16) :: i32) = word_of_int m" by (simp add: scast_eq)
  then have "(scast (word_of_int m :: i16) :: i32) * 60 = word_of_int (60 * m)"
    by (simp add: mult.commute)
  also have "\<dots> = off" by (simp flip: assms(1))
  finally show ?thesis by (simp add: q)
qed

text \<open>C34: a \<open>DateTime<FixedOffset>\<close> whose UTC date is from 0001-01-01 to 9999-12-31, whose UTC
  time is not a leap second and whose offset is a whole number of minutes below a day
  survives the trip through \<open>datetimeoffset\<close>: the UTC instant up to 100 ns, and the offset
  exactly.\<close>

theorem datetimeoffset_roundtrip:
  assumes "date_create_law L" "chrono_days_law C" "chrono_time_law C" "chrono_offset_law C"
    and "wf_date (ndt_date (naive_utc x))" "wf_time (ndt_time (naive_utc x))"
    and "sint (local_minus_utc x) = 60 * m" "\<bar>m\<bar> < 1440"
  shows "\<exists>v. to_sql_datetime_fixed L x = Some (ST_DateTimeOffset (Some v)) \<and>
     from_sql_datetime_fixed C (CV_DateTimeOffset v) =
       Some (DateTimeFixed
         (NaiveDateTime (ndt_date (naive_utc x)) (trunc_100ns (ndt_time (naive_utc x))))
         (local_minus_utc x))"
proof -
  obtain y where y: "naive_dt_to_sql L (naive_utc x) = Some y"
      "from_num_days_from_ce_opt C (dt2_days y + 1) = Some (ndt_date (naive_utc x))"
      "time_of_units C (time_nanoseconds (dt2_time y)) = Some (trunc_100ns (ndt_time (naive_utc x)))"
    using decode_encoded_datetime [OF assms(1-3) assms(5,6)] by blast
  have "east_opt C (local_minus_utc x) = Some (local_minus_utc x)"
  proof -
    have "- 86400 < sint (local_minus_utc x) \<and> sint (local_minus_utc x) < 86400"
      using assms(7,8) by arith
    with assms(4) show ?thesis by (simp add: chrono_offset_law_def)
  qed
  with y offset_minutes [OF assms(7,8)] show ?thesis
    by (simp add: to_sql_datetime_fixed_def from_sql_datetime_fixed_def Let_def)
qed

theorem datetimeoffset_roundtrip_witness:
  "\<exists>v. to_sql_datetime_fixed sample_lib
       (DateTimeFixed (NaiveDateTime (NaiveDate 738945) (NaiveTime 45296 500)) (- 19800)) =
         Some (ST_DateTimeOffset (Some v)) \<and>
     from_sql_datetime_fixed sample_chrono (CV_DateTimeOffset v) =
       Some (DateTimeFixed (NaiveDateTime (NaiveDate 738945) (NaiveTime 45296 500)) (- 19800))"
  using datetimeoffset_roundtrip [of sample_lib sample_chrono
      "DateTimeFixed (NaiveDateTime (NaiveDate 738945) (NaiveTime 45296 500)) (- 19800)" "- 330"]
  by (simp add: wf_date_def wf_time_def trunc_100ns_def)

text \<open>A leap second at the end of the day (23:59:60 in \<open>chrono\<close>'s representation,
  nanosecond field one second or more) is encoded to a time of day of 24 hours or more,
  which the decoder rejects: such a value is written but cannot be read back.\<close>

theorem leap_second_lost:
  assumes "chrono_time_law C" and "num_seconds_from_midnight t = 86399"
    and "1000000000 \<le> unat (nanosecond t)" and "unat (nanosecond t) < 2000000000"
  shows "from_sql_naive_time C (CV_Time (naive_time_to_sql t)) = None"
proof -
  obtain n where t: "t = NaiveTime 86399 n" using assms(2) by (cases t) simp
  have n: "1000000000 \<le> unat n" "unat n < 2000000000" using assms(3,4) t by simp_all
  define u where "u = time_nanoseconds (naive_time_to_sql t)"
  have u: "unat u = (86399 * 1000000000 + unat n) div 100"
    using unat_time_units [of 86399 n] by (simp add: u_def t)
  have tot: "unat (u * 100) = unat u * 100"
    using n u by (subst unat_mul_bound) simp_all
  have "unat (u * 100 div 1000000000) = 86400"
    using n by (simp add: unat_div tot u)
  then have secs: "unat (ucast (u * 100 div 1000000000) :: u32) = 86400"
    by (simp add: unsigned_ucast_eq take_bit_nat_eq_self)
  have "unat (u * 100 mod 1000000000) < 1000000000" by (simp add: unat_mod)
  then have "unat (ucast (u * 100 mod 1000000000) :: u32) < 1000000000"
    by (simp add: unsigned_ucast_eq take_bit_nat_eq_self)
  then show ?thesis
    using assms(1) secs
    by (simp add: from_sql_naive_time_def time_of_units_def Let_def chrono_time_law_def flip: u_def)
qed

theorem leap_second_lost_witness:
  "from_sql_naive_time sample_chrono (CV_Time (naive_time_to_sql (NaiveTime 86399 1500000000))) = None"
  by (rule leap_second_lost) simp_all

end
