(* ===== verification/NativeConv.thy ===== *)
theory NativeConv
  imports Temporal
begin

text \<open>
  The bridge's native conversion traits. \<open>query.rs\<close>: \<open>ToSql\<close> of the scalar types,
  strings, bytes, \<open>Decimal\<close>, JSON values and \<open>Option\<close> (with \<open>into_typed_null\<close>), and
  the parameter list built from them. \<open>row.rs\<close>: \<open>FromSql\<close> of the same types,
  \<open>vector.rs\<close>: both directions for \<open>VectorValue\<close>. A trait object \<open>&dyn ToSql\<close> is the
  result of its \<open>to_sql\<close>, \<open>None\<close> when that call panics.
\<close>

unbundle bit_operations_syntax

section \<open>Values of rust\_decimal and serde\_json\<close>

text \<open>A \<open>Decimal\<close> is its signed mantissa and its scale, as its accessors give them.\<close>

datatype decimal = Decimal (mantissa: int) (decimal_scale: u32)

record decimal_lib =
  dl_to_string :: "decimal \<Rightarrow> string"
  dl_parse :: "string \<Rightarrow> decimal option"

datatype json_number = JsonNumber nat

datatype json_value =
    JNull
  | JBool bool
  | JNumber json_number
  | JString string
  | JArray "json_value list"
  | JObject "(string \<times> json_value) list"

record json_lib =
  jn_as_i64 :: "json_number \<Rightarrow> i64 option"
  jn_as_f64 :: "json_number \<Rightarrow> f64 option"
  jv_to_string :: "json_value \<Rightarrow> string"
  jv_from_str :: "string \<Rightarrow> json_value option"

section \<open>ToSql\<close>

definition to_sql_bool :: "bool \<Rightarrow> sql_type" where [conv_defs]:
  "to_sql_bool b = ST_Bit (Some b)"

definition to_sql_u8 :: "u8 \<Rightarrow> sql_type" where [conv_defs]:
  "to_sql_u8 x = ST_TinyInt (Some x)"

definition to_sql_i16 :: "i16 \<Rightarrow> sql_type" where [conv_defs]:
  "to_sql_i16 x = ST_SmallInt (Some x)"

definition to_sql_i32 :: "i32 \<Rightarrow> sql_type" where [conv_defs]:
  "to_sql_i32 x = ST_Int (Some x)"

definition to_sql_i64 :: "i64 \<Rightarrow> sql_type" where [conv_defs]:
  "to_sql_i64 x = ST_BigInt (Some x)"

definition to_sql_f32 :: "f32 \<Rightarrow> sql_type" where [conv_defs]:
  "to_sql_f32 x = ST_Real (Some x)"

definition to_sql_f64 :: "f64 \<Rightarrow> sql_type" where [conv_defs]:
  "to_sql_f64 x = ST_Float (Some x)"

definition to_sql_str :: "tds_lib \<Rightarrow> string \<Rightarrow> sql_type" where [conv_defs]:
  "to_sql_str L s = ST_NVarchar (Some (sqlstr_from_utf8 L s)) 4000"

definition to_sql_string :: "tds_lib \<Rightarrow> string \<Rightarrow> sql_type" where [conv_defs]:
  "to_sql_string L s = ST_NVarchar (Some (sqlstr_from_utf8 L s)) 4000"

definition to_sql_uuid :: "u128 \<Rightarrow> sql_type" where [conv_defs]:
  "to_sql_uuid u = ST_Uuid (Some u)"

definition to_sql_bytes :: "bytes \<Rightarrow> sql_type" where [conv_defs]:
  "to_sql_bytes b = ST_VarBinaryMax (Some b)"

text \<open>\<open>checked_ilog10\<close> of the standard library.\<close>

fun ilog10 :: "nat \<Rightarrow> nat" where
  "ilog10 n = (if n < 10 then 0 else Suc (ilog10 (n div 10)))"

declare ilog10.simps [simp del]

definition checked_ilog10 :: "nat \<Rightarrow> nat option" where
  "checked_ilog10 n = (if n = 0 then None else Some (ilog10 n))"

definition decimal_to_sql_type :: "tds_lib \<Rightarrow> string \<Rightarrow> u8 \<Rightarrow> u8 \<Rightarrow> sql_type" where
  "decimal_to_sql_type L s precision scale =
     (case dec_from_string L s precision scale of
        Inr dp \<Rightarrow> ST_Numeric (Some dp)
      | Inl _ \<Rightarrow>
          (case dec_from_string L s 38 scale of
             Inr dp \<Rightarrow> ST_Numeric (Some dp)
           | Inl _ \<Rightarrow> ST_Numeric None))"

definition decimal_digits :: "decimal \<Rightarrow> nat" where
  "decimal_digits d =
     (case checked_ilog10 (nat \<bar>mantissa d\<bar>) of None \<Rightarrow> 0 | Some k \<Rightarrow> k) + 1"

text \<open>\<open>u8::try_from(digits).expect(..)\<close>: \<open>None\<close> is the panic.\<close>

definition decimal_precision :: "decimal \<Rightarrow> u8 option" where
  "decimal_precision d =
     (if decimal_digits d < 256
      then Some (max (word_of_nat (decimal_digits d)) (ucast (decimal_scale d))) else None)"

definition to_sql_decimal :: "tds_lib \<Rightarrow> decimal_lib \<Rightarrow> decimal \<Rightarrow> sql_type option" where
  "to_sql_decimal L D d =
     map_option (\<lambda>precision. decimal_to_sql_type L (dl_to_string D d) precision (ucast (decimal_scale d)))
       (decimal_precision d)"

fun into_typed_null :: "sql_type \<Rightarrow> sql_type" where
  "into_typed_null (ST_Bit _) = ST_Bit None"
| "into_typed_null (ST_TinyInt _) = ST_TinyInt None"
| "into_typed_null (ST_SmallInt _) = ST_SmallInt None"
| "into_typed_null (ST_Int _) = ST_Int None"
| "into_typed_null (ST_BigInt _) = ST_BigInt None"
| "into_typed_null (ST_Real _) = ST_Real None"
| "into_typed_null (ST_Float _) = ST_Float None"
| "into_typed_null (ST_Decimal _) = ST_Decimal None"
| "into_typed_null (ST_Numeric _) = ST_Numeric None"
| "into_typed_null (ST_Money _) = ST_Money None"
| "into_typed_null (ST_SmallMoney _) = ST_SmallMoney None"
| "into_typed_null (ST_Time _) = ST_Time None"
| "into_typed_null (ST_DateTime2 _) = ST_DateTime2 None"
| "into_typed_null (ST_DateTimeOffset _) = ST_DateTimeOffset None"
| "into_typed_null (ST_SmallDateTime _) = ST_SmallDateTime None"
| "into_typed_null (ST_DateTime _) = ST_DateTime None"
| "into_typed_null (ST_Date _) = ST_Date None"
| "into_typed_null (ST_NVarchar _ len) = ST_NVarchar None len"
| "into_typed_null (ST_NVarcharMax _) = ST_NVarcharMax None"
| "into_typed_null (ST_Varchar _ len) = ST_Varchar None len"
| "into_typed_null (ST_VarcharMax _) = ST_VarcharMax None"
| "into_typed_null (ST_VarBinary _ len) = ST_VarBinary None len"
| "into_typed_null (ST_VarBinaryMax _) = ST_VarBinaryMax None"
| "into_typed_null (ST_Binary _ len) = ST_Binary None len"
| "into_typed_null (ST_Char _ len) = ST_Char None len"
| "into_typed_null (ST_NChar _ len) = ST_NChar None len"
| "into_typed_null (ST_Text _) = ST_Text None"
| "into_typed_null (ST_NText _) = ST_NText None"
| "into_typed_null (ST_Image _) = ST_Image None"
| "into_typed_null (ST_Json _) = ST_Json None"
| "into_typed_null (ST_Xml _) = ST_Xml None"
| "into_typed_null (ST_Uuid _) = ST_Uuid None"
| "into_typed_null (ST_Vector _ dimensions base) = ST_Vector None dimensions base"
| "into_typed_null (ST_Variant inner) = ST_Variant (into_typed_null inner)"
| "into_typed_null (ST_Table name _) = ST_Table name None"
| "into_typed_null (ST_Udt name _) = ST_Udt name None"

text \<open>\<open>impl ToSql for Option<T>\<close>: the method of \<open>T\<close> and its default value are arguments.\<close>

definition to_sql_option :: "('a \<Rightarrow> sql_type) \<Rightarrow> 'a \<Rightarrow> 'a option \<Rightarrow> sql_type" where
  "to_sql_option to_sql dflt x =
     (case x of Some v \<Rightarrow> to_sql v | None \<Rightarrow> into_typed_null (to_sql dflt))"

definition f64_nan :: f64 where
  "f64_nan = 0x7FF8000000000000"

definition to_sql_json :: "tds_lib \<Rightarrow> json_lib \<Rightarrow> json_value \<Rightarrow> sql_type" where
  "to_sql_json L J v =
     (case v of
        JNull \<Rightarrow> ST_NVarchar None 4000
      | JBool b \<Rightarrow> ST_Bit (Some b)
      | JNumber n \<Rightarrow>
          (case jn_as_i64 J n of
             Some i \<Rightarrow> ST_BigInt (Some i)
           | None \<Rightarrow>
               (case jn_as_f64 J n of
                  Some f \<Rightarrow> ST_Float (Some f)
                | None \<Rightarrow> ST_Float (Some f64_nan)))
      | JString s \<Rightarrow> ST_NVarchar (Some (sqlstr_from_utf8 L s)) 4000
      | _ \<Rightarrow> ST_NVarchar (Some (sqlstr_from_utf8 L (jv_to_string J v))) 4000)"

text \<open>\<open>VectorValue\<close> of \<open>vector.rs\<close>: its private field, its methods, the two conversions from
  and to \<open>Vec<f32>\<close>, and its encoding; the dimension count is cast to \<open>u16\<close>.\<close>

record vector_value =
  vv_dimensions :: "f32 list"

definition vector_new :: "f32 list \<Rightarrow> vector_value" where
  "vector_new dims = \<lparr>vv_dimensions = dims\<rparr>"

definition vector_dimensions :: "vector_value \<Rightarrow> f32 list" where
  "vector_dimensions v = vv_dimensions v"

definition vector_into_dimensions :: "vector_value \<Rightarrow> f32 list" where
  "vector_into_dimensions v = vv_dimensions v"

definition vector_len :: "vector_value \<Rightarrow> nat" where
  "vector_len v = length (vv_dimensions v)"

definition vector_is_empty :: "vector_value \<Rightarrow> bool" where
  "vector_is_empty v \<longleftrightarrow> vv_dimensions v = []"

definition vector_from :: "f32 list \<Rightarrow> vector_value" where
  "vector_from dims = \<lparr>vv_dimensions = dims\<rparr>"

definition vector_into :: "vector_value \<Rightarrow> f32 list" where
  "vector_into v = vv_dimensions v"

definition to_sql_vector :: "tds_lib \<Rightarrow> vector_value \<Rightarrow> sql_type" where
  "to_sql_vector L v =
     (let dim_count = (word_of_nat (length (vv_dimensions v)) :: u16)
      in case vec_try_from_f32 L (vv_dimensions v) of
           Inr sv \<Rightarrow> ST_Vector (Some sv) dim_count BaseFloat32
         | Inl _ \<Rightarrow> ST_Vector None dim_count BaseFloat32)"

section \<open>FromSql\<close>

fun from_sql_bool :: "column_values \<Rightarrow> bool option" where
  "from_sql_bool (CV_Bit b) = Some b"
| "from_sql_bool _ = None"

fun from_sql_u8 :: "column_values \<Rightarrow> u8 option" where
  "from_sql_u8 (CV_TinyInt v) = Some v"
| "from_sql_u8 _ = None"

fun from_sql_i16 :: "column_values \<Rightarrow> i16 option" where
  "from_sql_i16 (CV_SmallInt v) = Some v"
| "from_sql_i16 (CV_TinyInt v) = Some (ucast v)"
| "from_sql_i16 _ = None"

fun from_sql_i32 :: "column_values \<Rightarrow> i32 option" where
  "from_sql_i32 (CV_Int v) = Some v"
| "from_sql_i32 (CV_SmallInt v) = Some (scast v)"
| "from_sql_i32 (CV_TinyInt v) = Some (ucast v)"
| "from_sql_i32 _ = None"

fun from_sql_i64 :: "column_values \<Rightarrow> i64 option" where
  "from_sql_i64 (CV_BigInt v) = Some v"
| "from_sql_i64 (CV_Int v) = Some (scast v)"
| "from_sql_i64 (CV_SmallInt v) = Some (scast v)"
| "from_sql_i64 (CV_TinyInt v) = Some (ucast v)"
| "from_sql_i64 _ = None"

fun from_sql_f32 :: "column_values \<Rightarrow> f32 option" where
  "from_sql_f32 (CV_Real v) = Some v"
| "from_sql_f32 _ = None"

text \<open>\<open>f32 as f64\<close> on bit patterns: zeros, infinities and NaNs keep their class, a normal
  number is rebiased by 896, a subnormal one is normalised by its leading bit.\<close>

fun ilog2 :: "nat \<Rightarrow> nat" where
  "ilog2 n = (if n < 2 then 0 else Suc (ilog2 (n div 2)))"

declare ilog2.simps [simp del]

definition f32_as_f64 :: "f32 \<Rightarrow> f64" where
  "f32_as_f64 x =
     (let n = unat x; s = n div 2 ^ 31; e = n div 2 ^ 23 mod 2 ^ 8; m = n mod 2 ^ 23;
          k = ilog2 m
      in word_of_nat (s * 2 ^ 63 +
           (if e = 255 then 2047 * 2 ^ 52 + m * 2 ^ 29
            else if e = 0 \<and> m = 0 then 0
            else if e = 0 then (874 + k) * 2 ^ 52 + (m - 2 ^ k) * 2 ^ (52 - k)
            else (e + 896) * 2 ^ 52 + m * 2 ^ 29)))"

fun from_sql_f64 :: "column_values \<Rightarrow> f64 option" where
  "from_sql_f64 (CV_Float v) = Some v"
| "from_sql_f64 (CV_Real v) = Some (f32_as_f64 v)"
| "from_sql_f64 _ = None"

fun from_sql_string :: "tds_lib \<Rightarrow> column_values \<Rightarrow> string option" where
  "from_sql_string L (CV_String s) = Some (sqlstr_to_utf8 L s)"
| "from_sql_string L (CV_Xml x) = Some (xml_as_string L x)"
| "from_sql_string L (CV_Json j) = Some (json_as_string L j)"
| "from_sql_string L _ = None"

fun from_sql_json :: "tds_lib \<Rightarrow> json_lib \<Rightarrow> column_values \<Rightarrow> json_value option" where
  "from_sql_json L J (CV_Json j) = jv_from_str J (json_as_string L j)"
| "from_sql_json L J (CV_String s) = jv_from_str J (sqlstr_to_utf8 L s)"
| "from_sql_json L J _ = None"

fun from_sql_uuid :: "column_values \<Rightarrow> u128 option" where
  "from_sql_uuid (CV_Uuid u) = Some u"
| "from_sql_uuid _ = None"

fun from_sql_bytes :: "column_values \<Rightarrow> bytes option" where
  "from_sql_bytes (CV_Bytes b) = Some b"
| "from_sql_bytes _ = None"

text \<open>\<open>MONEY\<close>: the two 32-bit halves are joined, the low one read as unsigned.\<close>

definition money_raw :: "sql_money \<Rightarrow> i64" where
  "money_raw m = push_bit 32 (scast (msb_part m) :: i64) OR (ucast (lsb_part m) :: i64)"

fun from_sql_decimal :: "tds_lib \<Rightarrow> decimal_lib \<Rightarrow> column_values \<Rightarrow> decimal option" where
  "from_sql_decimal L D (CV_Decimal d) = dl_parse D (dec_to_string L d)"
| "from_sql_decimal L D (CV_Numeric d) = dl_parse D (dec_to_string L d)"
| "from_sql_decimal L D (CV_SmallMoney m) = Some (Decimal (sint (int_val m)) 4)"
| "from_sql_decimal L D (CV_Money m) = Some (Decimal (sint (money_raw m)) 4)"
| "from_sql_decimal L D _ = None"

fun from_sql_vector :: "column_values \<Rightarrow> vector_value option" where
  "from_sql_vector (CV_Vector sv) = (case sv_data sv of Float32 dims \<Rightarrow> Some (vector_new dims))"
| "from_sql_vector _ = None"

text \<open>When the driver accepts the dimensions, a cell with the vector a parameter carries reads back
  as the value; the count beside it is exact below 65536 dimensions only.\<close>

lemma vector_reads_back:
  assumes "to_sql_vector L v = ST_Vector (Some sv) n b"
    and "\<And>dims sv. vec_try_from_f32 L dims = Inr sv \<Longrightarrow> sv_data sv = Float32 dims"
  shows "from_sql_vector (CV_Vector sv) = Some v" and "unat n = vector_len v mod 65536"
proof -
  from assms(1) have "vec_try_from_f32 L (vv_dimensions v) = Inr sv"
    and n: "n = word_of_nat (vector_len v)"
    by (auto simp: to_sql_vector_def vector_len_def Let_def split: sum.splits)
  with assms(2) show "from_sql_vector (CV_Vector sv) = Some v" by (simp add: vector_new_def)
  show "unat n = vector_len v mod 65536" by (simp add: n unat_of_nat)
qed

text \<open>\<open>from_sql_with_str\<close>: the default ignores the decoded string, \<open>&str\<close> is that string,
  \<open>Option<T>\<close> tells SQL NULL from a value of another type.\<close>

definition with_str_default :: "(column_values \<Rightarrow> 'a option) \<Rightarrow> column_values \<Rightarrow> string option \<Rightarrow> 'a option" where
  "with_str_default from_sql v decoded = from_sql v"

definition with_str_str :: "column_values \<Rightarrow> string option \<Rightarrow> string option" where
  "with_str_str v decoded = decoded"

definition with_str_option ::
    "(column_values \<Rightarrow> string option \<Rightarrow> 'a option) \<Rightarrow> column_values \<Rightarrow> string option \<Rightarrow> 'a option option" where
  "with_str_option from_sql_with_str v decoded =
     (case v of CV_Null \<Rightarrow> Some None | _ \<Rightarrow> Some (from_sql_with_str v decoded))"

section \<open>Parameter lists\<close>

type_synonym dyn_to_sql = "sql_type option"

definition encode_string_parameters :: "sql_type \<Rightarrow> bool \<Rightarrow> sql_type" where
  "encode_string_parameters t unicode =
     (if unicode then t
      else (case t of
              ST_NVarchar value len \<Rightarrow> ST_Varchar value len
            | ST_NVarcharMax value \<Rightarrow> ST_VarcharMax value
            | other \<Rightarrow> other))"

definition param_name :: "nat \<Rightarrow> string" where
  "param_name i = ''@P'' @ show_nat (i + 1)"

text \<open>\<open>enumerate().map(..).collect()\<close>; a panicking \<open>to_sql\<close> makes the whole call panic.\<close>

fun build_params_from :: "nat \<Rightarrow> dyn_to_sql list \<Rightarrow> bool \<Rightarrow> rpc_parameter list option" where
  "build_params_from i [] unicode = Some []"
| "build_params_from i (p # ps) unicode =
     (case p of
        None \<Rightarrow> None
      | Some t \<Rightarrow>
          (case build_params_from (i + 1) ps unicode of
             None \<Rightarrow> None
           | Some rest \<Rightarrow>
               Some (\<lparr>rp_name = Some (param_name i), rp_flags = FLAGS_NONE,
                      rp_value = encode_string_parameters t unicode\<rparr> # rest)))"

definition build_params_with_string_encoding ::
    "dyn_to_sql list \<Rightarrow> bool \<Rightarrow> rpc_parameter list option" where
  "build_params_with_string_encoding params unicode = build_params_from 0 params unicode"

definition build_params :: "dyn_to_sql list \<Rightarrow> rpc_parameter list option" where
  "build_params params = build_params_with_string_encoding params True"

section \<open>Properties\<close>

lemma param_name_inj: "param_name i = param_name j \<Longrightarrow> i = j"
  by (auto simp: param_name_def dest: show_nat_inj)

lemma build_params_from_Some:
  assumes "build_params_from k ps unicode = Some rs"
  shows "length rs = length ps \<and>
    (\<forall>i<length ps. \<exists>t. ps ! i = Some t \<and>
       rs ! i = \<lparr>rp_name = Some (param_name (k + i)), rp_flags = FLAGS_NONE,
                 rp_value = encode_string_parameters t unicode\<rparr>)"
  using assms
proof (induction ps arbitrary: k rs)
  case Nil
  then show ?case by simp
next
  case (Cons p ps)
  from Cons.prems obtain t rest where p: "p = Some t"
      and rest: "build_params_from (k + 1) ps unicode = Some rest"
      and rs: "rs = \<lparr>rp_name = Some (param_name k), rp_flags = FLAGS_NONE,
                 rp_value = encode_string_parameters t unicode\<rparr> # rest"
    by (auto split: option.splits)
  show ?case
  proof (intro conjI allI impI)
    show "length rs = length (p # ps)" using Cons.IH [OF rest] rs by simp
  next
    fix i assume "i < length (p # ps)"
    then show "\<exists>t. (p # ps) ! i = Some t \<and>
       rs ! i = \<lparr>rp_name = Some (param_name (k + i)), rp_flags = FLAGS_NONE,
                 rp_value = encode_string_parameters t unicode\<rparr>"
      using Cons.IH [OF rest] p rs by (cases i) auto
  qed
qed

lemma build_params_from_None:
  "build_params_from k ps unicode = None \<longleftrightarrow> None \<in> set ps"
  by (induction ps arbitrary: k) (auto split: option.splits)

text \<open>The parameter list has one entry per value, in order, the \<open>i\<close>-th named
  \<open>@P(i+1)\<close> with distinct names, and carries that value's SQL type with the string
  encoding the configuration asks for.\<close>

theorem build_params_positional:
  assumes "build_params_with_string_encoding ps unicode = Some rs"
  shows "map rp_name rs = map (\<lambda>i. Some (param_name i)) [0..<length ps] \<and>
     distinct (map rp_name rs) \<and>
     map rp_value rs = map (\<lambda>t. encode_string_parameters (the t) unicode) ps \<and> None \<notin> set ps"
proof -
  have ok: "build_params_from 0 ps unicode = Some rs"
    using assms by (simp add: build_params_with_string_encoding_def)
  note facts = build_params_from_Some [OF ok]
  have names: "map rp_name rs = map (\<lambda>i. Some (param_name i)) [0..<length ps]"
    using facts by (intro nth_equalityI) force+
  have vals: "map rp_value rs = map (\<lambda>t. encode_string_parameters (the t) unicode) ps"
    using facts by (intro nth_equalityI) force+
  have "distinct (map (\<lambda>i. Some (param_name i)) [0..<length ps])"
    by (simp add: distinct_map inj_on_def) (blast dest: param_name_inj)
  with names vals ok show ?thesis
    by (metis build_params_from_None option.distinct(1))
qed

theorem build_params_positional_witness:
  "map rp_name [\<lparr>rp_name = Some ''@P1'', rp_flags = FLAGS_NONE, rp_value = ST_Int (Some 1)\<rparr>,
       \<lparr>rp_name = Some ''@P2'', rp_flags = FLAGS_NONE, rp_value = ST_Varchar None 4000\<rparr>] =
     map (\<lambda>i. Some (param_name i)) [0..<2]"
  using build_params_positional [of "[Some (ST_Int (Some 1)), Some (ST_NVarchar None 4000)]" False
      "[\<lparr>rp_name = Some ''@P1'', rp_flags = FLAGS_NONE, rp_value = ST_Int (Some 1)\<rparr>,
       \<lparr>rp_name = Some ''@P2'', rp_flags = FLAGS_NONE, rp_value = ST_Varchar None 4000\<rparr>]"]
  by (simp add: build_params_with_string_encoding_def encode_string_parameters_def param_name_def
      show_nat.simps upt_rec flip: numeral_2_eq_2)

lemma ilog10_bounds: "0 < n \<Longrightarrow> 10 ^ ilog10 n \<le> n \<and> n < 10 ^ Suc (ilog10 n)"
proof (induction n rule: ilog10.induct)
  case (1 n)
  show ?case
  proof (cases "n < 10")
    case True
    with "1.prems" show ?thesis by (subst ilog10.simps, subst ilog10.simps) simp
  next
    case False
    with "1.IH" have "10 ^ ilog10 (n div 10) \<le> n div 10" "n div 10 < 10 ^ Suc (ilog10 (n div 10))"
      by simp_all
    then have "10 * 10 ^ ilog10 (n div 10) \<le> n" "n < 10 * 10 ^ Suc (ilog10 (n div 10))"
      by linarith+
    moreover have "ilog10 n = Suc (ilog10 (n div 10))" using False by (subst ilog10.simps) simp
    ultimately show ?thesis by simp
  qed
qed

text \<open>The precision chosen for a \<open>Decimal\<close> parameter counts the digits of its mantissa
  exactly (one digit for zero), also next to powers of ten.\<close>

theorem decimal_digits_exact:
  "\<bar>mantissa d\<bar> < 10 ^ decimal_digits d \<and>
   (mantissa d \<noteq> 0 \<longrightarrow> 10 ^ (decimal_digits d - 1) \<le> \<bar>mantissa d\<bar>)"
proof (cases "mantissa d = 0")
  case True
  then show ?thesis by (simp add: decimal_digits_def checked_ilog10_def)
next
  case False
  define m where "m = nat \<bar>mantissa d\<bar>"
  have m: "0 < m" "int m = \<bar>mantissa d\<bar>" using False by (simp_all add: m_def)
  have digits: "decimal_digits d = Suc (ilog10 m)"
    using m(1) by (simp add: decimal_digits_def checked_ilog10_def m_def)
  have "int (10 ^ ilog10 m) \<le> int m" "int m < int (10 ^ Suc (ilog10 m))"
    using ilog10_bounds [OF m(1)] by (simp_all only: of_nat_le_iff of_nat_less_iff)
  then show ?thesis by (simp add: digits m(2))
qed

theorem decimal_digits_exact_witness:
  "\<bar>mantissa (Decimal (- 9999) 4)\<bar> < 10 ^ decimal_digits (Decimal (- 9999) 4) \<and>
   10 ^ (decimal_digits (Decimal (- 9999) 4) - 1) \<le> \<bar>mantissa (Decimal (- 9999) 4)\<bar>"
  using decimal_digits_exact [of "Decimal (- 9999) 4"] by simp

text \<open>A \<open>money\<close> value is the 64-bit number whose high half is the signed \<open>msb_part\<close>
  and whose low half is \<open>lsb_part\<close> read as unsigned.\<close>

theorem money_value: "sint (money_raw m) = sint (msb_part m) * 2 ^ 32 + uint (lsb_part m)"
proof -
  define h l where "h = sint (msb_part m)" and "l = uint (lsb_part m)"
  have h: "- (2 ^ 31) \<le> h" "h < 2 ^ 31"
    using sint_fits [of "msb_part m"] by (simp_all add: fits_signed_def h_def)
  have l: "0 \<le> l" "l < 2 ^ 32"
    using unsigned_less [of "lsb_part m", where 'a = int] by (simp_all add: l_def)
  have disj: "push_bit 32 (scast (msb_part m) :: i64) AND (ucast (lsb_part m) :: i64) = 0"
    by (rule bit_word_eqI) (auto simp: bit_simps dest: bit_imp_le_length)
  have "money_raw m = push_bit 32 (scast (msb_part m) :: i64) + (ucast (lsb_part m) :: i64)"
    using disj by (simp add: money_raw_def disjunctive_add_eq_or)
  also have "\<dots> = word_of_int (h * 2 ^ 32 + l)"
    by (simp only: push_bit_eq_mult scast_eq ucast_eq h_def l_def
        of_int_add of_int_mult of_int_power of_int_numeral)
  finally have "money_raw m = word_of_int (h * 2 ^ 32 + l)" .
  moreover have "fits_signed LENGTH(64) (h * 2 ^ 32 + l)"
    using h l by (simp add: fits_signed_def)
  then have "sint (word_of_int (h * 2 ^ 32 + l) :: i64) = h * 2 ^ 32 + l"
    by (rule sint_of_fitting)
  ultimately show ?thesis by (simp only: h_def l_def)
qed

text \<open>The numeric value of an integer cell, and the widening reads.\<close>

fun int_cell_value :: "column_values \<Rightarrow> int option" where
  "int_cell_value (CV_TinyInt v) = Some (uint v)"
| "int_cell_value (CV_SmallInt v) = Some (sint v)"
| "int_cell_value (CV_Int v) = Some (sint v)"
| "int_cell_value (CV_BigInt v) = Some (sint v)"
| "int_cell_value _ = None"

lemma integer_reads_value:
  "map_option sint (from_sql_i64 v) = int_cell_value v"
  "from_sql_i32 v = Some x32 \<Longrightarrow> int_cell_value v = Some (sint x32)"
  "from_sql_i16 v = Some x16 \<Longrightarrow> int_cell_value v = Some (sint x16)"
  "from_sql_u8 v = Some x8 \<Longrightarrow> int_cell_value v = Some (uint x8)"
  by (cases v; auto simp: sint_ucast_wider sint_scast_wider)+

text \<open>Reading an integer column into a wider Rust integer keeps its value; \<open>i64\<close> reads
  every integer column, the narrower targets read exactly the columns that fit them.\<close>

theorem integer_reads_preserve_value:
  "map_option sint (from_sql_i64 v) = int_cell_value v \<and>
   (\<forall>x. from_sql_i32 v = Some x \<longrightarrow> int_cell_value v = Some (sint x)) \<and>
   (\<forall>x. from_sql_i16 v = Some x \<longrightarrow> int_cell_value v = Some (sint x)) \<and>
   (\<forall>x. from_sql_u8 v = Some x \<longrightarrow> int_cell_value v = Some (uint x))"
  using integer_reads_value [of v] by blast

theorem integer_reads_preserve_value_witness:
  "from_sql_i32 (CV_SmallInt (- 5)) = Some (- 5) \<and> int_cell_value (CV_SmallInt (- 5)) = Some (- 5)"
  using integer_reads_preserve_value [of "CV_SmallInt (- 5)"] by simp

lemma into_typed_null_idem: "into_typed_null (into_typed_null t) = into_typed_null t"
  by (induction t) auto

end
