(* ===== verification/ColumnModel.thy ===== *)
theory ColumnModel
  imports TdsTypes
begin

text \<open>
  \<open>column.rs\<close>: the column type enumeration, its derivation from the driver's metadata
  (data type, wire length, CLR type identity) and the column record the facade exposes.
\<close>

datatype column_type =
    CT_Null | CT_Bit | CT_Int1 | CT_Int2 | CT_Int4 | CT_Int8 | CT_Float4 | CT_Float8
  | CT_Datetime | CT_Datetime2 | CT_Datetime4 | CT_DatetimeOffset | CT_Date | CT_Time
  | CT_Decimaln | CT_Numericn | CT_Money | CT_Money4 | CT_Guid | CT_NVarchar | CT_Varchar
  | CT_NChar | CT_Char | CT_NText | CT_Text | CT_Binary | CT_VarBinary | CT_Image | CT_Xml
  | CT_Json | CT_Vector | CT_BigVarBin | CT_Ssvariant | CT_Geography | CT_Geometry | CT_Udt

text \<open>\<open>From<TdsDataType>\<close>; the last equation is the wildcard arm.\<close>

fun column_type_from :: "tds_data_type \<Rightarrow> column_type" where
  "column_type_from TD_Void = CT_Null"
| "column_type_from TD_Bit = CT_Bit"
| "column_type_from TD_BitN = CT_Bit"
| "column_type_from TD_Int1 = CT_Int1"
| "column_type_from TD_Int2 = CT_Int2"
| "column_type_from TD_Int4 = CT_Int4"
| "column_type_from TD_IntN = CT_Int4"
| "column_type_from TD_Int8 = CT_Int8"
| "column_type_from TD_Flt4 = CT_Float4"
| "column_type_from TD_Flt8 = CT_Float8"
| "column_type_from TD_FltN = CT_Float8"
| "column_type_from TD_DateTime = CT_Datetime"
| "column_type_from TD_DateTimeN = CT_Datetime"
| "column_type_from TD_DateTime2N = CT_Datetime2"
| "column_type_from TD_DateTim4 = CT_Datetime4"
| "column_type_from TD_DateTimeOffsetN = CT_DatetimeOffset"
| "column_type_from TD_DateN = CT_Date"
| "column_type_from TD_TimeN = CT_Time"
| "column_type_from TD_Decimal = CT_Decimaln"
| "column_type_from TD_DecimalN = CT_Decimaln"
| "column_type_from TD_Numeric = CT_Numericn"
| "column_type_from TD_NumericN = CT_Numericn"
| "column_type_from TD_Money = CT_Money"
| "column_type_from TD_MoneyN = CT_Money"
| "column_type_from TD_Guid = CT_Guid"
| "column_type_from TD_NVarChar = CT_NVarchar"
| "column_type_from TD_VarChar = CT_Varchar"
| "column_type_from TD_BigVarChar = CT_Varchar"
| "column_type_from TD_NChar = CT_NChar"
| "column_type_from TD_Char = CT_Char"
| "column_type_from TD_NText = CT_NText"
| "column_type_from TD_Text = CT_Text"
| "column_type_from TD_Binary = CT_Binary"
| "column_type_from TD_VarBinary = CT_VarBinary"
| "column_type_from TD_BigVarBinary = CT_VarBinary"
| "column_type_from TD_Image = CT_Image"
| "column_type_from TD_Xml = CT_Xml"
| "column_type_from TD_Json = CT_Json"
| "column_type_from TD_Vector = CT_Vector"
| "column_type_from TD_SsVariant = CT_Ssvariant"
| "column_type_from TD_Udt = CT_Udt"
| "column_type_from (TD_Unlisted _) = CT_Null"

fun from_tds_with_length :: "tds_data_type \<Rightarrow> nat \<Rightarrow> column_type" where
  "from_tds_with_length TD_IntN n =
     (if n = 1 then CT_Int1 else if n = 2 then CT_Int2 else if n = 4 then CT_Int4
      else if n = 8 then CT_Int8 else CT_Int4)"
| "from_tds_with_length TD_FltN n =
     (if n = 4 then CT_Float4 else if n = 8 then CT_Float8 else CT_Float8)"
| "from_tds_with_length TD_MoneyN n =
     (if n = 4 then CT_Money4 else if n = 8 then CT_Money else CT_Money)"
| "from_tds_with_length other n = column_type_from other"

text \<open>The driver's metadata, as far as the bridge reads it.\<close>

record udt_info =
  ui_schema_name :: string
  ui_type_name :: string

record sql_collation =
  sc_info :: u32
  sc_lcid_language_id :: i32
  sc_col_flags :: u8
  sc_sort_id :: u8

record column_metadata =
  cm_column_name :: string
  cm_data_type :: tds_data_type
  cm_length :: nat
  cm_udt_info :: "udt_info option"
  cm_is_nullable :: bool
  cm_is_identity :: bool
  cm_is_computed :: bool
  cm_is_case_sensitive :: bool
  cm_is_sparse_column_set :: bool
  cm_is_encrypted :: bool
  cm_is_plp :: bool
  cm_scale :: "u8 option"
  cm_collation :: "sql_collation option"
  cm_user_type :: u32

definition from_metadata :: "column_metadata \<Rightarrow> column_type" where
  "from_metadata meta =
     (let by_length = from_tds_with_length (cm_data_type meta) (cm_length meta)
      in if cm_data_type meta = TD_Udt
         then (case cm_udt_info meta of
                 None \<Rightarrow> by_length
               | Some info \<Rightarrow>
                   if eq_ignore_ascii_case (ui_schema_name info) ''sys''
                   then (if eq_ignore_ascii_case (ui_type_name info) ''geography'' then CT_Geography
                         else if eq_ignore_ascii_case (ui_type_name info) ''geometry'' then CT_Geometry
                         else by_length)
                   else by_length)
         else by_length)"

record collation =
  co_info :: u32
  co_lcid_language_id :: i32
  co_col_flags :: u8
  co_sort_id :: u8

definition collation_from :: "sql_collation \<Rightarrow> collation" where
  "collation_from v =
     \<lparr>co_info = sc_info v, co_lcid_language_id = sc_lcid_language_id v,
      co_col_flags = sc_col_flags v, co_sort_id = sc_sort_id v\<rparr>"

record multi_part_name =
  mp_server_name :: "string option"
  mp_catalog_name :: "string option"
  mp_schema_name :: "string option"
  mp_table_name :: string

record column =
  col_name :: string
  col_type :: column_type
  col_nullable :: bool
  col_is_identity :: bool
  col_is_computed :: bool
  col_is_case_sensitive :: bool
  col_is_sparse_column_set :: bool
  col_is_encrypted :: bool
  col_is_plp :: bool
  col_byte_length :: nat
  col_scale :: "u8 option"
  col_collation :: "collation option"
  col_user_type :: u32
  col_multi_part_name :: "multi_part_name option"

definition precision :: "column \<Rightarrow> u8 option" where
  "precision c = None"

definition char_length :: "column \<Rightarrow> nat option" where
  "char_length c =
     (case col_type c of
        CT_NVarchar \<Rightarrow> Some (col_byte_length c div 2)
      | CT_NChar \<Rightarrow> Some (col_byte_length c div 2)
      | CT_NText \<Rightarrow> Some (col_byte_length c div 2)
      | CT_Varchar \<Rightarrow> Some (col_byte_length c)
      | CT_Char \<Rightarrow> Some (col_byte_length c)
      | CT_Text \<Rightarrow> Some (col_byte_length c)
      | _ \<Rightarrow> None)"

definition column_from_tds :: "column_metadata \<Rightarrow> column" where
  "column_from_tds meta =
     \<lparr>col_name = cm_column_name meta,
      col_type = from_metadata meta,
      col_nullable = cm_is_nullable meta,
      col_is_identity = cm_is_identity meta,
      col_is_computed = cm_is_computed meta,
      col_is_case_sensitive = cm_is_case_sensitive meta,
      col_is_sparse_column_set = cm_is_sparse_column_set meta,
      col_is_encrypted = cm_is_encrypted meta,
      col_is_plp = cm_is_plp meta,
      col_byte_length = cm_length meta,
      col_scale = cm_scale meta,
      col_collation = map_option collation_from (cm_collation meta),
      col_user_type = cm_user_type meta,
      col_multi_part_name = None\<rparr>"

section \<open>Properties\<close>

lemma column_type_from_not_spatial:
  "column_type_from d \<noteq> CT_Geography" "column_type_from d \<noteq> CT_Geometry"
  by (cases d; simp)+

lemma from_tds_with_length_not_spatial:
  "from_tds_with_length d n \<noteq> CT_Geography" "from_tds_with_length d n \<noteq> CT_Geometry"
  by (cases d; simp)+

text \<open>A CLR type of the system schema with the given name.\<close>

definition sys_udt :: "string \<Rightarrow> column_metadata \<Rightarrow> bool" where
  "sys_udt name meta \<longleftrightarrow> cm_data_type meta = TD_Udt \<and>
     (\<exists>info. cm_udt_info meta = Some info \<and> eq_ignore_ascii_case (ui_schema_name info) ''sys'' \<and>
        eq_ignore_ascii_case (ui_type_name info) name)"

lemma geography_not_geometry:
  "eq_ignore_ascii_case s ''geography'' \<Longrightarrow> \<not> eq_ignore_ascii_case s ''geometry''"
proof
  assume a: "eq_ignore_ascii_case s ''geography''" "eq_ignore_ascii_case s ''geometry''"
  then have "length s = length ''geography''" "length s = length ''geometry''"
    unfolding eq_ignore_ascii_case_def by (metis length_map)+
  then show False by simp
qed

text \<open>A column is reported as \<open>Geography\<close> (\<open>Geometry\<close>) exactly when it is a CLR type
  of that name in the \<open>sys\<close> schema, letter case ignored; a user type of the same name in
  another schema is a plain \<open>Udt\<close>.\<close>

theorem spatial_identity:
  "(from_metadata m = CT_Geography \<longleftrightarrow> sys_udt ''geography'' m) \<and>
   (from_metadata m = CT_Geometry \<longleftrightarrow> sys_udt ''geometry'' m) \<and>
   (from_metadata m \<noteq> CT_Geography \<and> from_metadata m \<noteq> CT_Geometry \<longleftrightarrow>
      from_metadata m = from_tds_with_length (cm_data_type m) (cm_length m))"
  using geography_not_geometry
  by (auto simp: from_metadata_def Let_def sys_udt_def from_tds_with_length_not_spatial
      split: option.splits)

text \<open>The storage width of the fixed-width numeric column types.\<close>

fun numeric_width :: "column_type \<Rightarrow> nat option" where
  "numeric_width CT_Int1 = Some 1"
| "numeric_width CT_Int2 = Some 2"
| "numeric_width CT_Int4 = Some 4"
| "numeric_width CT_Int8 = Some 8"
| "numeric_width CT_Float4 = Some 4"
| "numeric_width CT_Float8 = Some 8"
| "numeric_width CT_Money4 = Some 4"
| "numeric_width CT_Money = Some 8"
| "numeric_width _ = None"

fun legal_width :: "tds_data_type \<Rightarrow> nat \<Rightarrow> bool" where
  "legal_width TD_IntN n = (n \<in> {1, 2, 4, 8})"
| "legal_width TD_FltN n = (n \<in> {4, 8})"
| "legal_width TD_MoneyN n = (n \<in> {4, 8})"
| "legal_width _ n = True"

text \<open>For the variable-width nullable types the resolved column type has exactly the
  wire width of the metadata.\<close>

theorem nullable_width_exact:
  assumes "d = TD_IntN \<or> d = TD_FltN \<or> d = TD_MoneyN" and "legal_width d n"
  shows "numeric_width (from_tds_with_length d n) = Some n"
  using assms by auto

theorem nullable_width_exact_witness:
  "numeric_width (from_tds_with_length TD_IntN 8) = Some 8"
  by (rule nullable_width_exact) simp_all

end
