(* ===== verification/CompatConv.thy ===== *)
theory CompatConv
  imports NativeConv ColumnModel
begin

text \<open>
  \<open>compat/conversion.rs\<close>: the Tiberius-shaped value \<open>ColumnData\<close>, its conversions from
  parameters (\<open>from_native\<close>), from cells (\<open>column_data_ref\<close>), to parameters
  (\<open>to_sql\<close>) and to cells (\<open>into_column_value\<close>), and the typed readers built on them.
  A \<open>Cow\<close> is the string or bytes it stands for. The texts of conversion errors use the
  derived \<open>Debug\<close> output of the value, a parameter here.
\<close>

datatype column_data =
    CD_Bit "bool option"
  | CD_U8 "u8 option"
  | CD_I16 "i16 option"
  | CD_I32 "i32 option"
  | CD_I64 "i64 option"
  | CD_F32 "f32 option"
  | CD_F64 "f64 option"
  | CD_String "string option"
  | CD_Guid "u128 option"
  | CD_Binary "bytes option"
  | CD_Numeric "decimal_parts option"
  | CD_Xml "string option"
  | CD_DateTime "sql_datetime option"
  | CD_SmallDateTime "sql_smalldatetime option"
  | CD_Time "sql_time option"
  | CD_Date "sql_date option"
  | CD_DateTime2 "sql_datetime2 option"
  | CD_DateTimeOffset "sql_datetimeoffset option"
  | CD_Money "sql_money option"
  | CD_SmallMoney "sql_smallmoney option"
  | CD_Json "string option"
  | CD_Native sql_type

record debug_fmt =
  dbg_sql_type :: "sql_type \<Rightarrow> string"
  dbg_column_values :: "column_values \<Rightarrow> string"
  dbg_column_data :: "column_data \<Rightarrow> string"

text \<open>A sample formatter for the witnesses.\<close>

definition sample_debug :: debug_fmt where
  "sample_debug = \<lparr>dbg_sql_type = (\<lambda>_. ''SqlType''), dbg_column_values = (\<lambda>_. ''ColumnValues''),
     dbg_column_data = (\<lambda>_. ''ColumnData'')\<rparr>"

section \<open>Conversions\<close>

fun from_native :: "tds_lib \<Rightarrow> sql_type \<Rightarrow> column_data" where
  "from_native L (ST_Bit v) = CD_Bit v"
| "from_native L (ST_TinyInt v) = CD_U8 v"
| "from_native L (ST_SmallInt v) = CD_I16 v"
| "from_native L (ST_Int v) = CD_I32 v"
| "from_native L (ST_BigInt v) = CD_I64 v"
| "from_native L (ST_Real v) = CD_F32 v"
| "from_native L (ST_Float v) = CD_F64 v"
| "from_native L (ST_Decimal v) = CD_Numeric v"
| "from_native L (ST_Numeric v) = CD_Numeric v"
| "from_native L (ST_Money v) = CD_Money v"
| "from_native L (ST_SmallMoney v) = CD_SmallMoney v"
| "from_native L (ST_Time v) = CD_Time v"
| "from_native L (ST_DateTime2 v) = CD_DateTime2 v"
| "from_native L (ST_DateTimeOffset v) = CD_DateTimeOffset v"
| "from_native L (ST_SmallDateTime v) = CD_SmallDateTime v"
| "from_native L (ST_DateTime v) = CD_DateTime v"
| "from_native L (ST_Date v) = CD_Date v"
| "from_native L (ST_NVarchar v _) = CD_String (map_option (sqlstr_to_utf8 L) v)"
| "from_native L (ST_NVarcharMax v) = CD_String (map_option (sqlstr_to_utf8 L) v)"
| "from_native L (ST_Varchar v _) = CD_String (map_option (sqlstr_to_utf8 L) v)"
| "from_native L (ST_VarcharMax v) = CD_String (map_option (sqlstr_to_utf8 L) v)"
| "from_native L (ST_Char v _) = CD_String (map_option (sqlstr_to_utf8 L) v)"
| "from_native L (ST_NChar v _) = CD_String (map_option (sqlstr_to_utf8 L) v)"
| "from_native L (ST_Text v) = CD_String (map_option (sqlstr_to_utf8 L) v)"
| "from_native L (ST_NText v) = CD_String (map_option (sqlstr_to_utf8 L) v)"
| "from_native L (ST_VarBinary v _) = CD_Binary v"
| "from_native L (ST_VarBinaryMax v) = CD_Binary v"
| "from_native L (ST_Binary v _) = CD_Binary v"
| "from_native L (ST_Image v) = CD_Binary v"
| "from_native L (ST_Json v) = CD_Json (map_option (json_as_string L) v)"
| "from_native L (ST_Xml v) = CD_Xml (map_option (xml_as_string L) v)"
| "from_native L (ST_Uuid v) = CD_Guid v"
| "from_native L (ST_Vector v n b) = CD_Native (ST_Vector v n b)"
| "from_native L (ST_Variant t) = CD_Native (ST_Variant t)"
| "from_native L (ST_Table n v) = CD_Native (ST_Table n v)"
| "from_native L (ST_Udt n v) = CD_Native (ST_Udt n v)"

fun into_column_value :: "tds_lib \<Rightarrow> debug_fmt \<Rightarrow> column_data \<Rightarrow> error + column_values" where
  "into_column_value L F (CD_Bit (Some v)) = Inr (CV_Bit v)"
| "into_column_value L F (CD_U8 (Some v)) = Inr (CV_TinyInt v)"
| "into_column_value L F (CD_I16 (Some v)) = Inr (CV_SmallInt v)"
| "into_column_value L F (CD_I32 (Some v)) = Inr (CV_Int v)"
| "into_column_value L F (CD_I64 (Some v)) = Inr (CV_BigInt v)"
| "into_column_value L F (CD_F32 (Some v)) = Inr (CV_Real v)"
| "into_column_value L F (CD_F64 (Some v)) = Inr (CV_Float v)"
| "into_column_value L F (CD_String (Some v)) = Inr (CV_String (sqlstr_from_utf8 L v))"
| "into_column_value L F (CD_Guid (Some v)) = Inr (CV_Uuid v)"
| "into_column_value L F (CD_Binary (Some v)) = Inr (CV_Bytes v)"
| "into_column_value L F (CD_Numeric (Some v)) = Inr (CV_Numeric v)"
| "into_column_value L F (CD_Xml (Some v)) = Inr (CV_Xml (xml_from L v))"
| "into_column_value L F (CD_DateTime (Some v)) = Inr (CV_DateTime v)"
| "into_column_value L F (CD_SmallDateTime (Some v)) = Inr (CV_SmallDateTime v)"
| "into_column_value L F (CD_Time (Some v)) = Inr (CV_Time v)"
| "into_column_value L F (CD_Date (Some v)) = Inr (CV_Date v)"
| "into_column_value L F (CD_DateTime2 (Some v)) = Inr (CV_DateTime2 v)"
| "into_column_value L F (CD_DateTimeOffset (Some v)) = Inr (CV_DateTimeOffset v)"
| "into_column_value L F (CD_Money (Some v)) = Inr (CV_Money v)"
| "into_column_value L F (CD_SmallMoney (Some v)) = Inr (CV_SmallMoney v)"
| "into_column_value L F (CD_Json (Some v)) = Inr (CV_Json (json_from L v))"
| "into_column_value L F (CD_Native v) =
     Inl (Conversion (''cannot decode bridge-native parameter '' @ dbg_sql_type F v @ '' as a row value''))"
| "into_column_value L F _ = Inr CV_Null"

fun null_column_data :: "column_type \<Rightarrow> column_data" where
  "null_column_data CT_Bit = CD_Bit None"
| "null_column_data CT_Int1 = CD_U8 None"
| "null_column_data CT_Int2 = CD_I16 None"
| "null_column_data CT_Int4 = CD_I32 None"
| "null_column_data CT_Int8 = CD_I64 None"
| "null_column_data CT_Float4 = CD_F32 None"
| "null_column_data CT_Float8 = CD_F64 None"
| "null_column_data CT_Datetime = CD_DateTime None"
| "null_column_data CT_Datetime4 = CD_SmallDateTime None"
| "null_column_data CT_Datetime2 = CD_DateTime2 None"
| "null_column_data CT_DatetimeOffset = CD_DateTimeOffset None"
| "null_column_data CT_Date = CD_Date None"
| "null_column_data CT_Time = CD_Time None"
| "null_column_data CT_Decimaln = CD_Numeric None"
| "null_column_data CT_Numericn = CD_Numeric None"
| "null_column_data CT_Money = CD_Money None"
| "null_column_data CT_Money4 = CD_SmallMoney None"
| "null_column_data CT_Guid = CD_Guid None"
| "null_column_data CT_Xml = CD_Xml None"
| "null_column_data CT_Json = CD_Json None"
| "null_column_data CT_NVarchar = CD_String None"
| "null_column_data CT_Varchar = CD_String None"
| "null_column_data CT_NChar = CD_String None"
| "null_column_data CT_Char = CD_String None"
| "null_column_data CT_NText = CD_String None"
| "null_column_data CT_Text = CD_String None"
| "null_column_data CT_Null = CD_String None"
| "null_column_data CT_Binary = CD_Binary None"
| "null_column_data CT_VarBinary = CD_Binary None"
| "null_column_data CT_Image = CD_Binary None"
| "null_column_data CT_BigVarBin = CD_Binary None"
| "null_column_data CT_Ssvariant = CD_Binary None"
| "null_column_data CT_Geography = CD_Binary None"
| "null_column_data CT_Geometry = CD_Binary None"
| "null_column_data CT_Udt = CD_Binary None"
| "null_column_data CT_Vector = CD_Binary None"

definition decoded_or :: "string option \<Rightarrow> string \<Rightarrow> string" where
  "decoded_or decoded s = (case decoded of Some d \<Rightarrow> d | None \<Rightarrow> s)"

fun column_data_ref :: "tds_lib \<Rightarrow> column_values \<Rightarrow> string option \<Rightarrow> column_type \<Rightarrow> column_data" where
  "column_data_ref L (CV_TinyInt v) decoded ct = CD_U8 (Some v)"
| "column_data_ref L (CV_SmallInt v) decoded ct = CD_I16 (Some v)"
| "column_data_ref L (CV_Int v) decoded ct = CD_I32 (Some v)"
| "column_data_ref L (CV_BigInt v) decoded ct = CD_I64 (Some v)"
| "column_data_ref L (CV_Real v) decoded ct = CD_F32 (Some v)"
| "column_data_ref L (CV_Float v) decoded ct = CD_F64 (Some v)"
| "column_data_ref L (CV_Decimal v) decoded ct = CD_Numeric (Some v)"
| "column_data_ref L (CV_Numeric v) decoded ct = CD_Numeric (Some v)"
| "column_data_ref L (CV_Bit v) decoded ct = CD_Bit (Some v)"
| "column_data_ref L (CV_String v) decoded ct = CD_String (Some (decoded_or decoded (sqlstr_to_utf8 L v)))"
| "column_data_ref L (CV_DateTime v) decoded ct = CD_DateTime (Some v)"
| "column_data_ref L (CV_Date v) decoded ct = CD_Date (Some v)"
| "column_data_ref L (CV_Time v) decoded ct = CD_Time (Some v)"
| "column_data_ref L (CV_DateTime2 v) decoded ct = CD_DateTime2 (Some v)"
| "column_data_ref L (CV_DateTimeOffset v) decoded ct = CD_DateTimeOffset (Some v)"
| "column_data_ref L (CV_SmallDateTime v) decoded ct = CD_SmallDateTime (Some v)"
| "column_data_ref L (CV_SmallMoney v) decoded ct = CD_SmallMoney (Some v)"
| "column_data_ref L (CV_Money v) decoded ct = CD_Money (Some v)"
| "column_data_ref L (CV_Bytes v) decoded ct = CD_Binary (Some v)"
| "column_data_ref L (CV_Xml v) decoded ct = CD_Xml (Some (decoded_or decoded (xml_as_string L v)))"
| "column_data_ref L CV_Null decoded ct = null_column_data ct"
| "column_data_ref L (CV_Uuid v) decoded ct = CD_Guid (Some v)"
| "column_data_ref L (CV_Json v) decoded ct = CD_Json (Some (decoded_or decoded (json_as_string L v)))"
| "column_data_ref L (CV_Vector v) decoded ct =
     CD_Native (ST_Vector (Some v) (vec_dimension_count L v) (vec_base_type L v))"

text \<open>\<open>into_owned\<close>: with \<open>Cow\<close> modelled by its content every arm keeps the value.\<close>

fun into_owned :: "column_data \<Rightarrow> column_data" where
  "into_owned (CD_String v) = CD_String (map_option (\<lambda>s. s) v)"
| "into_owned (CD_Binary v) = CD_Binary (map_option (\<lambda>s. s) v)"
| "into_owned (CD_Xml v) = CD_Xml (map_option (\<lambda>s. s) v)"
| "into_owned (CD_Json v) = CD_Json (map_option (\<lambda>s. s) v)"
| "into_owned (CD_Bit v) = CD_Bit v"
| "into_owned (CD_U8 v) = CD_U8 v"
| "into_owned (CD_I16 v) = CD_I16 v"
| "into_owned (CD_I32 v) = CD_I32 v"
| "into_owned (CD_I64 v) = CD_I64 v"
| "into_owned (CD_F32 v) = CD_F32 v"
| "into_owned (CD_F64 v) = CD_F64 v"
| "into_owned (CD_Guid v) = CD_Guid v"
| "into_owned (CD_Numeric v) = CD_Numeric v"
| "into_owned (CD_DateTime v) = CD_DateTime v"
| "into_owned (CD_SmallDateTime v) = CD_SmallDateTime v"
| "into_owned (CD_Time v) = CD_Time v"
| "into_owned (CD_Date v) = CD_Date v"
| "into_owned (CD_DateTime2 v) = CD_DateTime2 v"
| "into_owned (CD_DateTimeOffset v) = CD_DateTimeOffset v"
| "into_owned (CD_Money v) = CD_Money v"
| "into_owned (CD_SmallMoney v) = CD_SmallMoney v"
| "into_owned (CD_Native v) = CD_Native v"

lemma into_owned_id [simp]: "into_owned d = d"
  by (cases d) (simp_all add: option.map_ident)

fun column_data_to_sql :: "tds_lib \<Rightarrow> column_data \<Rightarrow> sql_type" where
  "column_data_to_sql L (CD_Bit v) = ST_Bit v"
| "column_data_to_sql L (CD_U8 v) = ST_TinyInt v"
| "column_data_to_sql L (CD_I16 v) = ST_SmallInt v"
| "column_data_to_sql L (CD_I32 v) = ST_Int v"
| "column_data_to_sql L (CD_I64 v) = ST_BigInt v"
| "column_data_to_sql L (CD_F32 v) = ST_Real v"
| "column_data_to_sql L (CD_F64 v) = ST_Float v"
| "column_data_to_sql L (CD_String v) =
     (case v of
        Some s \<Rightarrow>
          if 4000 < utf16_len s then ST_NVarcharMax (Some (sqlstr_from_utf8 L s))
          else ST_NVarchar (Some (sqlstr_from_utf8 L s)) 4000
      | None \<Rightarrow> ST_NVarchar None 4000)"
| "column_data_to_sql L (CD_Guid v) = ST_Uuid v"
| "column_data_to_sql L (CD_Binary v) = ST_VarBinaryMax v"
| "column_data_to_sql L (CD_Numeric v) = ST_Numeric v"
| "column_data_to_sql L (CD_Xml v) = ST_Xml (map_option (xml_from L) v)"
| "column_data_to_sql L (CD_DateTime v) = ST_DateTime v"
| "column_data_to_sql L (CD_SmallDateTime v) = ST_SmallDateTime v"
| "column_data_to_sql L (CD_Time v) = ST_Time v"
| "column_data_to_sql L (CD_Date v) = ST_Date v"
| "column_data_to_sql L (CD_DateTime2 v) = ST_DateTime2 v"
| "column_data_to_sql L (CD_DateTimeOffset v) = ST_DateTimeOffset v"
| "column_data_to_sql L (CD_Money v) = ST_Money v"
| "column_data_to_sql L (CD_SmallMoney v) = ST_SmallMoney v"
| "column_data_to_sql L (CD_Json v) = ST_Json (map_option (json_from L) v)"
| "column_data_to_sql L (CD_Native v) = v"

text \<open>The blanket compat \<open>ToSql\<close> and the by-value \<open>IntoSql\<close> of the native types.\<close>

definition compat_to_sql :: "tds_lib \<Rightarrow> ('a \<Rightarrow> sql_type) \<Rightarrow> 'a \<Rightarrow> column_data" where
  "compat_to_sql L native_to_sql x = from_native L (native_to_sql x)"

text \<open>The borrowed writers of \<open>Cow\<close> text and bytes and of \<open>DecimalParts\<close>, plain or optional.\<close>

definition cow_str_to_sql :: "string option \<Rightarrow> column_data" where
  "cow_str_to_sql s = CD_String s"

definition cow_bytes_to_sql :: "bytes option \<Rightarrow> column_data" where
  "cow_bytes_to_sql b = CD_Binary b"

definition decimal_parts_to_sql :: "decimal_parts option \<Rightarrow> column_data" where
  "decimal_parts_to_sql d = CD_Numeric d"

definition into_sql_native :: "tds_lib \<Rightarrow> ('a \<Rightarrow> sql_type) \<Rightarrow> 'a \<Rightarrow> column_data" where
  "into_sql_native L native_to_sql x = from_native L (native_to_sql x)"

definition into_sql_native_option ::
    "tds_lib \<Rightarrow> ('a \<Rightarrow> sql_type) \<Rightarrow> column_data \<Rightarrow> 'a option \<Rightarrow> column_data" where
  "into_sql_native_option L native_to_sql null x =
     (case x of Some v \<Rightarrow> from_native L (native_to_sql v) | None \<Rightarrow> null)"

text \<open>The direct implementations: strings, bytes, \<open>Uuid\<close> and \<open>DecimalParts\<close>, owned,
  borrowed or optional.\<close>

definition into_sql_text :: "string option \<Rightarrow> column_data" where
  "into_sql_text s = CD_String s"

definition into_sql_binary :: "bytes option \<Rightarrow> column_data" where
  "into_sql_binary b = CD_Binary b"

definition into_sql_uuid_ref :: "u128 option \<Rightarrow> column_data" where
  "into_sql_uuid_ref u = CD_Guid u"

definition into_sql_decimal_parts :: "decimal_parts option \<Rightarrow> column_data" where
  "into_sql_decimal_parts d = CD_Numeric d"

section \<open>Typed readers\<close>

definition decode_owned ::
    "tds_lib \<Rightarrow> debug_fmt \<Rightarrow> string \<Rightarrow> (column_values \<Rightarrow> 'a option) \<Rightarrow> column_data \<Rightarrow> error + 'a option" where
  "decode_owned L F type_name from_sql d =
     and_then (into_column_value L F d) (\<lambda>value.
       case (value, from_sql value) of
         (CV_Null, _) \<Rightarrow> Inr None
       | (_, Some x) \<Rightarrow> Inr (Some x)
       | _ \<Rightarrow> Inl (Conversion (''cannot interpret '' @ dbg_column_values F value @ '' as '' @ type_name)))"

definition cannot_interpret :: "debug_fmt \<Rightarrow> column_data \<Rightarrow> string \<Rightarrow> error" where
  "cannot_interpret F d type_name =
     Conversion (''cannot interpret '' @ dbg_column_data F d @ '' as '' @ type_name)"

text \<open>\<open>from_column_data_exact!\<close>: the variants the target accepts are an argument.\<close>

definition from_column_data_exact ::
    "(column_data \<Rightarrow> bool) \<Rightarrow> tds_lib \<Rightarrow> debug_fmt \<Rightarrow> string \<Rightarrow> (column_values \<Rightarrow> 'a option)
      \<Rightarrow> column_data \<Rightarrow> error + 'a option" where
  "from_column_data_exact accepts L F type_name from_sql d =
     (if accepts d then decode_owned L F type_name from_sql d
      else Inl (cannot_interpret F d type_name))"

fun accepts_bool :: "column_data \<Rightarrow> bool" where
  "accepts_bool (CD_Bit _) = True" | "accepts_bool _ = False"

fun accepts_u8 :: "column_data \<Rightarrow> bool" where
  "accepts_u8 (CD_U8 _) = True" | "accepts_u8 (CD_I32 None) = True" | "accepts_u8 _ = False"

fun accepts_i16 :: "column_data \<Rightarrow> bool" where
  "accepts_i16 (CD_I16 _) = True" | "accepts_i16 (CD_U8 None) = True"
| "accepts_i16 (CD_I32 None) = True" | "accepts_i16 _ = False"

fun accepts_i32 :: "column_data \<Rightarrow> bool" where
  "accepts_i32 (CD_I32 _) = True" | "accepts_i32 (CD_U8 None) = True" | "accepts_i32 _ = False"

fun accepts_i64 :: "column_data \<Rightarrow> bool" where
  "accepts_i64 (CD_I64 _) = True" | "accepts_i64 (CD_U8 None) = True"
| "accepts_i64 (CD_I32 None) = True" | "accepts_i64 _ = False"

fun accepts_f32 :: "column_data \<Rightarrow> bool" where
  "accepts_f32 (CD_F32 _) = True" | "accepts_f32 _ = False"

fun accepts_f64 :: "column_data \<Rightarrow> bool" where
  "accepts_f64 (CD_F64 _) = True" | "accepts_f64 _ = False"

fun accepts_string :: "column_data \<Rightarrow> bool" where
  "accepts_string (CD_String _) = True" | "accepts_string _ = False"

fun accepts_uuid :: "column_data \<Rightarrow> bool" where
  "accepts_uuid (CD_Guid _) = True" | "accepts_uuid _ = False"

fun accepts_bytes :: "column_data \<Rightarrow> bool" where
  "accepts_bytes (CD_Binary _) = True" | "accepts_bytes _ = False"

fun accepts_json :: "column_data \<Rightarrow> bool" where
  "accepts_json (CD_Json _) = True" | "accepts_json (CD_String _) = True" | "accepts_json _ = False"

fun accepts_date :: "column_data \<Rightarrow> bool" where
  "accepts_date (CD_Date _) = True" | "accepts_date _ = False"

fun accepts_time :: "column_data \<Rightarrow> bool" where
  "accepts_time (CD_Time _) = True" | "accepts_time _ = False"

fun accepts_datetime :: "column_data \<Rightarrow> bool" where
  "accepts_datetime (CD_DateTime _) = True" | "accepts_datetime (CD_SmallDateTime _) = True"
| "accepts_datetime (CD_DateTime2 _) = True" | "accepts_datetime _ = False"

fun accepts_datetimeoffset :: "column_data \<Rightarrow> bool" where
  "accepts_datetimeoffset (CD_DateTimeOffset _) = True" | "accepts_datetimeoffset _ = False"

fun accepts_decimal :: "column_data \<Rightarrow> bool" where
  "accepts_decimal (CD_Numeric _) = True" | "accepts_decimal _ = False"

fun from_column_data_decimal_parts :: "debug_fmt \<Rightarrow> string \<Rightarrow> column_data \<Rightarrow> error + decimal_parts option" where
  "from_column_data_decimal_parts F name (CD_Numeric v) = Inr v"
| "from_column_data_decimal_parts F name d = Inl (cannot_interpret F d name)"

text \<open>\<open>DateTime<Utc>\<close>: \<open>with_timezone\<close> keeps the UTC instant. The three names are those of
  \<open>DateTime<FixedOffset>\<close> and \<open>NaiveDateTime\<close>, which are decoded, and of the type itself.\<close>

fun from_column_data_utc ::
    "chrono_lib \<Rightarrow> tds_lib \<Rightarrow> debug_fmt \<Rightarrow> string \<Rightarrow> string \<Rightarrow> string \<Rightarrow> column_data
       \<Rightarrow> error + naive_datetime option" where
  "from_column_data_utc C L F fixed_name naive_name name (CD_DateTimeOffset v) =
     map_ok (map_option naive_utc)
       (decode_owned L F fixed_name (from_sql_datetime_fixed C) (CD_DateTimeOffset v))"
| "from_column_data_utc C L F fixed_name naive_name name (CD_DateTime2 v) =
     map_ok (map_option (\<lambda>x. x))
       (decode_owned L F naive_name (from_sql_naive_datetime C) (CD_DateTime2 v))"
| "from_column_data_utc C L F fixed_name naive_name name d = Inl (cannot_interpret F d name)"

fun from_column_data_str :: "debug_fmt \<Rightarrow> column_data \<Rightarrow> error + string option" where
  "from_column_data_str F (CD_String (Some v)) = Inr (Some v)"
| "from_column_data_str F (CD_String None) = Inr None"
| "from_column_data_str F d = Inl (cannot_interpret F d ''&str'')"

fun from_column_data_slice :: "debug_fmt \<Rightarrow> column_data \<Rightarrow> error + bytes option" where
  "from_column_data_slice F (CD_Binary (Some v)) = Inr (Some v)"
| "from_column_data_slice F (CD_Binary None) = Inr None"
| "from_column_data_slice F d = Inl (cannot_interpret F d ''&[u8]'')"

text \<open>The compat \<open>FromSql\<close> of every type with a \<open>FromColumnData\<close>, and \<open>FromSqlOwned\<close> over it.\<close>

definition compat_from_sql :: "(column_data \<Rightarrow> error + 'a option) \<Rightarrow> column_data \<Rightarrow> error + 'a option" where
  "compat_from_sql from_column_data d = from_column_data d"

definition from_sql_owned :: "(column_data \<Rightarrow> error + 'a option) \<Rightarrow> column_data \<Rightarrow> error + 'a option" where
  "from_sql_owned from_column_data d = compat_from_sql from_column_data d"

text \<open>The helpers the crate's tests compile: \<open>ColumnData::is_null\<close>, and the conversion of an owned
  cell, which moves what \<open>column_data_ref\<close> borrows and then owns.\<close>

fun column_data_is_null :: "column_data \<Rightarrow> bool" where
  "column_data_is_null (CD_Bit None) = True"
| "column_data_is_null (CD_U8 None) = True"
| "column_data_is_null (CD_I16 None) = True"
| "column_data_is_null (CD_I32 None) = True"
| "column_data_is_null (CD_I64 None) = True"
| "column_data_is_null (CD_F32 None) = True"
| "column_data_is_null (CD_F64 None) = True"
| "column_data_is_null (CD_String None) = True"
| "column_data_is_null (CD_Guid None) = True"
| "column_data_is_null (CD_Binary None) = True"
| "column_data_is_null (CD_Numeric None) = True"
| "column_data_is_null (CD_Xml None) = True"
| "column_data_is_null (CD_DateTime None) = True"
| "column_data_is_null (CD_SmallDateTime None) = True"
| "column_data_is_null (CD_Time None) = True"
| "column_data_is_null (CD_Date None) = True"
| "column_data_is_null (CD_DateTime2 None) = True"
| "column_data_is_null (CD_DateTimeOffset None) = True"
| "column_data_is_null (CD_Money None) = True"
| "column_data_is_null (CD_SmallMoney None) = True"
| "column_data_is_null (CD_Json None) = True"
| "column_data_is_null _ = False"

definition column_data_owned :: "tds_lib \<Rightarrow> column_values \<Rightarrow> string option \<Rightarrow> column_type \<Rightarrow> column_data" where
  "column_data_owned L value decoded ct =
     (case value of
        CV_String v \<Rightarrow> CD_String (Some (decoded_or decoded (sqlstr_to_utf8 L v)))
      | CV_Bytes v \<Rightarrow> CD_Binary (Some v)
      | CV_Xml v \<Rightarrow> CD_Xml (Some (decoded_or decoded (xml_as_string L v)))
      | CV_Json v \<Rightarrow> CD_Json (Some (decoded_or decoded (json_as_string L v)))
      | v \<Rightarrow> into_owned (column_data_ref L v None ct))"

lemma column_data_owned_ref:
  "column_data_owned L value decoded ct = into_owned (column_data_ref L value decoded ct)"
  by (cases "value") (simp_all add: column_data_owned_def)

text \<open>A cell is a compat NULL exactly when the row value is NULL, and a compat NULL decodes to
  the NULL row value.\<close>

lemma null_column_data_is_null: "column_data_is_null (null_column_data ct)"
  by (cases ct) simp_all

lemma column_data_ref_is_null:
  "column_data_is_null (column_data_ref L value decoded ct) \<longleftrightarrow> value = CV_Null"
  by (cases "value") (simp_all add: null_column_data_is_null)

lemma into_column_value_null:
  "into_column_value L F d = Inr CV_Null \<longleftrightarrow> column_data_is_null d"
  by (cases "(L, F, d)" rule: into_column_value.cases) simp_all

section \<open>Parameters survive the compat representation\<close>

text \<open>The three text codecs of the driver, as one assumption of the library.\<close>

definition text_codec_laws :: "tds_lib \<Rightarrow> bool" where
  "text_codec_laws L \<longleftrightarrow> string_codec_law L \<and> xml_codec_law L \<and> json_codec_law L"

lemma text_codec [simp]:
  assumes "text_codec_laws L"
  shows "sqlstr_to_utf8 L (sqlstr_from_utf8 L s) = s" and "xml_as_string L (xml_from L s) = s"
    and "json_as_string L (json_from L s) = s"
  using assms
  by (simp_all add: text_codec_laws_def string_codec_law_def xml_codec_law_def json_codec_law_def)

lemma sample_lib_text [simp]: "text_codec_laws sample_lib"
  by (simp add: text_codec_laws_def)

lemma text_codec_map [simp]:
  assumes "text_codec_laws L"
  shows "map_option (sqlstr_to_utf8 L) (map_option (sqlstr_from_utf8 L) v) = v"
    and "map_option (xml_as_string L) (map_option (xml_from L) v) = v"
    and "map_option (json_as_string L) (map_option (json_from L) v) = v"
  using assms by (simp_all add: option.map_comp comp_def option.map_ident)

text \<open>C23: binding a compat value as a parameter and reading the parameter back as a compat
  value gives the value that was bound, for every variant but \<open>Native\<close>: typed NULLs keep
  their type, and text keeps its content on both sides of the 4000 UTF-16 unit limit at
  which the parameter becomes \<open>NVARCHAR(MAX)\<close>.\<close>

theorem compat_parameter_roundtrip:
  assumes "text_codec_laws L" and "\<And>t. d \<noteq> CD_Native t"
  shows "from_native L (column_data_to_sql L d) = d"
  using assms by (cases d) (auto split: option.splits)

theorem compat_parameter_roundtrip_witness:
  "from_native sample_lib (column_data_to_sql sample_lib (CD_String (Some ''abc''))) = CD_String (Some ''abc'')"
  by (rule compat_parameter_roundtrip) simp_all

section \<open>Typed readers and writers as one contract\<close>

text \<open>
  A type with a native writer \<open>to_sql\<close>, a native reader \<open>from_sql\<close> and the set of compat
  variants its \<open>from_column_data_exact!\<close> line lists. The law: what the writer produces is
  listed and decodes to a cell the reader maps back to the value; the typed NULL of the
  writer is listed too.
\<close>

locale compat_codec =
  fixes L :: tds_lib and F :: debug_fmt
    and accepts :: "column_data \<Rightarrow> bool"
    and to_sql :: "'a \<Rightarrow> sql_type"
    and from_sql :: "column_values \<Rightarrow> 'a option"
  assumes accepted: "accepts (from_native L (to_sql x))"
    and decoded: "\<exists>v. into_column_value L F (from_native L (to_sql x)) = Inr v \<and> v \<noteq> CV_Null
                      \<and> from_sql v = Some x"
    and null_accepted: "accepts (from_native L (into_typed_null (to_sql x)))"
    and null_decoded: "into_column_value L F (from_native L (into_typed_null (to_sql x))) = Inr CV_Null"
begin

lemma read_back:
  "from_sql_owned (from_column_data_exact accepts L F name from_sql) (into_sql_native L to_sql x)
     = Inr (Some x)"
proof -
  obtain v where "into_column_value L F (from_native L (to_sql x)) = Inr v" "v \<noteq> CV_Null"
    "from_sql v = Some x" using decoded by blast
  then show ?thesis
    by (cases v)
      (simp_all add: from_sql_owned_def compat_from_sql_def from_column_data_exact_def into_sql_native_def accepted decode_owned_def)
qed

text \<open>An optional parameter reads back as itself, whatever default its typed NULL came from.\<close>

lemma read_back_option:
  "from_sql_owned (from_column_data_exact accepts L F name from_sql)
      (compat_to_sql L (to_sql_option to_sql dflt) x) = Inr x"
proof (cases x)
  case None
  then show ?thesis
    by (simp add: from_sql_owned_def compat_from_sql_def from_column_data_exact_def compat_to_sql_def to_sql_option_def
        null_accepted null_decoded decode_owned_def)
next
  case (Some y)
  then show ?thesis
    using read_back [of name y]
    by (simp add: compat_to_sql_def into_sql_native_def to_sql_option_def)
qed

end

interpretation bool_codec: compat_codec L F accepts_bool to_sql_bool from_sql_bool for L F
  by unfold_locales (simp_all add: conv_defs)

interpretation u8_codec: compat_codec L F accepts_u8 to_sql_u8 from_sql_u8 for L F
  by unfold_locales (simp_all add: conv_defs)

interpretation i16_codec: compat_codec L F accepts_i16 to_sql_i16 from_sql_i16 for L F
  by unfold_locales (simp_all add: conv_defs)

interpretation i32_codec: compat_codec L F accepts_i32 to_sql_i32 from_sql_i32 for L F
  by unfold_locales (simp_all add: conv_defs)

interpretation i64_codec: compat_codec L F accepts_i64 to_sql_i64 from_sql_i64 for L F
  by unfold_locales (simp_all add: conv_defs)

interpretation f32_codec: compat_codec L F accepts_f32 to_sql_f32 from_sql_f32 for L F
  by unfold_locales (simp_all add: conv_defs)

interpretation f64_codec: compat_codec L F accepts_f64 to_sql_f64 from_sql_f64 for L F
  by unfold_locales (simp_all add: conv_defs)

interpretation uuid_codec: compat_codec L F accepts_uuid to_sql_uuid from_sql_uuid for L F
  by unfold_locales (simp_all add: conv_defs)

interpretation bytes_codec: compat_codec L F accepts_bytes to_sql_bytes from_sql_bytes for L F
  by unfold_locales (simp_all add: conv_defs)

text \<open>\<open>String\<close> and \<open>&str\<close> need the codec law of the driver's strings.\<close>

lemma string_codec:
  assumes "text_codec_laws L"
  shows "compat_codec L F accepts_string (to_sql_string L) (from_sql_string L)"
  using assms by unfold_locales (simp_all add: conv_defs)

lemma str_codec:
  assumes "text_codec_laws L"
  shows "compat_codec L F accepts_string (to_sql_str L) (from_sql_string L)"
  using assms by unfold_locales (simp_all add: conv_defs)

lemma cow_reads_back:
  assumes "text_codec_laws L"
  shows "from_sql_owned (from_column_data_exact accepts_string L F n (from_sql_string L)) (cow_str_to_sql s) = Inr s"
    and "from_sql_owned (from_column_data_exact accepts_bytes L F n from_sql_bytes) (cow_bytes_to_sql b) = Inr b"
    and "from_sql_owned (from_column_data_decimal_parts F n) (decimal_parts_to_sql d) = Inr d"
  using assms
  by (cases s; cases b; simp add: from_sql_owned_def compat_from_sql_def from_column_data_exact_def decode_owned_def
      cow_str_to_sql_def cow_bytes_to_sql_def decimal_parts_to_sql_def)+

text \<open>C24: every optional parameter of type \<open>bool\<close>, \<open>u8\<close>, \<open>i16\<close>, \<open>i32\<close>, \<open>i64\<close>, \<open>f32\<close>, \<open>f64\<close>,
  \<open>Uuid\<close>, \<open>Vec<u8>\<close>, \<open>String\<close>, \<open>&str\<close>, \<open>Cow<str>\<close>, \<open>Cow<[u8]>\<close> and \<open>DecimalParts\<close> reads back
  through the compat layer as the option that was written: a value as itself, \<open>None\<close> as SQL
  NULL rather than as an error, independently of the value that gave the NULL its type.\<close>

theorem compat_values_read_back:
  assumes "text_codec_laws L"
  shows
    "(from_sql_owned (from_column_data_exact accepts_bool L F n from_sql_bool)
       (compat_to_sql L (to_sql_option to_sql_bool dbool) b) = Inr b) \<and>
     (from_sql_owned (from_column_data_exact accepts_u8 L F n from_sql_u8)
       (compat_to_sql L (to_sql_option to_sql_u8 d8) x8) = Inr x8) \<and>
     (from_sql_owned (from_column_data_exact accepts_i16 L F n from_sql_i16)
       (compat_to_sql L (to_sql_option to_sql_i16 d16) x16) = Inr x16) \<and>
     (from_sql_owned (from_column_data_exact accepts_i32 L F n from_sql_i32)
       (compat_to_sql L (to_sql_option to_sql_i32 d32) x32) = Inr x32) \<and>
     (from_sql_owned (from_column_data_exact accepts_i64 L F n from_sql_i64)
       (compat_to_sql L (to_sql_option to_sql_i64 d64) x64) = Inr x64) \<and>
     (from_sql_owned (from_column_data_exact accepts_f32 L F n from_sql_f32)
       (compat_to_sql L (to_sql_option to_sql_f32 df32) r32) = Inr r32) \<and>
     (from_sql_owned (from_column_data_exact accepts_f64 L F n from_sql_f64)
       (compat_to_sql L (to_sql_option to_sql_f64 df64) r64) = Inr r64) \<and>
     (from_sql_owned (from_column_data_exact accepts_uuid L F n from_sql_uuid)
       (compat_to_sql L (to_sql_option to_sql_uuid du) u) = Inr u) \<and>
     (from_sql_owned (from_column_data_exact accepts_bytes L F n from_sql_bytes)
       (compat_to_sql L (to_sql_option to_sql_bytes dbs) bs) = Inr bs) \<and>
     (from_sql_owned (from_column_data_exact accepts_string L F n (from_sql_string L))
       (compat_to_sql L (to_sql_option (to_sql_string L) ds) s) = Inr s) \<and>
     (from_sql_owned (from_column_data_exact accepts_string L F n (from_sql_string L))
       (compat_to_sql L (to_sql_option (to_sql_str L) dr) s) = Inr s) \<and>
     (from_sql_owned (from_column_data_exact accepts_string L F n (from_sql_string L)) (cow_str_to_sql s) = Inr s) \<and>
     (from_sql_owned (from_column_data_exact accepts_bytes L F n from_sql_bytes) (cow_bytes_to_sql bs) = Inr bs) \<and>
     (from_sql_owned (from_column_data_decimal_parts F n) (decimal_parts_to_sql dp) = Inr dp)"
  using compat_codec.read_back_option [OF string_codec [OF assms]]
    compat_codec.read_back_option [OF str_codec [OF assms]] cow_reads_back [OF assms]
  by (simp_all add: bool_codec.read_back_option u8_codec.read_back_option i16_codec.read_back_option
      i32_codec.read_back_option i64_codec.read_back_option f32_codec.read_back_option
      f64_codec.read_back_option uuid_codec.read_back_option bytes_codec.read_back_option)

theorem compat_values_read_back_witness:
  "from_sql_owned (from_column_data_exact accepts_string sample_lib sample_debug ''String'' (from_sql_string sample_lib))
       (compat_to_sql sample_lib (to_sql_option (to_sql_string sample_lib) []) (Some ''x'')) = Inr (Some ''x'')"
  by (rule compat_values_read_back [OF sample_lib_text, THEN conjunct2, THEN conjunct2, THEN conjunct2, THEN conjunct2, THEN conjunct2, THEN conjunct2, THEN conjunct2, THEN conjunct2, THEN conjunct2, 
      THEN conjunct1])

section \<open>Reading a cell through the compat value\<close>

text \<open>What a cell becomes on its way through \<open>ColumnData\<close> and back: \<open>DECIMAL\<close> turns
  into \<open>NUMERIC\<close> and text is re-encoded; NULL and vectors are left to the callers.\<close>

fun cell_text :: "tds_lib \<Rightarrow> column_values \<Rightarrow> string option" where
  "cell_text L (CV_String s) = Some (sqlstr_to_utf8 L s)"
| "cell_text L (CV_Xml x) = Some (xml_as_string L x)"
| "cell_text L (CV_Json j) = Some (json_as_string L j)"
| "cell_text L _ = None"

lemma null_column_data_null: "into_column_value L F (null_column_data ct) = Inr CV_Null"
  by (cases ct) simp_all

lemma exact_reads_value:
  "from_column_data_exact accepts L F name from_sql d = Inr (Some x) \<longleftrightarrow>
     accepts d \<and> (\<exists>u. into_column_value L F d = Inr u \<and> u \<noteq> CV_Null \<and> from_sql u = Some x)"
  by (cases "into_column_value L F d")
    (auto simp: from_column_data_exact_def decode_owned_def split: column_values.splits option.splits)

lemma exact_reads_null:
  assumes "from_column_data_exact accepts L F name from_sql (column_data_ref L v decoded ct) = Inr None"
    and "\<And>t. \<not> accepts (CD_Native t)"
  shows "v = CV_Null"
  using assms by (cases v) (auto simp: from_column_data_exact_def decode_owned_def split: if_splits option.splits)

lemma exact_reads_variant:
  "from_column_data_exact accepts_bool L F n from_sql_bool (column_data_ref L v decoded ct) = Inr (Some a) \<longleftrightarrow> v = CV_Bit a"
  "from_column_data_exact accepts_u8 L F n from_sql_u8 (column_data_ref L v decoded ct) = Inr (Some b) \<longleftrightarrow> v = CV_TinyInt b"
  "from_column_data_exact accepts_i16 L F n from_sql_i16 (column_data_ref L v decoded ct) = Inr (Some c) \<longleftrightarrow> v = CV_SmallInt c"
  "from_column_data_exact accepts_i32 L F n from_sql_i32 (column_data_ref L v decoded ct) = Inr (Some d) \<longleftrightarrow> v = CV_Int d"
  "from_column_data_exact accepts_i64 L F n from_sql_i64 (column_data_ref L v decoded ct) = Inr (Some e) \<longleftrightarrow> v = CV_BigInt e"
  "from_column_data_exact accepts_f32 L F n from_sql_f32 (column_data_ref L v decoded ct) = Inr (Some f) \<longleftrightarrow> v = CV_Real f"
  "from_column_data_exact accepts_f64 L F n from_sql_f64 (column_data_ref L v decoded ct) = Inr (Some g) \<longleftrightarrow> v = CV_Float g"
  "from_column_data_exact accepts_uuid L F n from_sql_uuid (column_data_ref L v decoded ct) = Inr (Some h) \<longleftrightarrow> v = CV_Uuid h"
  "from_column_data_exact accepts_bytes L F n from_sql_bytes (column_data_ref L v decoded ct) = Inr (Some i) \<longleftrightarrow> v = CV_Bytes i"
  by (cases v; simp add: exact_reads_value null_column_data_null)+

lemma exact_reads_text_decimal:
  assumes "text_codec_laws L" and "decoded = None \<or> decoded = cell_text L v"
  shows "from_column_data_exact accepts_string L F n (from_sql_string L) (column_data_ref L v decoded ct) = Inr (Some s)
      \<longleftrightarrow> (\<exists>x. v = CV_String x) \<and> from_sql_string L v = Some s"
    and "from_column_data_exact accepts_decimal L F n (from_sql_decimal L D) (column_data_ref L v decoded ct) = Inr (Some k)
      \<longleftrightarrow> (\<exists>x. v = CV_Decimal x \<or> v = CV_Numeric x) \<and> from_sql_decimal L D v = Some k"
proof -
  have "sqlstr_to_utf8 L (sqlstr_from_utf8 L t) = t" for t using assms(1) by simp
  then show "from_column_data_exact accepts_string L F n (from_sql_string L) (column_data_ref L v decoded ct) = Inr (Some s)
      \<longleftrightarrow> (\<exists>x. v = CV_String x) \<and> from_sql_string L v = Some s"
    using assms(2) unfolding exact_reads_value
    by (cases v) (auto simp: null_column_data_null decoded_or_def)
  show "from_column_data_exact accepts_decimal L F n (from_sql_decimal L D) (column_data_ref L v decoded ct) = Inr (Some k)
      \<longleftrightarrow> (\<exists>x. v = CV_Decimal x \<or> v = CV_Numeric x) \<and> from_sql_decimal L D v = Some k"
    unfolding exact_reads_value by (cases v) (simp_all add: null_column_data_null)
qed

text \<open>C25: the strict compat readers refine the native ones and never widen: the readers of
  \<open>bool\<close>, \<open>u8\<close>, \<open>i16\<close>, \<open>i32\<close>, \<open>i64\<close>, \<open>f32\<close>, \<open>f64\<close>, \<open>Uuid\<close> and \<open>Vec<u8>\<close> return a value exactly for
  the cells of the one variant of their type, and it is the value the native reader returns;
  \<open>String\<close> is read exactly from string cells (not from XML or JSON) and \<open>Decimal\<close> exactly from
  decimal and numeric cells (not from money), as the native reader reads them. None of these
  readers takes a cell with a value for a NULL.\<close>

theorem compat_reads_refine_native:
  assumes "text_codec_laws L" and "decoded = None \<or> decoded = cell_text L v"
  shows
    "(from_column_data_exact accepts_bool L F n from_sql_bool (column_data_ref L v decoded ct) = Inr (Some a)
       \<longleftrightarrow> v = CV_Bit a) \<and>
     (from_column_data_exact accepts_u8 L F n from_sql_u8 (column_data_ref L v decoded ct) = Inr (Some b)
       \<longleftrightarrow> v = CV_TinyInt b) \<and>
     (from_column_data_exact accepts_i16 L F n from_sql_i16 (column_data_ref L v decoded ct) = Inr (Some c)
       \<longleftrightarrow> v = CV_SmallInt c) \<and>
     (from_column_data_exact accepts_i32 L F n from_sql_i32 (column_data_ref L v decoded ct) = Inr (Some d)
       \<longleftrightarrow> v = CV_Int d) \<and>
     (from_column_data_exact accepts_i64 L F n from_sql_i64 (column_data_ref L v decoded ct) = Inr (Some e)
       \<longleftrightarrow> v = CV_BigInt e) \<and>
     (from_column_data_exact accepts_f32 L F n from_sql_f32 (column_data_ref L v decoded ct) = Inr (Some f)
       \<longleftrightarrow> v = CV_Real f) \<and>
     (from_column_data_exact accepts_f64 L F n from_sql_f64 (column_data_ref L v decoded ct) = Inr (Some g)
       \<longleftrightarrow> v = CV_Float g) \<and>
     (from_column_data_exact accepts_uuid L F n from_sql_uuid (column_data_ref L v decoded ct) = Inr (Some h)
       \<longleftrightarrow> v = CV_Uuid h) \<and>
     (from_column_data_exact accepts_bytes L F n from_sql_bytes (column_data_ref L v decoded ct) = Inr (Some i)
       \<longleftrightarrow> v = CV_Bytes i) \<and>
     (from_column_data_exact accepts_string L F n (from_sql_string L) (column_data_ref L v decoded ct) = Inr (Some s)
       \<longleftrightarrow> (\<exists>x. v = CV_String x) \<and> from_sql_string L v = Some s) \<and>
     (from_column_data_exact accepts_decimal L F n (from_sql_decimal L D) (column_data_ref L v decoded ct) = Inr (Some k)
       \<longleftrightarrow> (\<exists>x. v = CV_Decimal x \<or> v = CV_Numeric x) \<and> from_sql_decimal L D v = Some k) \<and>
     (v = CV_Bit a \<longrightarrow> from_sql_bool v = Some a) \<and>
     (v = CV_TinyInt b \<longrightarrow> from_sql_u8 v = Some b) \<and>
     (v = CV_SmallInt c \<longrightarrow> from_sql_i16 v = Some c) \<and>
     (v = CV_Int d \<longrightarrow> from_sql_i32 v = Some d) \<and>
     (v = CV_BigInt e \<longrightarrow> from_sql_i64 v = Some e) \<and>
     (v = CV_Real f \<longrightarrow> from_sql_f32 v = Some f) \<and>
     (v = CV_Float g \<longrightarrow> from_sql_f64 v = Some g) \<and>
     (v = CV_Uuid h \<longrightarrow> from_sql_uuid v = Some h) \<and>
     (v = CV_Bytes i \<longrightarrow> from_sql_bytes v = Some i) \<and>
     (from_column_data_exact accepts_bool L F n from_sql_bool (column_data_ref L v decoded ct) = Inr None \<longrightarrow> v = CV_Null) \<and>
     (from_column_data_exact accepts_u8 L F n from_sql_u8 (column_data_ref L v decoded ct) = Inr None \<longrightarrow> v = CV_Null) \<and>
     (from_column_data_exact accepts_i16 L F n from_sql_i16 (column_data_ref L v decoded ct) = Inr None \<longrightarrow> v = CV_Null) \<and>
     (from_column_data_exact accepts_i32 L F n from_sql_i32 (column_data_ref L v decoded ct) = Inr None \<longrightarrow> v = CV_Null) \<and>
     (from_column_data_exact accepts_i64 L F n from_sql_i64 (column_data_ref L v decoded ct) = Inr None \<longrightarrow> v = CV_Null) \<and>
     (from_column_data_exact accepts_f32 L F n from_sql_f32 (column_data_ref L v decoded ct) = Inr None \<longrightarrow> v = CV_Null) \<and>
     (from_column_data_exact accepts_f64 L F n from_sql_f64 (column_data_ref L v decoded ct) = Inr None \<longrightarrow> v = CV_Null) \<and>
     (from_column_data_exact accepts_uuid L F n from_sql_uuid (column_data_ref L v decoded ct) = Inr None \<longrightarrow> v = CV_Null) \<and>
     (from_column_data_exact accepts_bytes L F n from_sql_bytes (column_data_ref L v decoded ct) = Inr None \<longrightarrow> v = CV_Null) \<and>
     (from_column_data_exact accepts_string L F n (from_sql_string L) (column_data_ref L v decoded ct) = Inr None \<longrightarrow> v = CV_Null) \<and>
     (from_column_data_exact accepts_decimal L F n (from_sql_decimal L D) (column_data_ref L v decoded ct) = Inr None \<longrightarrow> v = CV_Null)"
  unfolding exact_reads_variant exact_reads_text_decimal [OF assms]
  by (intro conjI impI) (simp_all, (erule exact_reads_null, simp)+)

theorem compat_reads_refine_native_witness:
  "from_column_data_exact accepts_i32 sample_lib sample_debug ''i32'' from_sql_i32
      (column_data_ref sample_lib (CV_Int 7) None CT_Int4) = Inr (Some 7) \<and>
   from_column_data_exact accepts_i32 sample_lib sample_debug ''i32'' from_sql_i32
      (column_data_ref sample_lib (CV_SmallInt 7) None CT_Int2) \<noteq> Inr (Some 7)"
proof -
  have cell: "from_column_data_exact accepts_i32 sample_lib sample_debug ''i32'' from_sql_i32
      (column_data_ref sample_lib v None ct) = Inr (Some 7) \<longleftrightarrow> v = CV_Int 7" for v ct
    by (rule compat_reads_refine_native [OF sample_lib_text, THEN conjunct2, THEN conjunct2, THEN conjunct2, THEN conjunct1])
      simp
  show ?thesis unfolding cell by simp
qed

end
