(* ===== verification/RowModel.thy ===== *)
theory RowModel
  imports CompatConv
begin

text \<open>
  \<open>row.rs\<close>: the schema shared by the rows of a result set, rows with their decoded
  strings and their lazily built compat cells, access by index and by name, equality, and
  the \<open>RowWriter\<close> that builds rows while the wire is decoded. An \<open>Arc\<close> is its
  address with the shared value; \<open>OnceLock\<close> is an option that is filled once.
\<close>

section \<open>Schemas and rows\<close>

record row_schema =
  columns :: "column list"
  name_map :: "string \<rightharpoonup> nat"

record arc_schema =
  arc_ptr :: nat
  pointee :: row_schema

text \<open>\<open>name_map.entry(name).or_insert(index)\<close> over \<open>columns.iter().enumerate()\<close>.\<close>

fun insert_names :: "nat \<Rightarrow> column list \<Rightarrow> (string \<rightharpoonup> nat) \<Rightarrow> (string \<rightharpoonup> nat)" where
  "insert_names index [] m = m"
| "insert_names index (c # cs) m =
     insert_names (index + 1) cs
       (case m (col_name c) of None \<Rightarrow> m(col_name c \<mapsto> index) | Some _ \<Rightarrow> m)"

definition row_schema_from_metadata :: "column_metadata list \<Rightarrow> row_schema" where
  "row_schema_from_metadata metadata =
     (let cs = map column_from_tds metadata
      in \<lparr>columns = cs, name_map = insert_names 0 cs Map.empty\<rparr>)"

record row =
  schema :: arc_schema
  row_values :: "column_values list"
  result_index :: nat
  decoded_strings :: "string option list"
  compat_cache :: "column_data list option"

definition row_from_parts ::
    "arc_schema \<Rightarrow> column_values list \<Rightarrow> nat \<Rightarrow> string option list \<Rightarrow> row" where
  "row_from_parts s vs ri ds =
     \<lparr>schema = s, row_values = vs, result_index = ri, decoded_strings = ds, compat_cache = None\<rparr>"

definition build_compat_values ::
    "tds_lib \<Rightarrow> row_schema \<Rightarrow> column_values list \<Rightarrow> string option list \<Rightarrow> column_data list" where
  "build_compat_values L s vs ds =
     map (\<lambda>(index, value, decoded).
            into_owned (column_data_ref L value decoded
              (case nth_opt (columns s) index of None \<Rightarrow> CT_Null | Some c \<Rightarrow> col_type c)))
       (enumerate 0 (zip vs ds))"

text \<open>\<open>compat_values.get_or_init(..)\<close>: the cells and the row with its lock filled.\<close>

definition compat_values :: "tds_lib \<Rightarrow> row \<Rightarrow> column_data list \<times> row" where
  "compat_values L r =
     (case compat_cache r of
        Some cells \<Rightarrow> (cells, r)
      | None \<Rightarrow>
          (let cells = build_compat_values L (pointee (schema r)) (row_values r) (decoded_strings r)
           in (cells, r\<lparr>compat_cache := Some cells\<rparr>)))"

fun decode_string :: "tds_lib \<Rightarrow> column_values \<Rightarrow> string option" where
  "decode_string L (CV_String s) = Some (sqlstr_to_utf8 L s)"
| "decode_string L (CV_Xml x) = Some (xml_as_string L x)"
| "decode_string L (CV_Json j) = Some (json_as_string L j)"
| "decode_string L _ = None"

definition row_from_schema :: "tds_lib \<Rightarrow> arc_schema \<Rightarrow> column_values list \<Rightarrow> row" where
  "row_from_schema L s vs = row_from_parts s vs 0 (map (decode_string L) vs)"

text \<open>\<open>Row::from_tds\<close>; \<open>p\<close> is the address of the new \<open>Arc\<close>.\<close>

definition row_from_tds :: "tds_lib \<Rightarrow> nat \<Rightarrow> column_metadata list \<Rightarrow> column_values list \<Rightarrow> row" where
  "row_from_tds L p metadata vs =
     row_from_schema L \<lparr>arc_ptr = p, pointee = row_schema_from_metadata metadata\<rparr> vs"

definition row_columns :: "row \<Rightarrow> column list" where
  "row_columns r = columns (pointee (schema r))"

definition cells :: "tds_lib \<Rightarrow> row \<Rightarrow> (column \<times> column_data) list \<times> row" where
  "cells L r = (case compat_values L r of (vs, r') \<Rightarrow> (zip (columns (pointee (schema r))) vs, r'))"

definition row_len :: "row \<Rightarrow> nat" where
  "row_len r = length (row_values r)"

definition row_is_empty :: "row \<Rightarrow> bool" where
  "row_is_empty r \<longleftrightarrow> row_values r = []"

definition raw_value :: "row \<Rightarrow> nat \<Rightarrow> column_values option" where
  "raw_value r idx = nth_opt (row_values r) idx"

definition decoded_str_at :: "row \<Rightarrow> nat \<Rightarrow> string option" where
  "decoded_str_at r idx = Option.bind (nth_opt (decoded_strings r) idx) (\<lambda>s. s)"

definition column_index :: "row \<Rightarrow> string \<Rightarrow> nat option" where
  "column_index r name = name_map (pointee (schema r)) name"

section \<open>Access\<close>

text \<open>\<open>trait ColumnIndex\<close>: its two implementations.\<close>

datatype row_index = ByIndex nat | ByName string

fun resolve :: "row_index \<Rightarrow> row \<Rightarrow> error + nat" where
  "resolve (ByIndex i) r =
     (if length (row_values r) \<le> i then Inl (ColumnIndexOutOfBounds i (length (row_values r)))
      else Inr i)"
| "resolve (ByName name) r = ok_or (name_map (pointee (schema r)) name) (ColumnNotFound name)"

text \<open>The target type of a reader is its \<open>from_sql_with_str\<close>.\<close>

type_synonym 'a reader = "column_values \<Rightarrow> string option \<Rightarrow> 'a option"

definition try_get_at :: "'a reader \<Rightarrow> row \<Rightarrow> nat \<Rightarrow> error + 'a option" where
  "try_get_at from_sql_with_str r idx =
     and_then (ok_or (nth_opt (row_values r) idx) (ColumnIndexOutOfBounds idx (length (row_values r))))
       (\<lambda>value. Inr (from_sql_with_str value (Option.bind (nth_opt (decoded_strings r) idx) (\<lambda>s. s))))"

definition try_get :: "'a reader \<Rightarrow> row \<Rightarrow> row_index \<Rightarrow> error + 'a option" where
  "try_get from_sql_with_str r col =
     and_then (resolve col r) (\<lambda>idx. try_get_at from_sql_with_str r idx)"

text \<open>\<open>expect\<close> panics on an error: the outer \<open>None\<close>.\<close>

definition expect_ok :: "error + 'a \<Rightarrow> 'a option" where
  "expect_ok res = (case res of Inl _ \<Rightarrow> None | Inr x \<Rightarrow> Some x)"

definition row_get :: "'a reader \<Rightarrow> row \<Rightarrow> row_index \<Rightarrow> 'a option option" where
  "row_get from_sql_with_str r col = expect_ok (try_get from_sql_with_str r col)"

definition resolve_name_ci :: "row \<Rightarrow> string \<Rightarrow> error + nat" where
  "resolve_name_ci r name =
     (case column_index r name of
        Some idx \<Rightarrow> Inr idx
      | None \<Rightarrow>
          ok_or (position (\<lambda>c. eq_ignore_ascii_case (col_name c) name) (columns (pointee (schema r))))
            (ColumnNotFound name))"

definition try_get_ci :: "'a reader \<Rightarrow> row \<Rightarrow> string \<Rightarrow> error + 'a option" where
  "try_get_ci from_sql_with_str r name =
     and_then (resolve_name_ci r name) (\<lambda>idx. try_get_at from_sql_with_str r idx)"

definition get_ci :: "'a reader \<Rightarrow> row \<Rightarrow> string \<Rightarrow> 'a option option" where
  "get_ci from_sql_with_str r name = expect_ok (try_get_ci from_sql_with_str r name)"

text \<open>\<open>try_get_compat\<close>: the target type is its compat \<open>from_sql\<close>; the lock may be filled.\<close>

definition try_get_compat ::
    "tds_lib \<Rightarrow> (column_data \<Rightarrow> error + 'a option) \<Rightarrow> row \<Rightarrow> row_index \<Rightarrow> (error + 'a option) \<times> row" where
  "try_get_compat L from_sql r col =
     (case resolve col r of
        Inl e \<Rightarrow> (Inl e, r)
      | Inr idx \<Rightarrow>
          (case compat_values L r of (vs, r') \<Rightarrow>
             (and_then (ok_or (nth_opt vs idx) (ColumnIndexOutOfBounds idx (length vs))) from_sql, r')))"

definition get_compat ::
    "tds_lib \<Rightarrow> (column_data \<Rightarrow> error + 'a option) \<Rightarrow> row \<Rightarrow> row_index \<Rightarrow> 'a option option \<times> row" where
  "get_compat L from_sql r col =
     (case try_get_compat L from_sql r col of (res, r') \<Rightarrow> (expect_ok res, r'))"

text \<open>\<open>PartialEq\<close>; \<open>veq\<close> is the derived equality of \<open>Vec<ColumnValues>\<close> (IEEE on floats).\<close>

definition row_eq :: "(column_values list \<Rightarrow> column_values list \<Rightarrow> bool) \<Rightarrow> row \<Rightarrow> row \<Rightarrow> bool" where
  "row_eq veq a b \<longleftrightarrow>
     (arc_ptr (schema a) = arc_ptr (schema b) \<or>
      (length (columns (pointee (schema a))) = length (columns (pointee (schema b))) \<and>
       list_all (\<lambda>(x, y). col_type x = col_type y)
         (zip (columns (pointee (schema a))) (columns (pointee (schema b)))))) \<and>
     veq (row_values a) (row_values b)"

definition row_into_iter :: "tds_lib \<Rightarrow> row \<Rightarrow> column_data list" where
  "row_into_iter L r =
     (case compat_cache r of
        Some vs \<Rightarrow> vs
      | None \<Rightarrow> build_compat_values L (pointee (schema r)) (row_values r) (decoded_strings r))"

section \<open>The row writer\<close>

text \<open>A call of one method of the driver's \<open>RowWriter\<close> trait; the column index comes first.\<close>

datatype write_call =
    W_null nat
  | W_bool nat bool
  | W_u8 nat u8
  | W_i16 nat i16
  | W_i32 nat i32
  | W_i64 nat i64
  | W_f32 nat f32
  | W_f64 nat f64
  | W_string nat bytes encoding_type
  | W_bytes nat bytes
  | W_decimal nat decimal_parts
  | W_numeric nat decimal_parts
  | W_date nat sql_date
  | W_time nat sql_time
  | W_datetime nat sql_datetime
  | W_smalldatetime nat sql_smalldatetime
  | W_datetime2 nat sql_datetime2
  | W_datetimeoffset nat sql_datetimeoffset
  | W_money nat sql_money
  | W_smallmoney nat sql_smallmoney
  | W_uuid nat u128
  | W_xml nat sql_xml
  | W_json nat sql_json
  | W_vector nat sql_vector
  | W_end_row

record bridge_row_writer =
  bw_schema :: arc_schema
  bw_result_index :: nat
  bw_values :: "column_values list"
  bw_decoded_strings :: "string option list"
  bw_col_count :: nat

definition with_result_index :: "arc_schema \<Rightarrow> nat \<Rightarrow> bridge_row_writer" where
  "with_result_index s ri =
     \<lparr>bw_schema = s, bw_result_index = ri, bw_values = [], bw_decoded_strings = [],
      bw_col_count = length (columns (pointee s))\<rparr>"

definition take_row :: "bridge_row_writer \<Rightarrow> row \<times> bridge_row_writer" where
  "take_row w =
     (row_from_parts (bw_schema w) (bw_values w) (bw_result_index w) (bw_decoded_strings w),
      w\<lparr>bw_values := [], bw_decoded_strings := []\<rparr>)"

definition push_cell :: "column_values \<Rightarrow> string option \<Rightarrow> bridge_row_writer \<Rightarrow> bridge_row_writer" where
  "push_cell v d w =
     w\<lparr>bw_values := bw_values w @ [v], bw_decoded_strings := bw_decoded_strings w @ [d]\<rparr>"

fun row_writer_call :: "tds_lib \<Rightarrow> bridge_row_writer \<Rightarrow> write_call \<Rightarrow> bridge_row_writer" where
  "row_writer_call L w (W_null _) = push_cell CV_Null None w"
| "row_writer_call L w (W_bool _ val) = push_cell (CV_Bit val) None w"
| "row_writer_call L w (W_u8 _ val) = push_cell (CV_TinyInt val) None w"
| "row_writer_call L w (W_i16 _ val) = push_cell (CV_SmallInt val) None w"
| "row_writer_call L w (W_i32 _ val) = push_cell (CV_Int val) None w"
| "row_writer_call L w (W_i64 _ val) = push_cell (CV_BigInt val) None w"
| "row_writer_call L w (W_f32 _ val) = push_cell (CV_Real val) None w"
| "row_writer_call L w (W_f64 _ val) = push_cell (CV_Float val) None w"
| "row_writer_call L w (W_string _ val encoding) =
     (let s = sqlstr_new L val encoding; decoded = sqlstr_to_utf8 L s
      in push_cell (CV_String s) (Some decoded) w)"
| "row_writer_call L w (W_bytes _ val) = push_cell (CV_Bytes val) None w"
| "row_writer_call L w (W_decimal _ val) = push_cell (CV_Decimal val) None w"
| "row_writer_call L w (W_numeric _ val) = push_cell (CV_Numeric val) None w"
| "row_writer_call L w (W_date _ val) = push_cell (CV_Date val) None w"
| "row_writer_call L w (W_time _ val) = push_cell (CV_Time val) None w"
| "row_writer_call L w (W_datetime _ val) = push_cell (CV_DateTime val) None w"
| "row_writer_call L w (W_smalldatetime _ val) = push_cell (CV_SmallDateTime val) None w"
| "row_writer_call L w (W_datetime2 _ val) = push_cell (CV_DateTime2 val) None w"
| "row_writer_call L w (W_datetimeoffset _ val) = push_cell (CV_DateTimeOffset val) None w"
| "row_writer_call L w (W_money _ val) = push_cell (CV_Money val) None w"
| "row_writer_call L w (W_smallmoney _ val) = push_cell (CV_SmallMoney val) None w"
| "row_writer_call L w (W_uuid _ val) = push_cell (CV_Uuid val) None w"
| "row_writer_call L w (W_xml _ val) = push_cell (CV_Xml val) (Some (xml_as_string L val)) w"
| "row_writer_call L w (W_json _ val) = push_cell (CV_Json val) (Some (json_as_string L val)) w"
| "row_writer_call L w (W_vector _ val) = push_cell (CV_Vector val) None w"
| "row_writer_call L w W_end_row = w"

definition write_calls :: "tds_lib \<Rightarrow> bridge_row_writer \<Rightarrow> write_call list \<Rightarrow> bridge_row_writer" where
  "write_calls L w calls = foldl (row_writer_call L) w calls"

section \<open>Name resolution\<close>

lemma insert_names_lookup:
  "insert_names k cs m name =
     (case m name of Some i \<Rightarrow> Some i
      | None \<Rightarrow> map_option ((+) k) (position (\<lambda>c. col_name c = name) cs))"
proof (induction cs arbitrary: k m)
  case Nil
  then show ?case by (simp split: option.splits)
next
  case (Cons c cs)
  have "(+) (Suc k) = (\<lambda>n. Suc (k + n))" by auto
  with Cons show ?case
    by (auto simp: option.map_comp comp_def fun_upd_apply split: option.splits)
qed

lemma name_map_position:
  "name_map (row_schema_from_metadata md) name =
     position (\<lambda>c. col_name c = name) (map column_from_tds md)"
proof -
  have "(+) (0::nat) = id" by auto
  then show ?thesis
    by (simp add: row_schema_from_metadata_def Let_def insert_names_lookup option.map_id)
qed

text \<open>The schema of a row agrees with the metadata it was built from, and a row is as wide as
  its schema.\<close>

definition row_of :: "column_metadata list \<Rightarrow> row \<Rightarrow> bool" where
  "row_of md r \<longleftrightarrow>
     pointee (schema r) = row_schema_from_metadata md \<and> length (row_values r) = length md"

lemma resolve_by_name:
  assumes "row_of md r"
  shows "resolve (ByName name) r = Inr i \<longleftrightarrow>
    i < length (row_values r) \<and> cm_column_name (md ! i) = name \<and>
    (\<forall>j<i. cm_column_name (md ! j) \<noteq> name)"
proof -
  have "resolve (ByName name) r = Inr i \<longleftrightarrow>
      position (\<lambda>c. col_name c = name) (map column_from_tds md) = Some i"
    using assms
    by (cases "position (\<lambda>c. col_name c = name) (map column_from_tds md)")
      (auto simp: row_of_def name_map_position)
  also have "\<dots> \<longleftrightarrow> i < length (row_values r) \<and> cm_column_name (md ! i) = name \<and>
      (\<forall>j<i. cm_column_name (md ! j) \<noteq> name)"
    using assms by (auto simp: position_Some row_of_def column_from_tds_def)
  finally show ?thesis .
qed

text \<open>C32: a column name resolves to the first column of that exact name, also when names
  repeat in the result set; the case-insensitive lookup takes the exact match when there is
  one and otherwise the first column that agrees up to ASCII case. The first fails with
  \<open>ColumnNotFound\<close> exactly when no column has the name, the second exactly when no column
  agrees with it up to ASCII case, and neither fails in any other way.\<close>

theorem column_name_resolution:
  assumes "row_of md r"
  shows "(resolve (ByName name) r = Inr i \<longleftrightarrow>
            i < length (row_values r) \<and> cm_column_name (md ! i) = name \<and>
            (\<forall>j<i. cm_column_name (md ! j) \<noteq> name)) \<and>
         (resolve (ByName name) r = Inl (ColumnNotFound name) \<longleftrightarrow> name \<notin> cm_column_name ` set md) \<and>
         (resolve_name_ci r name = Inr i \<longleftrightarrow>
            (if name \<in> cm_column_name ` set md then resolve (ByName name) r = Inr i
             else i < length (row_values r) \<and> eq_ignore_ascii_case (cm_column_name (md ! i)) name \<and>
                  (\<forall>j<i. \<not> eq_ignore_ascii_case (cm_column_name (md ! j)) name))) \<and>
         (resolve_name_ci r name = Inl (ColumnNotFound name) \<longleftrightarrow>
            (\<forall>m\<in>set md. \<not> eq_ignore_ascii_case (cm_column_name m) name)) \<and>
         (resolve (ByName name) r = Inl e \<or> resolve_name_ci r name = Inl e \<longrightarrow> e = ColumnNotFound name)"
proof (intro conjI)
  show "resolve (ByName name) r = Inr i \<longleftrightarrow>
            i < length (row_values r) \<and> cm_column_name (md ! i) = name \<and>
            (\<forall>j<i. cm_column_name (md ! j) \<noteq> name)"
    by (rule resolve_by_name [OF assms])
  have nm: "name_map (pointee (schema r)) name = position (\<lambda>c. col_name c = name) (map column_from_tds md)"
    using assms by (simp add: row_of_def name_map_position)
  have none: "position (\<lambda>c. col_name c = name) (map column_from_tds md) = None \<longleftrightarrow> name \<notin> cm_column_name ` set md"
    by (auto simp: position_None column_from_tds_def)
  show "resolve (ByName name) r = Inl (ColumnNotFound name) \<longleftrightarrow> name \<notin> cm_column_name ` set md"
    using nm none by (cases "name_map (pointee (schema r)) name") auto
  have cols: "columns (pointee (schema r)) = map column_from_tds md"
    using assms by (simp add: row_of_def row_schema_from_metadata_def Let_def)
  have len: "length (row_values r) = length md" using assms by (simp add: row_of_def)
  show "resolve_name_ci r name = Inr i \<longleftrightarrow>
            (if name \<in> cm_column_name ` set md then resolve (ByName name) r = Inr i
             else i < length (row_values r) \<and> eq_ignore_ascii_case (cm_column_name (md ! i)) name \<and>
                  (\<forall>j<i. \<not> eq_ignore_ascii_case (cm_column_name (md ! j)) name))"
  proof (cases "name \<in> cm_column_name ` set md")
    case True
    with nm none obtain k where "name_map (pointee (schema r)) name = Some k" by auto
    with True show ?thesis by (simp add: resolve_name_ci_def column_index_def)
  next
    case False
    let ?p = "\<lambda>c. eq_ignore_ascii_case (col_name c) name"
    have "resolve_name_ci r name = ok_or (position ?p (map column_from_tds md)) (ColumnNotFound name)"
      using False nm none cols by (simp add: resolve_name_ci_def column_index_def)
    moreover have "ok_or x e = Inr i \<longleftrightarrow> x = Some i" for x :: "nat option" and e :: error
      by (cases x) auto
    ultimately have "resolve_name_ci r name = Inr i \<longleftrightarrow> position ?p (map column_from_tds md) = Some i"
      by metis
    then show ?thesis
      using False len by (auto simp: position_Some column_from_tds_def)
  qed
  have ci: "resolve_name_ci r name =
      (case position (\<lambda>c. col_name c = name) (map column_from_tds md) of
         Some i \<Rightarrow> Inr i
       | None \<Rightarrow> ok_or (position (\<lambda>c. eq_ignore_ascii_case (col_name c) name) (map column_from_tds md))
                    (ColumnNotFound name))"
    using nm cols by (simp add: resolve_name_ci_def column_index_def split: option.split)
  show "resolve_name_ci r name = Inl (ColumnNotFound name) \<longleftrightarrow>
      (\<forall>m\<in>set md. \<not> eq_ignore_ascii_case (cm_column_name m) name)"
  proof -
    have "name \<in> cm_column_name ` set md \<Longrightarrow> \<exists>m\<in>set md. eq_ignore_ascii_case (cm_column_name m) name"
      by (auto simp: eq_ignore_ascii_case_def)
    moreover have "position (\<lambda>c. eq_ignore_ascii_case (col_name c) name) (map column_from_tds md) = None \<longleftrightarrow>
        (\<forall>m\<in>set md. \<not> eq_ignore_ascii_case (cm_column_name m) name)"
      by (auto simp: position_None column_from_tds_def)
    ultimately show ?thesis using none unfolding ci
      by (auto split: option.split)
  qed
  show "resolve (ByName name) r = Inl e \<or> resolve_name_ci r name = Inl e \<longrightarrow> e = ColumnNotFound name"
  proof -
    have "ok_or x e' = Inl e \<longrightarrow> e = e'" for x :: "nat option" and e' by (cases x) simp_all
    then show ?thesis unfolding ci using nm by (auto split: option.splits)
  qed
qed

definition sample_meta :: "string \<Rightarrow> column_metadata" where
  "sample_meta name =
     \<lparr>cm_column_name = name, cm_data_type = TD_Int4, cm_length = 4, cm_udt_info = None,
      cm_is_nullable = True, cm_is_identity = False, cm_is_computed = False,
      cm_is_case_sensitive = False, cm_is_sparse_column_set = False, cm_is_encrypted = False,
      cm_is_plp = False, cm_scale = None, cm_collation = None, cm_user_type = 0\<rparr>"

theorem column_name_resolution_witness:
  "resolve (ByName ''b'')
     (row_from_tds sample_lib 0 [sample_meta ''a'', sample_meta ''b'', sample_meta ''b'']
        [CV_Int 1, CV_Int 2, CV_Int 3]) = Inr 1"
proof -
  let ?md = "[sample_meta ''a'', sample_meta ''b'', sample_meta ''b'']"
  let ?r = "row_from_tds sample_lib 0 ?md [CV_Int 1, CV_Int 2, CV_Int 3]"
  have "row_of ?md ?r"
    by (simp add: row_of_def row_from_tds_def row_from_schema_def row_from_parts_def)
  from column_name_resolution [OF this, of "''b''" 1] show ?thesis
    by (simp add: row_from_tds_def row_from_schema_def row_from_parts_def sample_meta_def)
qed

section \<open>Well-formed rows\<close>

text \<open>The invariant of a row: a decoded string for each text cell, and a lock that is
  empty or holds the cells it would be filled with.\<close>

definition row_ok :: "tds_lib \<Rightarrow> row \<Rightarrow> bool" where
  "row_ok L r \<longleftrightarrow>
     decoded_strings r = map (decode_string L) (row_values r) \<and>
     (compat_cache r = None \<or>
      compat_cache r =
        Some (build_compat_values L (pointee (schema r)) (row_values r) (decoded_strings r)))"

lemma row_ok_from_schema: "row_ok L (row_from_schema L s vs)"
  by (simp add: row_ok_def row_from_schema_def row_from_parts_def)

text \<open>The compat cell of a column, as a function of the values alone.\<close>

definition compat_cell :: "tds_lib \<Rightarrow> row \<Rightarrow> nat \<Rightarrow> column_data" where
  "compat_cell L r i =
     column_data_ref L (row_values r ! i) (decode_string L (row_values r ! i))
       (case nth_opt (columns (pointee (schema r))) i of None \<Rightarrow> CT_Null | Some c \<Rightarrow> col_type c)"

lemma build_compat_values_length:
  "length (build_compat_values L s vs ds) = min (length vs) (length ds)"
  by (simp add: build_compat_values_def)

lemma build_compat_values_nth:
  assumes "ds = map (decode_string L) vs" and "i < length vs"
  shows "build_compat_values L s vs ds ! i =
    column_data_ref L (vs ! i) (decode_string L (vs ! i))
      (case nth_opt (columns s) i of None \<Rightarrow> CT_Null | Some c \<Rightarrow> col_type c)"
  using assms by (simp add: build_compat_values_def nth_enumerate_eq)

lemma build_compat_values_ok:
  assumes "row_ok L r"
  shows "build_compat_values L (pointee (schema r)) (row_values r) (decoded_strings r) =
    map (compat_cell L r) [0..<length (row_values r)]"
  using assms
  by (intro nth_equalityI)
    (auto simp: row_ok_def build_compat_values_length build_compat_values_nth compat_cell_def)

lemma compat_values_ok:
  assumes "row_ok L r" and "compat_values L r = (vs, r')"
  shows "vs = map (compat_cell L r) [0..<length (row_values r)]" and "row_ok L r'"
    and "r' = r\<lparr>compat_cache := compat_cache r'\<rparr>"
  using assms build_compat_values_ok [OF assms(1)]
  by (auto simp: compat_values_def row_ok_def Let_def split: option.splits)

lemma compat_cell_update [simp]: "compat_cell L (r\<lparr>compat_cache := x\<rparr>) = compat_cell L r"
  by (rule ext) (simp add: compat_cell_def)

text \<open>C31: the compat accessors of a well-formed row do not depend on whether the lazily
  filled cell cache was filled before, and they keep the row well formed with its values:
  any sequence of them reads the same cells, and consuming the row yields
  one compat cell per value.\<close>

theorem compat_access_coherent:
  assumes "row_ok L r" and "try_get_compat L from_sql r col = (res, r')"
  shows "row_ok L r' \<and> row_values r' = row_values r \<and> schema r' = schema r \<and>
    res = and_then (resolve col r) (\<lambda>i.
            if i < length (row_values r) then from_sql (compat_cell L r i)
            else Inl (ColumnIndexOutOfBounds i (length (row_values r)))) \<and>
    row_into_iter L r' = map (compat_cell L r) [0..<length (row_values r)]"
proof (cases "resolve col r")
  case (Inl e)
  with assms have "r' = r" "res = Inl e" by (simp_all add: try_get_compat_def)
  then show ?thesis
    using assms(1) Inl build_compat_values_ok [OF assms(1)]
    by (auto simp: row_into_iter_def row_ok_def split: option.splits)
next
  case (Inr i)
  obtain vs r1 where cv: "compat_values L r = (vs, r1)" by fastforce
  note ok = compat_values_ok [OF assms(1) cv]
  from assms(2) Inr cv have r': "r' = r1"
    and res: "res = and_then (ok_or (nth_opt vs i) (ColumnIndexOutOfBounds i (length vs))) from_sql"
    by (simp_all add: try_get_compat_def)
  have same: "row_values r1 = row_values r" "schema r1 = schema r" "decoded_strings r1 = decoded_strings r"
    by (subst ok(3), simp)+
  have "row_into_iter L r1 = map (compat_cell L r1) [0..<length (row_values r1)]"
    using ok(2) build_compat_values_ok [OF ok(2)]
    by (auto simp: row_into_iter_def row_ok_def split: option.splits)
  moreover have "compat_cell L r1 = compat_cell L r"
    by (subst ok(3)) simp
  ultimately show ?thesis
    using r' res Inr ok(1,2) same by (simp add: nth_opt_def)
qed

theorem compat_access_coherent_witness:
  "row_into_iter sample_lib
     (snd (try_get_compat sample_lib (from_column_data_str sample_debug)
        (row_from_tds sample_lib 0 [sample_meta ''a''] [CV_Int 7]) (ByIndex 0)))
   = [CD_I32 (Some 7)]"
proof -
  let ?r = "row_from_tds sample_lib 0 [sample_meta ''a''] [CV_Int 7]"
  obtain res r' where e: "try_get_compat sample_lib (from_column_data_str sample_debug) ?r (ByIndex 0) = (res, r')"
    by fastforce
  have "row_ok sample_lib ?r" by (simp add: row_from_tds_def row_ok_from_schema)
  from compat_access_coherent [OF this e] e show ?thesis
    by (simp add: row_from_tds_def row_from_schema_def row_from_parts_def compat_cell_def)
qed

text \<open>Reading a well-formed row by index: the reader of the target type is applied to
  the cell and, for text cells only, to its decoded string, so \<open>&str\<close> sees exactly the
  text \<open>String\<close> does; an index past the end is an error and never a panic.\<close>

lemma try_get_at_ok:
  assumes "row_ok L r"
  shows "try_get_at rd r i =
    (if i < length (row_values r) then Inr (rd (row_values r ! i) (decode_string L (row_values r ! i)))
     else Inl (ColumnIndexOutOfBounds i (length (row_values r))))"
  using assms by (simp add: try_get_at_def nth_opt_def row_ok_def)

section \<open>Equality\<close>

text \<open>\<open>==\<close> on rows compares the column types and the cell values only: the pointer
  comparison is a fast path and does not change the answer when equal addresses hold
  the same schema.\<close>

theorem row_equality_by_shape:
  assumes "arc_ptr (schema a) = arc_ptr (schema b) \<Longrightarrow> pointee (schema a) = pointee (schema b)"
  shows "row_eq veq a b \<longleftrightarrow>
    map col_type (row_columns a) = map col_type (row_columns b) \<and> veq (row_values a) (row_values b)"
proof -
  have "length xs = length ys \<and> list_all (\<lambda>(x, y). col_type x = col_type y) (zip xs ys)
      \<longleftrightarrow> map col_type xs = map col_type ys" for xs ys
    by (auto simp: list_all_length list_eq_iff_nth_eq)
  then show ?thesis
    using assms by (auto simp: row_eq_def row_columns_def)
qed

theorem row_equality_by_shape_witness:
  "row_eq (=) (row_from_tds sample_lib 0 [sample_meta ''a''] [CV_Int 7])
              (row_from_tds sample_lib 1 [sample_meta ''b''] [CV_Int 7])"
proof -
  let ?a = "row_from_tds sample_lib 0 [sample_meta ''a''] [CV_Int 7]"
  let ?b = "row_from_tds sample_lib 1 [sample_meta ''b''] [CV_Int 7]"
  have "row_eq (=) ?a ?b \<longleftrightarrow>
    map col_type (row_columns ?a) = map col_type (row_columns ?b) \<and> row_values ?a = row_values ?b"
    by (rule row_equality_by_shape) (simp add: row_from_tds_def row_from_schema_def row_from_parts_def)
  then show ?thesis
    by (simp add: row_from_tds_def row_from_schema_def row_from_parts_def row_columns_def
        row_schema_from_metadata_def column_from_tds_def from_metadata_def sample_meta_def Let_def)
qed

section \<open>The writer builds the rows the buffered path builds\<close>

text \<open>What a write call appends, and the values a sequence of calls stands for.\<close>

fun written_value :: "tds_lib \<Rightarrow> write_call \<Rightarrow> column_values option" where
  "written_value L (W_null _) = Some CV_Null"
| "written_value L (W_bool _ v) = Some (CV_Bit v)"
| "written_value L (W_u8 _ v) = Some (CV_TinyInt v)"
| "written_value L (W_i16 _ v) = Some (CV_SmallInt v)"
| "written_value L (W_i32 _ v) = Some (CV_Int v)"
| "written_value L (W_i64 _ v) = Some (CV_BigInt v)"
| "written_value L (W_f32 _ v) = Some (CV_Real v)"
| "written_value L (W_f64 _ v) = Some (CV_Float v)"
| "written_value L (W_string _ v e) = Some (CV_String (sqlstr_new L v e))"
| "written_value L (W_bytes _ v) = Some (CV_Bytes v)"
| "written_value L (W_decimal _ v) = Some (CV_Decimal v)"
| "written_value L (W_numeric _ v) = Some (CV_Numeric v)"
| "written_value L (W_date _ v) = Some (CV_Date v)"
| "written_value L (W_time _ v) = Some (CV_Time v)"
| "written_value L (W_datetime _ v) = Some (CV_DateTime v)"
| "written_value L (W_smalldatetime _ v) = Some (CV_SmallDateTime v)"
| "written_value L (W_datetime2 _ v) = Some (CV_DateTime2 v)"
| "written_value L (W_datetimeoffset _ v) = Some (CV_DateTimeOffset v)"
| "written_value L (W_money _ v) = Some (CV_Money v)"
| "written_value L (W_smallmoney _ v) = Some (CV_SmallMoney v)"
| "written_value L (W_uuid _ v) = Some (CV_Uuid v)"
| "written_value L (W_xml _ v) = Some (CV_Xml v)"
| "written_value L (W_json _ v) = Some (CV_Json v)"
| "written_value L (W_vector _ v) = Some (CV_Vector v)"
| "written_value L W_end_row = None"

definition written_values :: "tds_lib \<Rightarrow> write_call list \<Rightarrow> column_values list" where
  "written_values L calls = List.map_filter (written_value L) calls"

lemma written_values_simps [simp]:
  "written_values L [] = []"
  "written_values L (c # cs) =
     (case written_value L c of None \<Rightarrow> [] | Some v \<Rightarrow> [v]) @ written_values L cs"
  by (auto simp: written_values_def map_filter_def split: option.splits)

lemma row_writer_call_writes:
  "row_writer_call L w c =
     (case written_value L c of None \<Rightarrow> w | Some v \<Rightarrow> push_cell v (decode_string L v) w)"
  by (cases c) (simp_all add: Let_def)

text \<open>Rows taken one after the other from one writer.\<close>

fun take_rows ::
    "('w \<Rightarrow> write_call \<Rightarrow> 'w) \<Rightarrow> ('w \<Rightarrow> 'row \<times> 'w) \<Rightarrow> 'w \<Rightarrow> write_call list list \<Rightarrow> 'row list" where
  "take_rows call tk w [] = []"
| "take_rows call tk w (cs # css) =
     (case tk (foldl call w cs) of (r, w') \<Rightarrow> r # take_rows call tk w' css)"

text \<open>
  The contract between the driver, which decodes a row into write calls, and the bridge's
  writer: the writer collects one cell per call, in order, and taking the row gives it and
  leaves the writer as it was before the first call.
\<close>

locale row_writer =
  fixes call :: "'w \<Rightarrow> write_call \<Rightarrow> 'w"
    and take :: "'w \<Rightarrow> 'row \<times> 'w"
    and written :: "'w \<Rightarrow> column_values list"
    and fresh :: "'w \<Rightarrow> bool"
    and row_with :: "'w \<Rightarrow> column_values list \<Rightarrow> 'row"
    and L :: tds_lib
    and inv :: "'w \<Rightarrow> bool"
  assumes call_inv: "inv w \<Longrightarrow> inv (call w c)"
    and call_written: "inv w \<Longrightarrow> written (call w c) =
          written w @ (case written_value L c of None \<Rightarrow> [] | Some v \<Rightarrow> [v])"
    and call_row: "row_with (call w c) = row_with w"
    and fresh_written: "fresh w \<Longrightarrow> inv w \<and> written w = []"
    and take_row_with: "inv w \<Longrightarrow> fst (take w) = row_with w (written w)"
    and take_fresh: "fresh (snd (take w))"
    and take_keeps: "row_with (snd (take w)) = row_with w"
begin

lemma calls_written:
  "inv w \<Longrightarrow> inv (foldl call w cs) \<and> written (foldl call w cs) = written w @ written_values L cs
     \<and> row_with (foldl call w cs) = row_with w"
proof (induction cs arbitrary: w)
  case Nil
  then show ?case by simp
next
  case (Cons c cs)
  from Cons.IH [OF call_inv [OF Cons.prems, of c]] Cons.prems show ?case
    by (simp add: call_written call_row)
qed

lemma take_rows_written:
  "fresh w \<Longrightarrow> take_rows call take w css = map (\<lambda>cs. row_with w (written_values L cs)) css"
proof (induction css arbitrary: w)
  case Nil
  then show ?case by simp
next
  case (Cons cs css)
  let ?w = "foldl call w cs"
  obtain r w' where t: "take ?w = (r, w')" by fastforce
  from Cons.prems have inv: "inv w" and empty: "written w = []" by (simp_all add: fresh_written)
  note wr = calls_written [OF inv, of cs]
  have "r = row_with w (written_values L cs)" and "fresh w'" and "row_with w' = row_with w"
    using take_row_with [of ?w] take_fresh [of ?w] take_keeps [of ?w] wr empty t by auto
  with t Cons.IH [of w'] show ?case by simp
qed

end

definition writer_row :: "tds_lib \<Rightarrow> bridge_row_writer \<Rightarrow> column_values list \<Rightarrow> row" where
  "writer_row L w vs = (row_from_schema L (bw_schema w) vs)\<lparr>result_index := bw_result_index w\<rparr>"

definition writer_inv :: "tds_lib \<Rightarrow> bridge_row_writer \<Rightarrow> bool" where
  "writer_inv L w \<longleftrightarrow> bw_decoded_strings w = map (decode_string L) (bw_values w)"

interpretation bridge_writer:
  row_writer "row_writer_call L" take_row bw_values
    "\<lambda>w. bw_values w = [] \<and> bw_decoded_strings w = []"
    "writer_row L" L "writer_inv L"
  for L
  by unfold_locales
    (auto simp: row_writer_call_writes push_cell_def writer_inv_def writer_row_def fun_eq_iff
      take_row_def row_from_schema_def row_from_parts_def split: option.splits)

lemma writer_refines:
  "take_row (write_calls L (with_result_index s ri) calls) =
     ((row_from_schema L s (written_values L calls))\<lparr>result_index := ri\<rparr>, with_result_index s ri)"
proof -
  let ?w = "with_result_index s ri"
  have inv: "writer_inv L ?w" by (simp add: writer_inv_def with_result_index_def)
  have shape: "bw_schema (foldl (row_writer_call L) w cs) = bw_schema w
      \<and> bw_result_index (foldl (row_writer_call L) w cs) = bw_result_index w
      \<and> bw_col_count (foldl (row_writer_call L) w cs) = bw_col_count w" for w cs
    by (induction cs arbitrary: w)
      (auto simp: row_writer_call_writes push_cell_def split: option.splits)
  have "fst (take_row (write_calls L ?w calls)) = writer_row L ?w (written_values L calls)"
    using bridge_writer.calls_written [OF inv, of calls] bridge_writer.take_row_with [of L "write_calls L ?w calls"]
    by (simp add: write_calls_def with_result_index_def)
  moreover have "snd (take_row (write_calls L ?w calls)) = ?w"
    using shape [of ?w calls] by (simp add: take_row_def write_calls_def with_result_index_def)
  ultimately show ?thesis
    by (metis prod.collapse writer_row_def bridge_row_writer.select_convs(1,2) with_result_index_def)
qed

text \<open>C21: the streaming writer builds the rows of a result set as the buffered constructor
  does: whatever write calls each row is made of, the rows taken one after the other from
  one writer are the rows that constructor builds from their decoded values, tagged with
  the result set, and the writer ends empty, so that no cell leaks into the next row.\<close>

theorem writer_refines_from_schema:
  "take_rows (row_writer_call L) take_row (with_result_index s ri) css =
     map (\<lambda>cs. (row_from_schema L s (written_values L cs))\<lparr>result_index := ri\<rparr>) css \<and>
   snd (take_row (write_calls L (with_result_index s ri) calls)) = with_result_index s ri"
proof
  have "take_rows (row_writer_call L) take_row (with_result_index s ri) css =
      map (\<lambda>cs. writer_row L (with_result_index s ri) (written_values L cs)) css"
    by (rule bridge_writer.take_rows_written) (simp add: with_result_index_def)
  then show "take_rows (row_writer_call L) take_row (with_result_index s ri) css =
      map (\<lambda>cs. (row_from_schema L s (written_values L cs))\<lparr>result_index := ri\<rparr>) css"
    by (simp add: writer_row_def with_result_index_def)
qed (simp add: writer_refines)

end
