(* ===== verification/QueryModel.thy ===== *)
theory QueryModel
  imports RowModel
begin

text \<open>
  \<open>query.rs\<close>: the results of buffered queries, \<open>ExecuteResult\<close> and \<open>QueryResult\<close>, and
  \<open>RowStream\<close>, the stream over the rows of all result sets. The contract of a stream
  that is ready at every poll is a locale, with the size hint as its extension.
\<close>

section \<open>Execute results\<close>

record execute_result =
  counts :: "u64 list"

definition rows_affected :: "execute_result \<Rightarrow> u64 list" where
  "rows_affected r = counts r"

text \<open>\<open>iter().sum()\<close> over \<open>u64\<close> wraps in a release build.\<close>

definition total :: "execute_result \<Rightarrow> u64" where
  "total r = sum_list (counts r)"

definition execute_result_into_iter :: "execute_result \<Rightarrow> u64 list" where
  "execute_result_into_iter r = counts r"

text \<open>The total of an execute result is the sum of the per-statement counts when that sum
  fits 64 bits, and the sum modulo \<open>2^64\<close> in general.\<close>

theorem total_value:
  "unat (total r) = sum_list (map unat (rows_affected r)) mod 2 ^ 64"
proof -
  have "unat (sum_list xs) = sum_list (map unat xs) mod 2 ^ 64" for xs :: "u64 list"
  proof (induction xs)
    case Nil
    then show ?case by simp
  next
    case (Cons x xs)
    have "unat (x + sum_list xs) = (unat x + unat (sum_list xs)) mod 2 ^ 64"
      by (simp add: unat_word_ariths)
    with Cons show ?case by (simp add: mod_simps)
  qed
  then show ?thesis by (simp add: total_def rows_affected_def)
qed

section \<open>Query results\<close>

record query_result =
  result_sets :: "row list list"

definition into_first_result :: "query_result \<Rightarrow> row list" where
  "into_first_result r = (case result_sets r of [] \<Rightarrow> [] | s # _ \<Rightarrow> s)"

definition into_results :: "query_result \<Rightarrow> row list list" where
  "into_results r = result_sets r"

definition result_set_count :: "query_result \<Rightarrow> nat" where
  "result_set_count r = length (result_sets r)"

definition query_result_empty :: query_result where
  "query_result_empty = \<lparr>result_sets = []\<rparr>"

record row_stream =
  rs_sets :: "row list list"
  rs_current :: "row list"
  rs_remaining :: nat

definition query_into_row_stream :: "query_result \<Rightarrow> row_stream" where
  "query_into_row_stream r =
     (let n = sum_list (map length (result_sets r))
      in case result_sets r of
           [] \<Rightarrow> \<lparr>rs_sets = [], rs_current = [], rs_remaining = n\<rparr>
         | s # sets \<Rightarrow> \<lparr>rs_sets = sets, rs_current = s, rs_remaining = n\<rparr>)"

text \<open>The loop of \<open>poll_next\<close>; \<open>None\<close> is the overflow panic of \<open>remaining -= 1\<close>.\<close>

function row_stream_poll :: "row list list \<Rightarrow> row list \<Rightarrow> nat \<Rightarrow> ((error + row) option \<times> row_stream) option" where
  "row_stream_poll sets (row # rows) remaining =
     (if remaining = 0 then None
      else Some (Some (Inr row), \<lparr>rs_sets = sets, rs_current = rows, rs_remaining = remaining - 1\<rparr>))"
| "row_stream_poll (next_set # sets) [] remaining = row_stream_poll sets next_set remaining"
| "row_stream_poll [] [] remaining = Some (None, \<lparr>rs_sets = [], rs_current = [], rs_remaining = remaining\<rparr>)"
  by pat_completeness auto

termination
  by (relation "measure (\<lambda>(sets, _, _). length sets)") auto

definition row_stream_poll_next :: "row_stream \<Rightarrow> ((error + row) option \<times> row_stream) option" where
  "row_stream_poll_next s = row_stream_poll (rs_sets s) (rs_current s) (rs_remaining s)"

definition row_stream_size_hint :: "row_stream \<Rightarrow> nat \<times> nat option" where
  "row_stream_size_hint s = (rs_remaining s, Some (rs_remaining s))"

section \<open>Ready streams\<close>

text \<open>\<open>while let Some(x) = stream.next().await\<close>: poll until the end, with fuel.\<close>

fun drain :: "('s \<Rightarrow> ('i option \<times> 's) option) \<Rightarrow> nat \<Rightarrow> 's \<Rightarrow> 'i list option" where
  "drain poll 0 s = None"
| "drain poll (Suc n) s =
     (case poll s of
        None \<Rightarrow> None
      | Some (None, s') \<Rightarrow> Some []
      | Some (Some x, s') \<Rightarrow> map_option (\<lambda>xs. x # xs) (drain poll n s'))"

text \<open>
  A stream whose every poll is ready: what is left of it is a list, a poll takes the
  head of that list, and the end is reported for ever. A poll that panics is \<open>None\<close>.
\<close>

locale ready_stream =
  fixes poll :: "'s \<Rightarrow> ('i option \<times> 's) option"
    and left :: "'s \<Rightarrow> 'i list"
    and ok :: "'s \<Rightarrow> bool"
  assumes poll_end: "ok s \<Longrightarrow> left s = [] \<Longrightarrow>
            \<exists>s'. poll s = Some (None, s') \<and> ok s' \<and> left s' = []"
    and poll_item: "ok s \<Longrightarrow> left s = x # xs \<Longrightarrow>
            \<exists>s'. poll s = Some (Some x, s') \<and> ok s' \<and> left s' = xs"
begin

lemma drain_left: "ok s \<Longrightarrow> length (left s) < n \<Longrightarrow> drain poll n s = Some (left s)"
proof (induction n arbitrary: s)
  case 0
  then show ?case by simp
next
  case (Suc n)
  show ?case
  proof (cases "left s")
    case Nil
    with poll_end [OF Suc.prems(1)] show ?thesis by auto
  next
    case (Cons x xs)
    from poll_item [OF Suc.prems(1) Cons] obtain s' where
      "poll s = Some (Some x, s')" "ok s'" "left s' = xs" by blast
    with Suc Cons show ?thesis by simp
  qed
qed

lemma never_panics: "ok s \<Longrightarrow> poll s \<noteq> None"
  using poll_end [of s] poll_item [of s] by (cases "left s") auto

end

locale sized_stream = ready_stream +
  fixes size_hint :: "'a \<Rightarrow> nat \<times> nat option"
  assumes exact: "ok s \<Longrightarrow> size_hint s = (length (left s), Some (length (left s)))"
begin

lemma hint_after_item:
  assumes "ok s" and "poll s = Some (Some x, s')"
  shows "size_hint s = (Suc (fst (size_hint s')), map_option Suc (snd (size_hint s')))"
proof (cases "left s")
  case Nil
  with poll_end [OF assms(1)] assms(2) show ?thesis by auto
next
  case (Cons y ys)
  with poll_item [OF assms(1) Cons] assms show ?thesis by (auto simp: exact)
qed

end

text \<open>\<open>vec::IntoIter\<close>.\<close>

definition vec_next :: "'a list \<Rightarrow> ('a option \<times> 'a list) option" where
  "vec_next xs = Some (case xs of [] \<Rightarrow> (None, []) | y # ys \<Rightarrow> (Some y, ys))"

interpretation vec_iter: sized_stream vec_next "\<lambda>xs. xs" "\<lambda>_. True" "\<lambda>xs. (length xs, Some (length xs))"
  by unfold_locales (auto simp: vec_next_def)

definition row_stream_left :: "row_stream \<Rightarrow> (error + row) list" where
  "row_stream_left s = map Inr (rs_current s @ concat (rs_sets s))"

definition row_stream_ok :: "row_stream \<Rightarrow> bool" where
  "row_stream_ok s \<longleftrightarrow> rs_remaining s = length (rs_current s) + sum_list (map length (rs_sets s))"

lemma row_stream_poll_item:
  "n = length rows + sum_list (map length sets) \<Longrightarrow> rows @ concat sets = x # xs \<Longrightarrow>
     \<exists>s'. row_stream_poll sets rows n = Some (Some (Inr x), s') \<and>
          row_stream_ok s' \<and> row_stream_left s' = map Inr xs"
  by (induction sets rows n arbitrary: x xs rule: row_stream_poll.induct)
    (auto simp: row_stream_ok_def row_stream_left_def)

lemma row_stream_poll_end:
  "rows @ concat sets = [] \<Longrightarrow>
     row_stream_poll sets rows n = Some (None, \<lparr>rs_sets = [], rs_current = [], rs_remaining = n\<rparr>)"
  by (induction sets rows n rule: row_stream_poll.induct) auto

lemma sum_lengths_concat: "concat xss = [] \<Longrightarrow> sum_list (map length xss) = 0"
  by (induction xss) auto

interpretation rows: sized_stream row_stream_poll_next row_stream_left row_stream_ok row_stream_size_hint
proof unfold_locales
  fix s
  assume ok: "row_stream_ok s" and e: "row_stream_left s = []"
  from e have "rs_current s @ concat (rs_sets s) = []" by (simp add: row_stream_left_def)
  with ok show "\<exists>s'. row_stream_poll_next s = Some (None, s') \<and> row_stream_ok s' \<and> row_stream_left s' = []"
    by (simp add: row_stream_poll_next_def row_stream_poll_end row_stream_ok_def row_stream_left_def
        sum_lengths_concat)
next
  fix s x xs
  assume ok: "row_stream_ok s" and l: "row_stream_left s = x # xs"
  then obtain y ys where "rs_current s @ concat (rs_sets s) = y # ys" "x = Inr y" "xs = map Inr ys"
    by (auto simp: row_stream_left_def simp del: map_append)
  with ok row_stream_poll_item [of "rs_remaining s" "rs_current s" "rs_sets s" y ys]
  show "\<exists>s'. row_stream_poll_next s = Some (Some x, s') \<and> row_stream_ok s' \<and> row_stream_left s' = xs"
    by (simp add: row_stream_poll_next_def row_stream_ok_def)
next
  fix s
  assume "row_stream_ok s"
  moreover have "length (concat xss) = sum_list (map length xss)" for xss :: "row list list"
    by (simp add: length_concat)
  ultimately show "row_stream_size_hint s = (length (row_stream_left s), Some (length (row_stream_left s)))"
    by (simp add: row_stream_size_hint_def row_stream_ok_def row_stream_left_def)
qed

lemma query_into_row_stream_ok:
  "row_stream_ok (query_into_row_stream r)"
  "row_stream_left (query_into_row_stream r) = map Inr (concat (into_results r))"
  by (auto simp: query_into_row_stream_def Let_def row_stream_ok_def row_stream_left_def into_results_def
      split: list.splits)

text \<open>The row stream of a query result yields every row of every result set in order,
  skipping empty sets, then ends; at the start its size hint is the exact number of
  rows, and polling never panics.\<close>

theorem row_stream_yields_all:
  "drain row_stream_poll_next (Suc (length (concat (into_results r)))) (query_into_row_stream r)
     = Some (map Inr (concat (into_results r))) \<and>
   row_stream_size_hint (query_into_row_stream r) =
     (length (concat (into_results r)), Some (length (concat (into_results r))))"
proof
  show "drain row_stream_poll_next (Suc (length (concat (into_results r)))) (query_into_row_stream r)
     = Some (map Inr (concat (into_results r)))"
    using rows.drain_left [OF query_into_row_stream_ok(1), of r "Suc (length (concat (into_results r)))"]
    by (simp only: query_into_row_stream_ok(2) length_map lessI)
  show "row_stream_size_hint (query_into_row_stream r) =
     (length (concat (into_results r)), Some (length (concat (into_results r))))"
    using rows.exact [OF query_into_row_stream_ok(1), of r] by (simp add: query_into_row_stream_ok(2))
qed

text \<open>Every state the stream reaches keeps its hint exact: an item lowers both bounds by
  one, so \<open>remaining\<close> never underflows.\<close>

theorem row_stream_hint_exact:
  assumes "row_stream_ok s"
  shows "case row_stream_poll_next s of
           None \<Rightarrow> False
         | Some (None, s') \<Rightarrow> row_stream_size_hint s = (0, Some 0) \<and> row_stream_ok s'
         | Some (Some _, s') \<Rightarrow> row_stream_ok s' \<and>
             row_stream_size_hint s = (Suc (fst (row_stream_size_hint s')), map_option Suc (snd (row_stream_size_hint s')))"
proof (cases "row_stream_left s")
  case Nil
  with rows.poll_end [OF assms] rows.exact [OF assms] show ?thesis by auto
next
  case (Cons x xs)
  with rows.poll_item [OF assms Cons] rows.hint_after_item [OF assms] show ?thesis by auto
qed

theorem row_stream_hint_exact_witness:
  "row_stream_poll_next (query_into_row_stream
     \<lparr>result_sets = [[], [row_from_tds sample_lib 0 [] []]]\<rparr>) \<noteq> None"
  using row_stream_hint_exact
      [OF query_into_row_stream_ok(1), of "\<lparr>result_sets = [[], [row_from_tds sample_lib 0 [] []]]\<rparr>"]
  by (auto split: option.splits)

end
