(* ===== verification/DriverModel.thy ===== *)
theory DriverModel
  imports OperationGuard QueryModel
begin

text \<open>
  The interface to the \<open>mssql-tds\<close> client the bridge drives: one field per method that
  \<open>client.rs\<close>, \<open>prepared.rs\<close>, \<open>pool.rs\<close> and \<open>bulk.rs\<close> call, over an arbitrary
  connection state. What the sources rely on is stated as laws: the health flag is sticky
  when marked, and the result cursor follows a script of statement results. A replaying
  driver that satisfies the laws is the instance of the witnesses.
\<close>

section \<open>The driver's methods\<close>

datatype statement_result = Rows | NoRows "u64 option" | End

record 'c driver =
  drv_health :: "'c health"
  drv_abandon :: "'c \<Rightarrow> 'c"
  drv_close_query :: "'c \<Rightarrow> (tds_error + unit) \<times> 'c"
  drv_execute :: "string \<Rightarrow> 'c \<Rightarrow> (tds_error + statement_result) \<times> 'c"
  drv_execute_sp_executesql :: "string \<Rightarrow> rpc_parameter list \<Rightarrow> 'c \<Rightarrow> (tds_error + statement_result) \<times> 'c"
  drv_execute_stored_procedure ::
    "string \<Rightarrow> rpc_parameter list option \<Rightarrow> rpc_parameter list option \<Rightarrow> 'c \<Rightarrow> (tds_error + statement_result) \<times> 'c"
  drv_on_rows :: "'c \<Rightarrow> bool"
  drv_advance_to_rows :: "'c \<Rightarrow> (tds_error + bool) \<times> 'c"
  drv_advance :: "'c \<Rightarrow> (tds_error + statement_result) \<times> 'c"
  drv_get_metadata :: "'c \<Rightarrow> column_metadata list"
  drv_next_row_into :: "'c \<Rightarrow> ((tds_error + bool) \<times> write_call list) \<times> 'c"
  drv_next_row :: "'c \<Rightarrow> (tds_error + column_values list option) \<times> 'c"
  drv_get_return_values :: "'c \<Rightarrow> column_values list"
  drv_prepare_reset_connection :: "bool \<Rightarrow> 'c \<Rightarrow> 'c"

section \<open>Awaited calls\<close>

text \<open>\<open>operation.method(..).await.map_err(Error::Tds)\<close>.\<close>

definition await_tds :: "'c driver \<Rightarrow> ('c \<Rightarrow> (tds_error + 'a) \<times> 'c) \<Rightarrow> ('c, error + 'a) io" where
  "await_tds D f = io_await (drv_abandon D) (\<lambda>c. case f c of (r, c') \<Rightarrow> (map_err Tds r, c'))"

text \<open>\<open>next_row_into(&mut writer)\<close>: the row arrives as calls of the writer's methods.\<close>

definition await_next_row_into ::
    "'c driver \<Rightarrow> tds_lib \<Rightarrow> bridge_row_writer \<Rightarrow> ('c, error + bool \<times> bridge_row_writer) io" where
  "await_next_row_into D L writer =
     io_await (drv_abandon D) (\<lambda>c. case drv_next_row_into D c of
       ((r, calls), c') \<Rightarrow> (map_ok (\<lambda>more. (more, write_calls L writer calls)) (map_err Tds r), c'))"

text \<open>\<open>Arc::new\<close>: a fresh address.\<close>

definition io_new_arc :: "('c, nat) io" where
  "io_new_arc w = Some (Ret (next_arc w), w\<lparr>next_arc := Suc (next_arc w)\<rparr>)"

lemma await_tds_unlimited:
  assumes "budget w = None" and "f (conn w) = (r, c')"
  shows "await_tds D f w = Some (Ret (map_err Tds r), w\<lparr>conn := c'\<rparr>)"
  using assms by (simp add: await_tds_def)

lemma await_next_row_into_unlimited:
  assumes "budget w = None" and "drv_next_row_into D (conn w) = ((r, calls), c')"
  shows "await_next_row_into D L writer w =
    Some (Ret (map_ok (\<lambda>more. (more, write_calls L writer calls)) (map_err Tds r)), w\<lparr>conn := c'\<rparr>)"
  using assms by (simp add: await_next_row_into_def)

text \<open>Every computation the loops below are made of is monotone, so they may be defined by
  unrestricted recursion.\<close>

lemma io_bind_mono [partial_function_mono]:
  assumes "\<And>a w'. mono_option (\<lambda>g. f g a w')"
  shows "mono_option (\<lambda>g. io_bind m (f g) w)"
proof (cases "m w")
  case None
  then show ?thesis by (simp add: io_bind_def option.const_mono)
next
  case (Some p)
  obtain r w' where p: "p = (r, w')" by fastforce
  show ?thesis
  proof (cases r)
    case (Ret a)
    with Some p assms [of a w'] show ?thesis by (simp add: io_bind_def)
  qed (simp_all add: io_bind_def Some p option.const_mono)
qed

lemma io_try_mono [partial_function_mono]:
  assumes "\<And>a w'. mono_option (\<lambda>g. f g a w')"
  shows "mono_option (\<lambda>g. io_try m (f g) w)"
  unfolding io_try_def
proof (rule io_bind_mono)
  fix r w'
  show "mono_option (\<lambda>g. (case r of Inl e \<Rightarrow> io_ret (Inl e) | Inr x \<Rightarrow> f g x) w')"
    using assms by (cases r) (simp_all add: option.const_mono)
qed

section \<open>Laws\<close>

definition health_law :: "'c driver \<Rightarrow> bool" where
  "health_law D \<longleftrightarrow> (\<forall>c. is_dead (drv_health D) (mark_dead (drv_health D) c))"

text \<open>
  The reply to a request as a script: per statement, a count or a result set, given by its
  metadata, the write calls of each row, and the error that ends the rows, if any.
\<close>

datatype reply =
    R_rows "column_metadata list" "write_call list list" "tds_error option"
  | R_norows "u64 option"
  | R_error tds_error

text \<open>Where the cursor stands: on the rows of a result set, after them, or between two
  statements.\<close>

datatype cursor =
    OnRows "column_metadata list" "write_call list list" "tds_error option" "reply list"
  | AfterRows "reply list"
  | Between "reply list"

fun cursor_rest :: "cursor \<Rightarrow> reply list option" where
  "cursor_rest (OnRows _ _ _ _) = None"
| "cursor_rest (AfterRows rest) = Some rest"
| "cursor_rest (Between rest) = Some rest"

text \<open>\<open>advance_to_rows\<close> skips statements without rows.\<close>

fun script_to_rows :: "reply list \<Rightarrow> (tds_error + bool) \<times> cursor" where
  "script_to_rows [] = (Inr False, Between [])"
| "script_to_rows (R_norows _ # rest) = script_to_rows rest"
| "script_to_rows (R_error e # rest) = (Inl e, Between rest)"
| "script_to_rows (R_rows md rows err # rest) = (Inr True, OnRows md rows err rest)"

fun script_advance :: "reply list \<Rightarrow> (tds_error + statement_result) \<times> cursor" where
  "script_advance [] = (Inr End, Between [])"
| "script_advance (R_norows n # rest) = (Inr (NoRows n), Between rest)"
| "script_advance (R_error e # rest) = (Inl e, Between rest)"
| "script_advance (R_rows md rows err # rest) = (Inr Rows, OnRows md rows err rest)"

text \<open>The law: \<open>S\<close> reads the cursor of a connection that is following a script. Nothing is
  assumed of \<open>on_rows\<close> after the last row, nor of the state after an error.\<close>

definition follows_script :: "'c driver \<Rightarrow> tds_lib \<Rightarrow> ('c \<Rightarrow> cursor option) \<Rightarrow> bool" where
  "follows_script D L S \<longleftrightarrow>
     (\<forall>c md rows err rest. S c = Some (OnRows md rows err rest) \<longrightarrow>
        drv_on_rows D c \<and> drv_get_metadata D c = md \<and>
        (\<exists>c'. case rows of
           calls # rows' \<Rightarrow> drv_next_row_into D c = ((Inr True, calls), c') \<and> S c' = Some (OnRows md rows' err rest)
         | [] \<Rightarrow> (case err of
               None \<Rightarrow> drv_next_row_into D c = ((Inr False, []), c') \<and> S c' = Some (AfterRows rest)
             | Some e \<Rightarrow> drv_next_row_into D c = ((Inl e, []), c'))) \<and>
        (\<exists>c'. case rows of
           calls # rows' \<Rightarrow> drv_next_row D c = (Inr (Some (written_values L calls)), c') \<and>
                             S c' = Some (OnRows md rows' err rest)
         | [] \<Rightarrow> (case err of
               None \<Rightarrow> drv_next_row D c = (Inr None, c') \<and> S c' = Some (AfterRows rest)
             | Some e \<Rightarrow> drv_next_row D c = (Inl e, c')))) \<and>
     (\<forall>c rest. S c = Some (Between rest) \<longrightarrow> \<not> drv_on_rows D c) \<and>
     (\<forall>c cur rest. S c = Some cur \<longrightarrow> cursor_rest cur = Some rest \<longrightarrow>
        (\<exists>c'. drv_advance_to_rows D c = (fst (script_to_rows rest), c') \<and>
              (is_ok (fst (script_to_rows rest)) \<longrightarrow> S c' = Some (snd (script_to_rows rest)))) \<and>
        (\<exists>c'. drv_advance D c = (fst (script_advance rest), c') \<and>
              (is_ok (fst (script_advance rest)) \<longrightarrow> S c' = Some (snd (script_advance rest)))))"

lemma script_on_rows:
  assumes "follows_script D L S" and "S c = Some (OnRows md rows err rest)"
  shows "drv_on_rows D c" and "drv_get_metadata D c = md"
  using assms unfolding follows_script_def by blast+

lemma script_next_row_into:
  assumes "follows_script D L S" and "S c = Some (OnRows md rows err rest)"
  obtains
    (row) calls rows' c' where "rows = calls # rows'" "drv_next_row_into D c = ((Inr True, calls), c')"
      "S c' = Some (OnRows md rows' err rest)"
  | (finished) c' where "rows = []" "err = None" "drv_next_row_into D c = ((Inr False, []), c')"
      "S c' = Some (AfterRows rest)"
  | (failed) e c' where "rows = []" "err = Some e" "drv_next_row_into D c = ((Inl e, []), c')"
proof -
  from assms have "\<exists>c'. case rows of
           calls # rows' \<Rightarrow> drv_next_row_into D c = ((Inr True, calls), c') \<and> S c' = Some (OnRows md rows' err rest)
         | [] \<Rightarrow> (case err of
               None \<Rightarrow> drv_next_row_into D c = ((Inr False, []), c') \<and> S c' = Some (AfterRows rest)
             | Some e \<Rightarrow> drv_next_row_into D c = ((Inl e, []), c'))"
    unfolding follows_script_def by blast
  then show thesis
    by (cases rows; cases err) (auto intro: row finished failed)
qed

lemma script_next_row:
  assumes "follows_script D L S" and "S c = Some (OnRows md rows err rest)"
  obtains
    (row) calls rows' c' where "rows = calls # rows'"
      "drv_next_row D c = (Inr (Some (written_values L calls)), c')" "S c' = Some (OnRows md rows' err rest)"
  | (finished) c' where "rows = []" "err = None" "drv_next_row D c = (Inr None, c')" "S c' = Some (AfterRows rest)"
  | (failed) e c' where "rows = []" "err = Some e" "drv_next_row D c = (Inl e, c')"
proof -
  from assms have "\<exists>c'. case rows of
           calls # rows' \<Rightarrow> drv_next_row D c = (Inr (Some (written_values L calls)), c') \<and>
                             S c' = Some (OnRows md rows' err rest)
         | [] \<Rightarrow> (case err of
               None \<Rightarrow> drv_next_row D c = (Inr None, c') \<and> S c' = Some (AfterRows rest)
             | Some e \<Rightarrow> drv_next_row D c = (Inl e, c'))"
    unfolding follows_script_def by blast
  then show thesis
    by (cases rows; cases err) (auto intro: row finished failed)
qed

lemma script_between:
  "follows_script D L S \<Longrightarrow> S c = Some (Between rest) \<Longrightarrow> \<not> drv_on_rows D c"
  unfolding follows_script_def by blast

lemma script_advance_to_rows:
  assumes "follows_script D L S" and "S c = Some cur" and "cursor_rest cur = Some rest"
  obtains c' where "drv_advance_to_rows D c = (fst (script_to_rows rest), c')"
    "is_ok (fst (script_to_rows rest)) \<Longrightarrow> S c' = Some (snd (script_to_rows rest))"
  using assms unfolding follows_script_def by blast

lemma script_advance_step:
  assumes "follows_script D L S" and "S c = Some cur" and "cursor_rest cur = Some rest"
  obtains c' where "drv_advance D c = (fst (script_advance rest), c')"
    "is_ok (fst (script_advance rest)) \<Longrightarrow> S c' = Some (snd (script_advance rest))"
  using assms unfolding follows_script_def by blast

section \<open>A replaying driver\<close>

text \<open>Its connection holds the replies to come, per request, the cursor and the calls made.\<close>

datatype driver_event =
    E_close | E_execute string | E_executesql string "rpc_parameter list"
  | E_procedure string "rpc_parameter list option" "rpc_parameter list option"
  | E_reset bool

record replay =
  rp_dead :: bool
  rp_answers :: "reply list list"
  rp_cursor :: cursor
  rp_log :: "driver_event list"
  rp_returns :: "column_values list"

definition replay_request :: "driver_event \<Rightarrow> replay \<Rightarrow> (tds_error + statement_result) \<times> replay" where
  "replay_request ev c =
     (case rp_answers c of
        [] \<Rightarrow> (Inl (ProtocolError ''no reply''), c\<lparr>rp_log := rp_log c @ [ev]\<rparr>)
      | a # as \<Rightarrow> (case script_advance a of (r, cur) \<Rightarrow>
          (r, c\<lparr>rp_answers := as, rp_cursor := cur, rp_log := rp_log c @ [ev]\<rparr>)))"

fun replay_row :: "cursor \<Rightarrow> (tds_error + write_call list option) \<times> cursor" where
  "replay_row (OnRows md (calls # rows) err rest) = (Inr (Some calls), OnRows md rows err rest)"
| "replay_row (OnRows md [] None rest) = (Inr None, AfterRows rest)"
| "replay_row (OnRows md [] (Some e) rest) = (Inl e, Between rest)"
| "replay_row cur = (Inr None, cur)"

fun replay_rest :: "cursor \<Rightarrow> reply list" where
  "replay_rest (OnRows _ _ _ rest) = rest"
| "replay_rest (AfterRows rest) = rest"
| "replay_rest (Between rest) = rest"

definition replay_driver :: "tds_lib \<Rightarrow> replay driver" where
  "replay_driver L = \<lparr>
     drv_health = \<lparr>is_dead = rp_dead, mark_dead = (\<lambda>c. c\<lparr>rp_dead := True\<rparr>)\<rparr>,
     drv_abandon = id,
     drv_close_query = (\<lambda>c. (Inr (), c\<lparr>rp_cursor := Between [], rp_log := rp_log c @ [E_close]\<rparr>)),
     drv_execute = (\<lambda>sql. replay_request (E_execute sql)),
     drv_execute_sp_executesql = (\<lambda>sql ps. replay_request (E_executesql sql ps)),
     drv_execute_stored_procedure = (\<lambda>name ps ns. replay_request (E_procedure name ps ns)),
     drv_on_rows = (\<lambda>c. case rp_cursor c of OnRows _ _ _ _ \<Rightarrow> True | _ \<Rightarrow> False),
     drv_advance_to_rows = (\<lambda>c. case script_to_rows (replay_rest (rp_cursor c)) of
        (r, cur) \<Rightarrow> (r, c\<lparr>rp_cursor := cur\<rparr>)),
     drv_advance = (\<lambda>c. case script_advance (replay_rest (rp_cursor c)) of
        (r, cur) \<Rightarrow> (r, c\<lparr>rp_cursor := cur\<rparr>)),
     drv_get_metadata = (\<lambda>c. case rp_cursor c of OnRows md _ _ _ \<Rightarrow> md | _ \<Rightarrow> []),
     drv_next_row_into = (\<lambda>c. case replay_row (rp_cursor c) of
        (Inl e, cur) \<Rightarrow> ((Inl e, []), c\<lparr>rp_cursor := cur\<rparr>)
      | (Inr None, cur) \<Rightarrow> ((Inr False, []), c\<lparr>rp_cursor := cur\<rparr>)
      | (Inr (Some calls), cur) \<Rightarrow> ((Inr True, calls), c\<lparr>rp_cursor := cur\<rparr>)),
     drv_next_row = (\<lambda>c. case replay_row (rp_cursor c) of
        (r, cur) \<Rightarrow> (map_ok (map_option (written_values L)) r, c\<lparr>rp_cursor := cur\<rparr>)),
     drv_get_return_values = rp_returns,
     drv_prepare_reset_connection = (\<lambda>b c. c\<lparr>rp_log := rp_log c @ [E_reset b]\<rparr>)\<rparr>"

lemma replay_health_law: "health_law (replay_driver L)"
  by (simp add: health_law_def replay_driver_def)

interpretation replay_health: connection_health "drv_health (replay_driver L)" for L
  using replay_health_law [of L] by unfold_locales (simp add: health_law_def)

text \<open>The cursor of a replaying connection that is alive.\<close>

definition live_cursor :: "replay \<Rightarrow> cursor option" where
  "live_cursor c = (if rp_dead c then None else Some (rp_cursor c))"

lemma replay_follows_script: "follows_script (replay_driver L) L live_cursor"
proof -
  have rest: "cursor_rest cur = Some rest \<Longrightarrow> replay_rest cur = rest" for cur rest
    by (cases cur) auto
  show ?thesis
    unfolding follows_script_def
  proof (intro conjI allI impI)
    fix c :: replay and md rows err rest
    assume "live_cursor c = Some (OnRows md rows err rest)"
    then have c: "rp_cursor c = OnRows md rows err rest" "\<not> rp_dead c"
      by (auto simp: live_cursor_def split: if_splits)
    then show "drv_on_rows (replay_driver L) c" and "drv_get_metadata (replay_driver L) c = md"
      by (simp_all add: replay_driver_def live_cursor_def)
    show "\<exists>c'. case rows of
           calls # rows' \<Rightarrow> drv_next_row_into (replay_driver L) c = ((Inr True, calls), c') \<and>
             live_cursor c' = Some (OnRows md rows' err rest)
         | [] \<Rightarrow> (case err of
               None \<Rightarrow> drv_next_row_into (replay_driver L) c = ((Inr False, []), c') \<and>
                 live_cursor c' = Some (AfterRows rest)
             | Some e \<Rightarrow> drv_next_row_into (replay_driver L) c = ((Inl e, []), c'))"
      using c by (cases rows; cases err) (simp_all add: replay_driver_def live_cursor_def)
    show "\<exists>c'. case rows of
           calls # rows' \<Rightarrow> drv_next_row (replay_driver L) c = (Inr (Some (written_values L calls)), c') \<and>
             live_cursor c' = Some (OnRows md rows' err rest)
         | [] \<Rightarrow> (case err of
               None \<Rightarrow> drv_next_row (replay_driver L) c = (Inr None, c') \<and>
                 live_cursor c' = Some (AfterRows rest)
             | Some e \<Rightarrow> drv_next_row (replay_driver L) c = (Inl e, c'))"
      using c by (cases rows; cases err) (simp_all add: replay_driver_def live_cursor_def)
  qed (auto simp: replay_driver_def live_cursor_def rest split: prod.splits if_splits)
qed

definition replay_start :: "reply list list \<Rightarrow> replay" where
  "replay_start answers =
     \<lparr>rp_dead = False, rp_answers = answers, rp_cursor = Between [], rp_log = [], rp_returns = []\<rparr>"

end
