(* ===== verification/PreparedModel.thy ===== *)
theory PreparedModel
  imports DriverModel
begin

text \<open>
  \<open>prepared.rs\<close>: the handle of a server-side prepared statement, tied to the session it
  was prepared in by the address of the session's \<open>Arc\<close>, the parameter declaration sent to
  \<open>sp_prepare\<close>, identifier quoting, and the preparation itself.
\<close>

section \<open>Declarations\<close>

record prepared_statement =
  ps_handle :: i32
  ps_sql :: string
  ps_session :: nat

definition prepared_new :: "i32 \<Rightarrow> string \<Rightarrow> nat \<Rightarrow> prepared_statement" where
  "prepared_new h sql session = \<lparr>ps_handle = h, ps_sql = sql, ps_session = session\<rparr>"

definition validate_session :: "prepared_statement \<Rightarrow> nat \<Rightarrow> error + unit" where
  "validate_session stmt session =
     (if ps_session stmt = session then Inr () else Inl InvalidPreparedStatement)"

definition handle_parameter :: "prepared_statement \<Rightarrow> rpc_parameter list" where
  "handle_parameter stmt =
     [\<lparr>rp_name = None, rp_flags = FLAGS_NONE, rp_value = ST_Int (Some (ps_handle stmt))\<rparr>]"

definition prepared_handle :: "prepared_statement \<Rightarrow> i32" where
  "prepared_handle stmt = ps_handle stmt"

definition prepared_sql :: "prepared_statement \<Rightarrow> string" where
  "prepared_sql stmt = ps_sql stmt"

text \<open>\<open>identifier.replace(']', "]]")\<close>.\<close>

fun double_brackets :: "string \<Rightarrow> string" where
  "double_brackets [] = []"
| "double_brackets (c # cs) = (if c = CHR '']'' then '']]'' else [c]) @ double_brackets cs"

definition quote_identifier :: "string \<Rightarrow> string" where
  "quote_identifier identifier = ''['' @ double_brackets identifier @ '']''"

definition nonempty_part :: "string option \<Rightarrow> string option" where
  "nonempty_part part = (case part of None \<Rightarrow> None | Some s \<Rightarrow> if s = [] then None else Some s)"

definition udt_declaration :: "udt_type_name \<Rightarrow> string" where
  "udt_declaration name =
     (let db_name = nonempty_part (udt_db_name name);
          schema_name = nonempty_part (udt_schema_name name);
          parts1 = (case db_name of Some d \<Rightarrow> [quote_identifier d] | None \<Rightarrow> []);
          parts2 = (case schema_name of
                      Some s \<Rightarrow> [quote_identifier s]
                    | None \<Rightarrow> if db_name \<noteq> None then [[]] else [])
      in join ''.'' (parts1 @ parts2 @ [quote_identifier (udt_name name)]))"

text \<open>The suffix in parentheses; \<open>None\<close> is the arm that returns the bare name.\<close>

fun declaration_suffix :: "sql_type \<Rightarrow> string option" where
  "declaration_suffix (ST_NVarcharMax _) = Some ''MAX''"
| "declaration_suffix (ST_VarcharMax _) = Some ''MAX''"
| "declaration_suffix (ST_VarBinaryMax _) = Some ''MAX''"
| "declaration_suffix (ST_NVarchar _ len) = Some (if 4000 < len then ''MAX'' else show_nat len)"
| "declaration_suffix (ST_Varchar _ len) = Some (if 8000 < len then ''MAX'' else show_nat len)"
| "declaration_suffix (ST_VarBinary _ len) = Some (if 8000 < len then ''MAX'' else show_nat len)"
| "declaration_suffix (ST_Binary _ len) = Some (show_nat len)"
| "declaration_suffix (ST_Char _ len) = Some (show_nat len)"
| "declaration_suffix (ST_NChar _ len) = Some (show_nat len)"
| "declaration_suffix (ST_Decimal parts) =
     Some (case parts of Some p \<Rightarrow> show_nat (unat (dp_precision p)) @ '','' @ show_nat (unat (dp_scale p))
           | None \<Rightarrow> ''18,10'')"
| "declaration_suffix (ST_Numeric parts) =
     Some (case parts of Some p \<Rightarrow> show_nat (unat (dp_precision p)) @ '','' @ show_nat (unat (dp_scale p))
           | None \<Rightarrow> ''18,10'')"
| "declaration_suffix (ST_Time v) =
     Some (show_nat (unat (case v of Some t \<Rightarrow> st_scale t | None \<Rightarrow> DEFAULT_VARTIME_SCALE)))"
| "declaration_suffix (ST_DateTime2 v) =
     Some (show_nat (unat (case v of Some t \<Rightarrow> st_scale (dt2_time t) | None \<Rightarrow> DEFAULT_VARTIME_SCALE)))"
| "declaration_suffix (ST_DateTimeOffset v) =
     Some (show_nat (unat (case v of Some t \<Rightarrow> st_scale (dt2_time (dto_datetime2 t)) | None \<Rightarrow> DEFAULT_VARTIME_SCALE)))"
| "declaration_suffix (ST_Vector _ dimensions BaseFloat32) = Some (show_nat (unat dimensions))"
| "declaration_suffix (ST_Vector _ dimensions BaseFloat16) = Some (show_nat (unat dimensions) @ '', float16'')"
| "declaration_suffix _ = None"

definition sql_declaration :: "tds_lib \<Rightarrow> sql_type \<Rightarrow> error + string" where
  "sql_declaration L value =
     (case value of
        ST_Table name _ \<Rightarrow>
          Inr (quote_identifier (case tvp_schema_name name of Some s \<Rightarrow> s | None \<Rightarrow> ''dbo'') @ ''.'' @
               quote_identifier (tvp_name name) @ '' READONLY'')
      | ST_Udt name _ \<Rightarrow> Inr (udt_declaration name)
      | _ \<Rightarrow>
          and_then (map_err Tds (tds_type_name L value)) (\<lambda>name.
            Inr (case declaration_suffix value of
                   None \<Rightarrow> name
                 | Some suffix \<Rightarrow> name @ ''('' @ suffix @ '')'')))"

text \<open>The lazy \<open>map(..).collect::<Result<Vec<_>>>()\<close>: \<open>None\<close> when a \<open>to_sql\<close> panics.\<close>

fun declarations_from :: "tds_lib \<Rightarrow> nat \<Rightarrow> dyn_to_sql list \<Rightarrow> bool \<Rightarrow> (error + string list) option" where
  "declarations_from L index [] unicode = Some (Inr [])"
| "declarations_from L index (p # ps) unicode =
     (case p of
        None \<Rightarrow> None
      | Some t \<Rightarrow>
          (let value = (case (t, unicode) of
                          (ST_NVarchar v len, False) \<Rightarrow> ST_Varchar v len
                        | (ST_NVarcharMax v, False) \<Rightarrow> ST_VarcharMax v
                        | (v, _) \<Rightarrow> v)
           in case sql_declaration L value of
                Inl e \<Rightarrow> Some (Inl e)
              | Inr d \<Rightarrow>
                  (case declarations_from L (index + 1) ps unicode of
                     None \<Rightarrow> None
                   | Some (Inl e) \<Rightarrow> Some (Inl e)
                   | Some (Inr ds) \<Rightarrow>
                       Some (Inr ((''@P'' @ show_nat (index + 1) @ '' '' @ d) # ds)))))"

definition parameter_declaration :: "tds_lib \<Rightarrow> dyn_to_sql list \<Rightarrow> bool \<Rightarrow> (error + string) option" where
  "parameter_declaration L params unicode =
     map_option (map_ok (join '', '')) (declarations_from L 0 params unicode)"

section \<open>Preparation\<close>

text \<open>\<open>while client.advance_to_rows().await? {}\<close>\<close>

partial_function (option) drain_to_end ::
    "'c driver \<Rightarrow> 'c world \<Rightarrow> ((error + unit) outcome \<times> 'c world) option" where
  "drain_to_end D w =
     io_try (await_tds D (drv_advance_to_rows D))
       (\<lambda>more w'. if more then drain_to_end D w' else io_ret (Inr ()) w') w"

definition prepared_from_returns ::
    "column_values list \<Rightarrow> string \<Rightarrow> nat \<Rightarrow> error + prepared_statement" where
  "prepared_from_returns vs sql session =
     (case vs of
        [value] \<Rightarrow>
          (case value of
             CV_Int h \<Rightarrow> Inr (prepared_new h sql session)
           | _ \<Rightarrow> Inl (Tds (ProtocolError ''sp_prepare did not return an integer handle'')))
      | _ \<Rightarrow> Inl (Tds (ProtocolError ''sp_prepare did not return exactly one output parameter'')))"

definition prepare_parameters :: "tds_lib \<Rightarrow> string \<Rightarrow> string \<Rightarrow> rpc_parameter list" where
  "prepare_parameters L declaration sql =
     [\<lparr>rp_name = None, rp_flags = BY_REF_VALUE, rp_value = ST_Int None\<rparr>,
      \<lparr>rp_name = None, rp_flags = FLAGS_NONE,
       rp_value = ST_NVarcharMax (Some (sqlstr_from_utf8 L declaration))\<rparr>,
      \<lparr>rp_name = None, rp_flags = FLAGS_NONE,
       rp_value = ST_NVarcharMax (Some (sqlstr_from_utf8 L sql))\<rparr>]"

definition prepared_prepare ::
    "'c driver \<Rightarrow> tds_lib \<Rightarrow> string \<Rightarrow> dyn_to_sql list \<Rightarrow> bool \<Rightarrow> nat \<Rightarrow> ('c, error + prepared_statement) io" where
  "prepared_prepare D L sql param_types unicode session =
     (case parameter_declaration L param_types unicode of
        None \<Rightarrow> io_panic
      | Some (Inl e) \<Rightarrow> io_ret (Inl e)
      | Some (Inr declaration) \<Rightarrow>
          io_try (await_tds D (drv_execute_stored_procedure D ''sp_prepare''
                    (Some (prepare_parameters L declaration sql)) None))
            (\<lambda>_. io_try (drain_to_end D)
              (\<lambda>_ w. io_ret (prepared_from_returns (drv_get_return_values D (conn w)) sql session) w)))"

section \<open>Properties\<close>

text \<open>How the server reads a bracketed identifier at the front of a text: up to the first
  bracket that is not doubled.\<close>

fun read_brackets :: "string \<Rightarrow> (string \<times> string) option" where
  "read_brackets [] = None"
| "read_brackets (c # cs) =
     (if c = CHR '']'' then
        (case cs of
           d # ds \<Rightarrow>
             if d = CHR '']'' then map_option (\<lambda>(s, rest). (CHR '']'' # s, rest)) (read_brackets ds)
             else Some ([], cs)
         | [] \<Rightarrow> Some ([], []))
      else map_option (\<lambda>(s, rest). (c # s, rest)) (read_brackets cs))"

fun read_identifier :: "string \<Rightarrow> (string \<times> string) option" where
  "read_identifier [] = None"
| "read_identifier (c # cs) = (if c = CHR ''['' then read_brackets cs else None)"

lemma read_double_brackets:
  assumes "\<not> starts_with rest '']''"
  shows "read_brackets (double_brackets s @ '']'' @ rest) = Some (s, rest)"
proof (induction s)
  case Nil
  with assms show ?case by (cases rest) auto
next
  case (Cons c cs)
  then show ?case by auto
qed

text \<open>C38: whatever an identifier contains, the server reads its quoted form back as exactly
  that identifier and continues right after the closing bracket, so a type or schema name
  cannot break out of its brackets into the declaration.\<close>

theorem quote_identifier_reads_back:
  assumes "\<not> starts_with rest '']''"
  shows "read_identifier (quote_identifier s @ rest) = Some (s, rest)"
  using read_double_brackets [OF assms, of s] by (simp add: quote_identifier_def)

theorem quote_identifier_reads_back_witness:
  "read_identifier (quote_identifier ''a]; DROP'' @ ''.[t]'') = Some (''a]; DROP'', ''.[t]'')"
  by (rule quote_identifier_reads_back) simp

lemma encode_match:
  "(case (t, unicode) of
      (ST_NVarchar v len, False) \<Rightarrow> ST_Varchar v len
    | (ST_NVarcharMax v, False) \<Rightarrow> ST_VarcharMax v
    | (v, _) \<Rightarrow> v) = encode_string_parameters t unicode"
  by (cases unicode; cases t) (simp_all add: encode_string_parameters_def)

lemma declarations_build:
  "build_params_from k ps unicode = Some rs \<Longrightarrow>
   declarations_from L k ps unicode =
     Some (collect_ok (map (\<lambda>r. map_ok (\<lambda>d. the (rp_name r) @ '' '' @ d) (sql_declaration L (rp_value r))) rs))"
proof (induction k ps unicode arbitrary: rs rule: build_params_from.induct)
  case (1 i unicode)
  then show ?case by simp
next
  case (2 i p ps unicode)
  from "2.prems" obtain t rest where p: "p = Some t" and rest: "build_params_from (i + 1) ps unicode = Some rest"
    and rs: "rs = \<lparr>rp_name = Some (param_name i), rp_flags = FLAGS_NONE,
                   rp_value = encode_string_parameters t unicode\<rparr> # rest"
    by (auto split: option.splits)
  note IH = "2.IH" [OF p rest]
  show ?case
    by (simp only: p declarations_from.simps option.case encode_match Let_def IH rs list.map collect_ok.simps)
      (auto simp: param_name_def split: sum.splits)
qed

text \<open>C37: the declaration \<open>sp_prepare\<close> receives agrees with the parameters \<open>sp_execute\<close>
  will receive for the same values: same names in the same order, and each declared with
  the type of the value as it will be encoded (\<open>VARCHAR\<close> when string parameters are not
  sent as Unicode).\<close>

theorem declaration_matches_parameters:
  assumes "build_params_with_string_encoding params unicode = Some rs"
  shows "parameter_declaration L params unicode =
    Some (map_ok (join '', '')
      (collect_ok (map (\<lambda>r. map_ok (\<lambda>d. the (rp_name r) @ '' '' @ d) (sql_declaration L (rp_value r))) rs)))"
  using declarations_build assms
  by (simp add: parameter_declaration_def build_params_with_string_encoding_def)

theorem declaration_matches_parameters_witness:
  "parameter_declaration sample_lib [Some (to_sql_i32 7), Some (to_sql_str sample_lib ''x'')] False =
     Some (Inr ''@P1 type, @P2 type(4000)'')"
proof -
  have "show_nat 2 = ''2''" by (simp add: show_nat.simps)
  then have two: "show_nat (Suc (Suc 0)) = ''2''" by (simp add: numeral_2_eq_2)
  have n: "show_nat (Suc 0) = ''1''" "show_nat 2 = ''2''" "show_nat 4000 = ''4000''"
    by (simp_all add: show_nat.simps)
  have "build_params_with_string_encoding [Some (to_sql_i32 7), Some (to_sql_str sample_lib ''x'')] False =
      Some [\<lparr>rp_name = Some ''@P1'', rp_flags = FLAGS_NONE, rp_value = ST_Int (Some 7)\<rparr>,
            \<lparr>rp_name = Some ''@P2'', rp_flags = FLAGS_NONE,
             rp_value = ST_Varchar (Some (sqlstr_from_utf8 sample_lib ''x'')) 4000\<rparr>]"
    by (simp add: build_params_with_string_encoding_def conv_defs encode_string_parameters_def
        param_name_def n two)
  from declaration_matches_parameters [OF this, of sample_lib] show ?thesis
    by (simp add: sql_declaration_def n) (simp add: sample_lib_def n)
qed

end
