(* ===== verification/ClientModel.thy ===== *)
theory ClientModel
  imports PreparedModel
begin

text \<open>
  \<open>client.rs\<close>: the client, its guarded operations, the session reset, and the two loops
  that collect the replies. A client operation is an asynchronous computation over a world
  whose connection is the whole \<open>Client\<close>; the parts that only borrow \<open>inner\<close> run
  over the driver's connection and are lifted by \<open>with_inner\<close>, so the guards wrap exactly
  the code they wrap in the source.
\<close>

section \<open>The client\<close>

record 'c client =
  inner :: 'c
  send_string_parameters_as_unicode :: bool
  prepared_session :: nat

definition with_inner :: "('c, 'a) io \<Rightarrow> ('c client, 'a) io" where
  "with_inner m w =
     (case m \<lparr>conn = inner (conn w), budget = budget w, next_arc = next_arc w\<rparr> of
        None \<Rightarrow> None
      | Some (r, v) \<Rightarrow>
          Some (r, w\<lparr>conn := (conn w)\<lparr>inner := conn v\<rparr>, budget := budget v, next_arc := next_arc v\<rparr>))"

text \<open>Reading a field of \<open>self\<close> before the rest of a method.\<close>

definition reading :: "('c \<Rightarrow> 'x) \<Rightarrow> ('x \<Rightarrow> ('c, 'a) io) \<Rightarrow> ('c, 'a) io" where
  "reading field f w = f (field (conn w)) w"

definition client_is_connection_dead :: "'c driver \<Rightarrow> 'c client \<Rightarrow> bool" where
  "client_is_connection_dead D c \<longleftrightarrow> is_dead (drv_health D) (inner c)"

definition client_ensure_usable :: "'c driver \<Rightarrow> 'c client \<Rightarrow> error + unit" where
  "client_ensure_usable D c = ensure_usable (drv_health D) (inner c)"

definition ping :: "'c driver \<Rightarrow> ('c client, error + unit) io" where
  "ping D w = io_ret (client_ensure_usable D (conn w)) w"

section \<open>Collecting replies\<close>

text \<open>The inner loop of \<open>collect_results\<close>.\<close>

partial_function (option) collect_rows ::
    "'c driver \<Rightarrow> tds_lib \<Rightarrow> bridge_row_writer \<Rightarrow> row list \<Rightarrow> 'c world
       \<Rightarrow> ((error + row list) outcome \<times> 'c world) option" where
  "collect_rows D L writer rows w =
     io_try (await_next_row_into D L writer)
       (\<lambda>res w'. if fst res
                 then collect_rows D L (snd (take_row (snd res))) (rows @ [fst (take_row (snd res))]) w'
                 else io_ret (Inr rows) w') w"

text \<open>\<open>inner.on_rows() || inner.advance_to_rows().await?\<close>\<close>

definition positioned :: "'c driver \<Rightarrow> ('c, error + bool) io" where
  "positioned D w =
     (if drv_on_rows D (conn w) then io_ret (Inr True) w
      else await_tds D (drv_advance_to_rows D) w)"

definition new_schema :: "'c driver \<Rightarrow> ('c, arc_schema) io" where
  "new_schema D w =
     io_bind io_new_arc
       (\<lambda>p w'. io_ret \<lparr>arc_ptr = p, pointee = row_schema_from_metadata (drv_get_metadata D (conn w'))\<rparr> w') w"

partial_function (option) collect_sets ::
    "'c driver \<Rightarrow> tds_lib \<Rightarrow> row list list \<Rightarrow> nat \<Rightarrow> 'c world
       \<Rightarrow> ((error + query_result) outcome \<times> 'c world) option" where
  "collect_sets D L sets index w =
     io_try (positioned D)
       (\<lambda>on w1.
          if \<not> on then io_ret (Inr \<lparr>result_sets = sets\<rparr>) w1
          else io_bind (new_schema D) (\<lambda>s w2.
            io_try (collect_rows D L (with_result_index s index) [])
              (\<lambda>rows w3. io_try (await_tds D (drv_advance_to_rows D))
                (\<lambda>more w4. if more then collect_sets D L (sets @ [rows]) (index + 1) w4
                           else io_ret (Inr \<lparr>result_sets = sets @ [rows]\<rparr>) w4) w3) w2) w1) w"

definition collect_results :: "'c driver \<Rightarrow> tds_lib \<Rightarrow> ('c, error + query_result) io" where
  "collect_results D L w = collect_sets D L [] 0 w"

partial_function (option) count_rows ::
    "'c driver \<Rightarrow> u64 \<Rightarrow> 'c world \<Rightarrow> ((error + u64) outcome \<times> 'c world) option" where
  "count_rows D count w =
     io_try (await_tds D (drv_next_row D))
       (\<lambda>r w'. if r \<noteq> None then count_rows D (count + 1) w' else io_ret (Inr count) w') w"

text \<open>One turn of the loop of \<open>collect_execute_results\<close>: the counts it appends, or the end.\<close>

definition count_statement :: "'c driver \<Rightarrow> statement_result \<Rightarrow> ('c, error + u64 list option) io" where
  "count_statement D result =
     (case result of
        Rows \<Rightarrow> io_try (count_rows D 0) (\<lambda>n. io_ret (Inr (Some [n])))
      | NoRows affected \<Rightarrow>
          io_ret (Inr (Some (case affected of Some n \<Rightarrow> [n] | None \<Rightarrow> [])))
      | End \<Rightarrow> io_ret (Inr None))"

partial_function (option) collect_counts ::
    "'c driver \<Rightarrow> statement_result \<Rightarrow> u64 list \<Rightarrow> 'c world
       \<Rightarrow> ((error + execute_result) outcome \<times> 'c world) option" where
  "collect_counts D result cs w =
     io_try (count_statement D result)
       (\<lambda>c w1. if c = None then io_ret (Inr \<lparr>counts = cs\<rparr>) w1
               else io_try (await_tds D (drv_advance D))
                      (\<lambda>next w2. collect_counts D next (cs @ the c) w2) w1) w"

definition collect_execute_results ::
    "'c driver \<Rightarrow> statement_result \<Rightarrow> ('c, error + execute_result) io" where
  "collect_execute_results D result w = collect_counts D result [] w"

section \<open>Operations\<close>

definition simple_query :: "'c driver \<Rightarrow> tds_lib \<Rightarrow> string \<Rightarrow> ('c client, error + query_result) io" where
  [client_defs]: "simple_query D L sql =
     with_inner (guarded (drv_health D)
       (io_try (await_tds D (drv_close_query D))
         (\<lambda>_. io_try (await_tds D (drv_execute D sql))
           (\<lambda>_. collect_results D L))))"

text \<open>\<open>query\<close> builds its parameters before the guard exists.\<close>

definition client_query ::
    "'c driver \<Rightarrow> tds_lib \<Rightarrow> string \<Rightarrow> dyn_to_sql list \<Rightarrow> ('c client, error + query_result) io" where
  [client_defs]: "client_query D L sql params =
     (if params = [] then simple_query D L sql
      else reading send_string_parameters_as_unicode (\<lambda>unicode.
        case build_params_with_string_encoding params unicode of
          None \<Rightarrow> io_panic
        | Some rpc_params \<Rightarrow>
            with_inner (guarded (drv_health D)
              (io_try (await_tds D (drv_close_query D))
                (\<lambda>_. io_try (await_tds D (drv_execute_sp_executesql D sql rpc_params))
                  (\<lambda>_. collect_results D L))))))"

text \<open>\<open>execute\<close> builds them inside the guarded block.\<close>

definition client_execute ::
    "'c driver \<Rightarrow> string \<Rightarrow> dyn_to_sql list \<Rightarrow> ('c client, error + execute_result) io" where
  [client_defs]: "client_execute D sql params =
     reading send_string_parameters_as_unicode (\<lambda>unicode.
       with_inner (guarded (drv_health D)
         (io_try (await_tds D (drv_close_query D))
           (\<lambda>_. io_try
             (if params = [] then await_tds D (drv_execute D sql)
              else case build_params_with_string_encoding params unicode of
                     None \<Rightarrow> io_panic
                   | Some rpc_params \<Rightarrow> await_tds D (drv_execute_sp_executesql D sql rpc_params))
             (\<lambda>result. collect_execute_results D result)))))"

text \<open>\<open>SessionReset\<close>: dropped before \<open>complete\<close> is set, it marks the connection.\<close>

definition session_reset_scope :: "'c driver \<Rightarrow> ('c, error + unit) io \<Rightarrow> ('c, error + unit) io" where
  "session_reset_scope D body w =
     (case body w of
        None \<Rightarrow> None
      | Some (r, w') \<Rightarrow>
          (let complete = (r = Ret (Inr ()))
           in Some (r, if complete then w' else w'\<lparr>conn := mark_dead (drv_health D) (conn w')\<rparr>)))"

definition reset_sql :: string where
  "reset_sql = ''SET TRANSACTION ISOLATION LEVEL READ COMMITTED''"

definition reset_body :: "'c driver \<Rightarrow> ('c, error + unit) io" where
  "reset_body D =
     io_try (await_tds D (drv_close_query D))
       (\<lambda>_. io_bind (io_sync (\<lambda>c. ((), drv_prepare_reset_connection D False c)))
         (\<lambda>_. io_try (await_tds D (drv_execute D reset_sql))
           (\<lambda>_. await_tds D (drv_close_query D))))"

definition reset_session :: "'c driver \<Rightarrow> ('c client, error + unit) io" where
  "reset_session D w =
     (case client_ensure_usable D (conn w) of
        Inl e \<Rightarrow> io_ret (Inl e) w
      | Inr _ \<Rightarrow>
          io_bind io_new_arc
            (\<lambda>p w1. io_bind (io_sync (\<lambda>c. ((), c\<lparr>prepared_session := p\<rparr>)))
              (\<lambda>_. with_inner (session_reset_scope D (reset_body D))) w1) w)"

definition client_prepare ::
    "'c driver \<Rightarrow> tds_lib \<Rightarrow> string \<Rightarrow> dyn_to_sql list \<Rightarrow> ('c client, error + prepared_statement) io" where
  [client_defs]: "client_prepare D L sql param_types =
     reading send_string_parameters_as_unicode (\<lambda>unicode. reading prepared_session (\<lambda>session.
       with_inner (guarded (drv_health D)
         (io_try (await_tds D (drv_close_query D))
           (\<lambda>_. prepared_prepare D L sql param_types unicode session)))))"

text \<open>The parameters of \<open>sp_execute\<close>: \<open>None\<close> outside is a panic, inside no parameters.\<close>

definition prepared_params :: "dyn_to_sql list \<Rightarrow> bool \<Rightarrow> rpc_parameter list option option" where
  "prepared_params params unicode =
     (if params = [] then Some None
      else map_option Some (build_params_with_string_encoding params unicode))"

text \<open>The checks before the guard of the three operations on a prepared statement.\<close>

definition with_statement ::
    "'c driver \<Rightarrow> prepared_statement \<Rightarrow> ('c client, error + 'a) io \<Rightarrow> ('c client, error + 'a) io" where
  "with_statement D stmt m w =
     (case client_ensure_usable D (conn w) of
        Inl e \<Rightarrow> io_ret (Inl e) w
      | Inr _ \<Rightarrow>
          (case validate_session stmt (prepared_session (conn w)) of
             Inl e \<Rightarrow> io_ret (Inl e) w
           | Inr _ \<Rightarrow> m w))"

definition query_prepared ::
    "'c driver \<Rightarrow> tds_lib \<Rightarrow> prepared_statement \<Rightarrow> dyn_to_sql list \<Rightarrow> ('c client, error + query_result) io" where
  [client_defs]: "query_prepared D L stmt params =
     with_statement D stmt (reading send_string_parameters_as_unicode (\<lambda>unicode.
       case prepared_params params unicode of
         None \<Rightarrow> io_panic
       | Some rpc_params \<Rightarrow>
           with_inner (guarded (drv_health D)
             (io_try (await_tds D (drv_close_query D))
               (\<lambda>_. io_try (await_tds D (drv_execute_stored_procedure D ''sp_execute''
                        (Some (handle_parameter stmt)) rpc_params))
                 (\<lambda>_. collect_results D L))))))"

definition execute_prepared ::
    "'c driver \<Rightarrow> prepared_statement \<Rightarrow> dyn_to_sql list \<Rightarrow> ('c client, error + execute_result) io" where
  [client_defs]: "execute_prepared D stmt params =
     with_statement D stmt (reading send_string_parameters_as_unicode (\<lambda>unicode.
       case prepared_params params unicode of
         None \<Rightarrow> io_panic
       | Some rpc_params \<Rightarrow>
           with_inner (guarded (drv_health D)
             (io_try (await_tds D (drv_close_query D))
               (\<lambda>_. io_try (await_tds D (drv_execute_stored_procedure D ''sp_execute''
                        (Some (handle_parameter stmt)) rpc_params))
                 (\<lambda>result. collect_execute_results D result))))))"

definition unprepare :: "'c driver \<Rightarrow> prepared_statement \<Rightarrow> ('c client, error + unit) io" where
  [client_defs]: "unprepare D stmt =
     with_statement D stmt
       (with_inner (guarded (drv_health D)
         (io_try (await_tds D (drv_close_query D))
           (\<lambda>_. io_try (await_tds D (drv_execute_stored_procedure D ''sp_unprepare''
                    (Some (handle_parameter stmt)) None))
             (\<lambda>_. await_tds D (drv_close_query D))))))"

text \<open>\<open>PreparedStatement::query\<close>, \<open>execute\<close> and \<open>close\<close> delegate.\<close>

definition stmt_query ::
    "'c driver \<Rightarrow> tds_lib \<Rightarrow> prepared_statement \<Rightarrow> dyn_to_sql list \<Rightarrow> ('c client, error + query_result) io" where
  "stmt_query D L stmt params = query_prepared D L stmt params"

definition stmt_execute ::
    "'c driver \<Rightarrow> prepared_statement \<Rightarrow> dyn_to_sql list \<Rightarrow> ('c client, error + execute_result) io" where
  "stmt_execute D stmt params = execute_prepared D stmt params"

definition stmt_close :: "'c driver \<Rightarrow> prepared_statement \<Rightarrow> ('c client, error + unit) io" where
  "stmt_close D stmt = unprepare D stmt"

text \<open>\<open>inner_mut\<close> lends the driver's connection: what the borrower does through it is \<open>f\<close>, with
  no guard and no check.\<close>

definition inner_mut :: "('c \<Rightarrow> 'a \<times> 'c) \<Rightarrow> 'c client \<Rightarrow> 'a \<times> 'c client" where
  "inner_mut f c = (case f (inner c) of (a, i) \<Rightarrow> (a, c\<lparr>inner := i\<rparr>))"

definition advance_stream :: "'c driver \<Rightarrow> ('c, error + bool) io" where
  "advance_stream D = guarded (drv_health D) (await_tds D (drv_advance_to_rows D))"

section \<open>Interruption\<close>

lemma health_law_connection: "health_law D \<Longrightarrow> connection_health (drv_health D)"
  by (simp add: health_law_def connection_health_def)

lemma with_inner_Some:
  "with_inner m w = Some (r, w') \<longleftrightarrow>
     (\<exists>v. m \<lparr>conn = inner (conn w), budget = budget w, next_arc = next_arc w\<rparr> = Some (r, v) \<and>
          w' = w\<lparr>conn := (conn w)\<lparr>inner := conn v\<rparr>, budget := budget v, next_arc := next_arc v\<rparr>)"
  by (auto simp: with_inner_def split: option.splits prod.splits)

lemma with_inner_None:
  "with_inner m w = None \<longleftrightarrow>
     m \<lparr>conn = inner (conn w), budget = budget w, next_arc = next_arc w\<rparr> = None"
  by (auto simp: with_inner_def split: option.splits prod.splits)

lemma guarded_client_interrupted:
  assumes "health_law D" and "with_inner (guarded (drv_health D) body) w = Some (r, w')"
    and "r = Dropped \<or> r = Panicked"
  shows "client_is_connection_dead D (conn w')"
  using assms(2) connection_health.interrupted_is_dead [OF health_law_connection [OF assms(1)] _ assms(3)]
  by (auto simp: with_inner_Some client_is_connection_dead_def)

lemma guarded_client_dead:
  assumes "client_is_connection_dead D (conn w)"
  shows "with_inner (guarded (drv_health D) body) w = Some (Ret (Inl dead_error), w)"
  using assms by (simp add: with_inner_def client_is_connection_dead_def guarded_dead)

lemma with_statement_dead:
  assumes "client_is_connection_dead D (conn w)"
  shows "with_statement D stmt m w = Some (Ret (Inl dead_error), w)"
  using assms
  by (simp add: with_statement_def client_ensure_usable_def ensure_usable_def client_is_connection_dead_def)

lemma with_statement_cases:
  assumes "with_statement D stmt m w = Some (r, w')"
  obtains
    (rejected) e where "r = Ret (Inl e)" "w' = w"
  | (accepted) "m w = Some (r, w')" "ps_session stmt = prepared_session (conn w)"
      "\<not> client_is_connection_dead D (conn w)"
  using assms
  by (auto simp: with_statement_def validate_session_def client_ensure_usable_def ensure_usable_def
      client_is_connection_dead_def split: sum.splits if_splits)

text \<open>A failed or interrupted scope marks the connection, a completed one leaves it.\<close>

lemma session_reset_scope_Some:
  "session_reset_scope D body w = Some (r, w') \<longleftrightarrow>
     (\<exists>v. body w = Some (r, v) \<and>
       w' = (if r = Ret (Inr ()) then v else v\<lparr>conn := mark_dead (drv_health D) (conn v)\<rparr>))"
  by (auto simp: session_reset_scope_def Let_def split: option.splits prod.splits)

lemma reset_session_cases:
  assumes "reset_session D w = Some (r, w')"
  obtains
    (rejected) "client_is_connection_dead D (conn w)" "r = Ret (Inl dead_error)" "w' = w"
  | (ran) v where "\<not> client_is_connection_dead D (conn w)"
      "reset_body D \<lparr>conn = inner (conn w), budget = budget w, next_arc = Suc (next_arc w)\<rparr> = Some (r, v)"
      "w' = w\<lparr>conn := (conn w)\<lparr>inner := (if r = Ret (Inr ()) then conn v
                                          else mark_dead (drv_health D) (conn v)),
                                prepared_session := next_arc w\<rparr>,
              budget := budget v, next_arc := next_arc v\<rparr>"
proof (cases "client_is_connection_dead D (conn w)")
  case True
  with assms show ?thesis
    by (intro rejected)
      (simp_all add: reset_session_def client_ensure_usable_def ensure_usable_def client_is_connection_dead_def)
next
  case False
  with assms obtain u where
    u: "session_reset_scope D (reset_body D)
          \<lparr>conn = inner (conn w), budget = budget w, next_arc = Suc (next_arc w)\<rparr> = Some (r, u)"
    and w': "w' = w\<lparr>conn := (conn w)\<lparr>prepared_session := next_arc w, inner := conn u\<rparr>,
                     budget := budget u, next_arc := next_arc u\<rparr>"
    by (auto simp: reset_session_def client_ensure_usable_def ensure_usable_def
        client_is_connection_dead_def io_new_arc_def io_sync_def io_bind_def with_inner_Some)
  from u obtain v where
    "reset_body D \<lparr>conn = inner (conn w), budget = budget w, next_arc = Suc (next_arc w)\<rparr> = Some (r, v)"
    "u = (if r = Ret (Inr ()) then v else v\<lparr>conn := mark_dead (drv_health D) (conn v)\<rparr>)"
    unfolding session_reset_scope_Some by blast
  with False w' show ?thesis by (intro ran) auto
qed

text \<open>One call of the client, with its result in a common type.\<close>

datatype client_call =
    C_ping | C_reset
  | C_simple_query string
  | C_query string "dyn_to_sql list"
  | C_execute string "dyn_to_sql list"
  | C_prepare string "dyn_to_sql list"
  | C_query_prepared prepared_statement "dyn_to_sql list"
  | C_execute_prepared prepared_statement "dyn_to_sql list"
  | C_unprepare prepared_statement

datatype call_value =
    V_unit | V_query query_result | V_execute execute_result | V_statement prepared_statement

definition io_map :: "('a \<Rightarrow> 'b) \<Rightarrow> ('c, error + 'a) io \<Rightarrow> ('c, error + 'b) io" where
  "io_map f m w = map_option (map_prod (map_outcome (map_ok f)) id) (m w)"

fun run_call :: "'c driver \<Rightarrow> tds_lib \<Rightarrow> client_call \<Rightarrow> ('c client, error + call_value) io" where
  "run_call D L C_ping = io_map (\<lambda>_. V_unit) (ping D)"
| "run_call D L C_reset = io_map (\<lambda>_. V_unit) (reset_session D)"
| "run_call D L (C_simple_query sql) = io_map V_query (simple_query D L sql)"
| "run_call D L (C_query sql params) = io_map V_query (client_query D L sql params)"
| "run_call D L (C_execute sql params) = io_map V_execute (client_execute D sql params)"
| "run_call D L (C_prepare sql params) = io_map V_statement (client_prepare D L sql params)"
| "run_call D L (C_query_prepared stmt params) = io_map V_query (query_prepared D L stmt params)"
| "run_call D L (C_execute_prepared stmt params) = io_map V_execute (execute_prepared D stmt params)"
| "run_call D L (C_unprepare stmt) = io_map (\<lambda>_. V_unit) (unprepare D stmt)"

lemma map_outcome_interrupted [simp]:
  "map_outcome f r = Dropped \<longleftrightarrow> r = Dropped" "map_outcome f r = Panicked \<longleftrightarrow> r = Panicked"
  by (cases r; simp)+

lemma io_map_Some:
  "io_map f m w = Some (r, w') \<longleftrightarrow> (\<exists>r'. m w = Some (r', w') \<and> r = map_outcome (map_ok f) r')"
  by (auto simp: io_map_def)

lemma io_map_None: "io_map f m w = None \<longleftrightarrow> m w = None"
  by (simp add: io_map_def)

text \<open>A computation that, when its future is dropped, leaves a dead client.\<close>

definition drop_poisons :: "'c driver \<Rightarrow> ('c client, 'a) io \<Rightarrow> bool" where
  "drop_poisons D m \<longleftrightarrow>
     (\<forall>w w'. m w = Some (Dropped, w') \<longrightarrow> client_is_connection_dead D (conn w'))"

lemma drop_poisons_map: "drop_poisons D m \<Longrightarrow> drop_poisons D (io_map f m)"
  unfolding drop_poisons_def io_map_Some by (metis map_outcome_interrupted(1))

lemma drop_poisons_guarded:
  "health_law D \<Longrightarrow> drop_poisons D (with_inner (guarded (drv_health D) body))"
  unfolding drop_poisons_def using guarded_client_interrupted by blast

lemma drop_poisons_statement: "drop_poisons D m \<Longrightarrow> drop_poisons D (with_statement D stmt m)"
  unfolding drop_poisons_def by (auto elim!: with_statement_cases)

lemma drop_poisons_reading: "(\<And>x. drop_poisons D (f x)) \<Longrightarrow> drop_poisons D (reading g f)"
  by (simp add: drop_poisons_def reading_def)

lemma drop_poisons_panic: "drop_poisons D io_panic"
  by (simp add: drop_poisons_def io_panic_def)

lemma drop_poisons_client_query:
  "health_law D \<Longrightarrow> drop_poisons D (client_query D L sql params)"
  by (auto simp: client_query_def simple_query_def split: option.splits
      intro!: drop_poisons_guarded drop_poisons_reading drop_poisons_panic)

lemma drop_poisons_ops:
  assumes "health_law D"
  shows "drop_poisons D (simple_query D L sql)" "drop_poisons D (client_execute D sql params)"
    "drop_poisons D (client_prepare D L sql params)" "drop_poisons D (query_prepared D L stmt params)"
    "drop_poisons D (execute_prepared D stmt params)" "drop_poisons D (unprepare D stmt)"
    "drop_poisons D (ping D)"
  unfolding simple_query_def client_execute_def client_prepare_def query_prepared_def
    execute_prepared_def unprepare_def
  by (auto split: option.splits
      intro!: drop_poisons_guarded assms drop_poisons_reading drop_poisons_statement drop_poisons_panic)
    (simp add: drop_poisons_def ping_def)

lemma drop_poisons_reset:
  assumes "health_law D"
  shows "drop_poisons D (reset_session D)"
  unfolding drop_poisons_def
  using assms by (auto elim!: reset_session_cases simp: client_is_connection_dead_def health_law_def)

text \<open>C1: dropping the future of any client operation at any of its awaits leaves the
  connection marked dead: queries, statements, preparation, execution of prepared
  statements, \<open>unprepare\<close> and \<open>reset_session\<close>. A cancelled client is never handed
  on with a half-read reply.\<close>

theorem cancellation_poisons_client:
  assumes "health_law D" and "run_call D L call w = Some (Dropped, w')"
  shows "client_is_connection_dead D (conn w')"
proof -
  have "drop_poisons D (run_call D L call)"
    using drop_poisons_ops [OF assms(1)] drop_poisons_reset [OF assms(1)] drop_poisons_client_query [OF assms(1)]
    by (cases call) (simp_all add: drop_poisons_map)
  with assms(2) show ?thesis unfolding drop_poisons_def by blast
qed

definition sample_client :: "reply list list \<Rightarrow> replay client" where
  "sample_client answers =
     \<lparr>inner = replay_start answers, send_string_parameters_as_unicode = True, prepared_session = 0\<rparr>"

definition sample_world :: "nat option \<Rightarrow> reply list list \<Rightarrow> replay client world" where
  "sample_world b answers = \<lparr>conn = sample_client answers, budget = b, next_arc = 1\<rparr>"

lemmas sample_defs =
  sample_world_def sample_client_def replay_start_def with_inner_def guarded_alive guard_defs
  await_tds_def io_await_def io_try_def io_bind_def

theorem cancellation_poisons_client_witness:
  "case run_call (replay_driver sample_lib) sample_lib (C_simple_query ''SELECT 1'') (sample_world (Some 0) []) of
     Some (Dropped, w') \<Rightarrow> client_is_connection_dead (replay_driver sample_lib) (conn w')
   | _ \<Rightarrow> False"
proof -
  let ?D = "replay_driver sample_lib"
  let ?run = "run_call ?D sample_lib (C_simple_query ''SELECT 1'') (sample_world (Some 0) [])"
  obtain w' where w': "?run = Some (Dropped, w')"
    by (simp add: io_map_def simple_query_def sample_defs replay_driver_def)
  from cancellation_poisons_client [OF replay_health_law this] w' show ?thesis by simp
qed

text \<open>C18: a client whose connection is known dead does no I/O in any operation: every
  operation fails with \<open>ConnectionClosed\<close> and leaves the client as it was; only a parameter
  list that panics while it is built, before the guard, panics instead.\<close>

theorem dead_client_rejects:
  assumes "client_is_connection_dead D (conn w)"
  shows "run_call D L call w = Some (Ret (Inl dead_error), w) \<or>
    (\<exists>sql params. call = C_query sql params \<and> params \<noteq> [] \<and>
       build_params_with_string_encoding params (send_string_parameters_as_unicode (conn w)) = None \<and>
       run_call D L call w = Some (Panicked, w))"
proof -
  note dead = guarded_client_dead [OF assms] with_statement_dead [OF assms]
  have usable: "client_ensure_usable D (conn w) = Inl dead_error"
    using assms by (simp add: client_ensure_usable_def ensure_usable_def client_is_connection_dead_def)
  show ?thesis
    by (cases call)
      (auto simp: io_map_def dead usable client_defs reading_def ping_def reset_session_def io_panic_def split: option.splits)
qed

theorem dead_client_rejects_witness:
  "run_call (replay_driver sample_lib) sample_lib C_reset
     (sample_world None []\<lparr>conn := sample_client []\<lparr>inner := replay_start []\<lparr>rp_dead := True\<rparr>\<rparr>\<rparr>)
   = Some (Ret (Inl dead_error),
       sample_world None []\<lparr>conn := sample_client []\<lparr>inner := replay_start []\<lparr>rp_dead := True\<rparr>\<rparr>\<rparr>)"
  using dead_client_rejects [of "replay_driver sample_lib"
      "sample_world None []\<lparr>conn := sample_client []\<lparr>inner := replay_start []\<lparr>rp_dead := True\<rparr>\<rparr>\<rparr>"
      sample_lib C_reset]
  by (simp add: client_is_connection_dead_def replay_driver_def replay_start_def sample_client_def)


section \<open>Reset\<close>

lemma await_tds_done:
  assumes "await_tds D f w = Some (Ret (Inr a), w')"
  shows "f (conn w) = (Inr a, conn w')"
proof -
  obtain r c' where f: "f (conn w) = (r, c')" by fastforce
  with assms show ?thesis
    by (auto simp: await_tds_def io_await_def split: option.splits nat.splits)
qed

lemma reset_body_done:
  assumes "reset_body D w = Some (Ret (Inr ()), v)"
  obtains c1 res c2 where "drv_close_query D (conn w) = (Inr (), c1)"
    "drv_execute D reset_sql (drv_prepare_reset_connection D False c1) = (Inr res, c2)"
    "drv_close_query D c2 = (Inr (), conn v)"
proof -
  from assms obtain w1 where
    1: "await_tds D (drv_close_query D) w = Some (Ret (Inr ()), w1)"
    and "io_bind (io_sync (\<lambda>c. ((), drv_prepare_reset_connection D False c)))
         (\<lambda>_. io_try (await_tds D (drv_execute D reset_sql))
           (\<lambda>_. await_tds D (drv_close_query D))) w1 = Some (Ret (Inr ()), v)"
    unfolding reset_body_def io_try_Inr_conv by auto
  then have "io_try (await_tds D (drv_execute D reset_sql)) (\<lambda>_. await_tds D (drv_close_query D))
      (w1\<lparr>conn := drv_prepare_reset_connection D False (conn w1)\<rparr>) = Some (Ret (Inr ()), v)"
    by (simp add: io_bind_def io_sync_def)
  then obtain res w2 where
    2: "await_tds D (drv_execute D reset_sql) (w1\<lparr>conn := drv_prepare_reset_connection D False (conn w1)\<rparr>)
          = Some (Ret (Inr res), w2)"
    and 3: "await_tds D (drv_close_query D) w2 = Some (Ret (Inr ()), v)"
    unfolding io_try_Inr_conv by blast
  show thesis
    using that await_tds_done [OF 1] await_tds_done [OF 2] await_tds_done [OF 3] by simp
qed

lemma reset_facts:
  assumes "health_law D" and "reset_session D w = Some (r, w')"
  shows "if r = Ret (Inr ())
    then prepared_session (conn w') = next_arc w \<and>
      (\<exists>c1 res c2. drv_close_query D (inner (conn w)) = (Inr (), c1) \<and>
         drv_execute D ''SET TRANSACTION ISOLATION LEVEL READ COMMITTED''
           (drv_prepare_reset_connection D False c1) = (Inr res, c2) \<and>
         drv_close_query D c2 = (Inr (), inner (conn w')))
    else client_is_connection_dead D (conn w')"
  using assms(2)
proof (cases rule: reset_session_cases)
  case rejected
  then show ?thesis by simp
next
  case (ran v)
  show ?thesis
  proof (cases "r = Ret (Inr ())")
    case True
    with ran(2) obtain c1 res c2 where "drv_close_query D (inner (conn w)) = (Inr (), c1)"
      "drv_execute D reset_sql (drv_prepare_reset_connection D False c1) = (Inr res, c2)"
      "drv_close_query D c2 = (Inr (), conn v)"
      by (auto elim: reset_body_done)
    with True ran(3) show ?thesis by (auto simp: reset_sql_def)
  next
    case False
    with ran assms(1) show ?thesis by (simp add: client_is_connection_dead_def health_law_def)
  qed
qed

text \<open>C14: the outcome of \<open>reset_session\<close>. Success means the outstanding reply was drained,
  the reset flag was set before the batch that restores the isolation level, and that batch
  was drained too, in this order and with nothing else; the session identity is then fresh.
  Any other ending, an error of any of the three calls, a cancellation or a panic, leaves the
  connection marked dead.\<close>

theorem reset_outcome:
  assumes "health_law D" and "reset_session D w = Some (r, w')"
  shows "if r = Ret (Inr ())
    then prepared_session (conn w') = next_arc w \<and>
      (\<exists>c1 res c2. drv_close_query D (inner (conn w)) = (Inr (), c1) \<and>
         drv_execute D ''SET TRANSACTION ISOLATION LEVEL READ COMMITTED''
           (drv_prepare_reset_connection D False c1) = (Inr res, c2) \<and>
         drv_close_query D c2 = (Inr (), inner (conn w')))
    else client_is_connection_dead D (conn w')"
  by (rule reset_facts [OF assms])

theorem reset_outcome_witness:
  "case reset_session (replay_driver sample_lib) (sample_world None [[R_norows None]]) of
     Some (r, w') \<Rightarrow> r = Ret (Inr ()) \<and> prepared_session (conn w') = 1
   | None \<Rightarrow> False"
proof -
  let ?D = "replay_driver sample_lib"
  obtain w' where w': "reset_session ?D (sample_world None [[R_norows None]]) = Some (Ret (Inr ()), w')"
    by (simp add: reset_session_def client_ensure_usable_def io_new_arc_def io_sync_def sample_defs
        session_reset_scope_def reset_body_def replay_driver_def replay_request_def)
  from reset_outcome [OF replay_health_law this] w' show ?thesis
    by (simp add: sample_world_def)
qed

section \<open>Panicking parameters\<close>

text \<open>A parameter whose \<open>to_sql\<close> panics, such as a date SQL Server cannot represent,
  unwinds from \<open>query\<close> before any guard exists and leaves a live client untouched, but
  from \<open>execute\<close> it unwinds inside the guarded block, after the previous reply was
  drained, and leaves the client dead.\<close>

theorem panicking_parameter:
  assumes "health_law D" and "params \<noteq> []"
    and "build_params_with_string_encoding params (send_string_parameters_as_unicode (conn w)) = None"
    and "\<not> client_is_connection_dead D (conn w)" and "budget w = None"
    and "drv_close_query D (inner (conn w)) = (Inr (), c')"
  shows "client_query D L sql params w = Some (Panicked, w) \<and>
    (\<exists>w'. client_execute D sql params w = Some (Panicked, w') \<and> client_is_connection_dead D (conn w'))"
proof
  show "client_query D L sql params w = Some (Panicked, w)"
    using assms(2,3) by (simp add: client_query_def reading_def io_panic_def)
  have "client_execute D sql params w =
      Some (Panicked, w\<lparr>conn := (conn w)\<lparr>inner := mark_dead (drv_health D) c'\<rparr>\<rparr>)"
    using assms(2-6)
    by (simp add: client_execute_def reading_def with_inner_def guarded_alive client_is_connection_dead_def
        io_try_def io_bind_def await_tds_def io_panic_def)
  with assms(1) show "\<exists>w'. client_execute D sql params w = Some (Panicked, w') \<and>
      client_is_connection_dead D (conn w')"
    by (simp add: client_is_connection_dead_def health_law_def)
qed

theorem panicking_parameter_witness:
  "client_query (replay_driver sample_lib) sample_lib ''SELECT @P1'' [None] (sample_world None [])
     = Some (Panicked, sample_world None [])"
proof -
  let ?D = "replay_driver sample_lib"
  obtain c' where c': "drv_close_query ?D (inner (conn (sample_world None []))) = (Inr (), c')"
    by (simp add: replay_driver_def)
  have "\<not> client_is_connection_dead ?D (conn (sample_world None []))"
    by (simp add: client_is_connection_dead_def replay_driver_def sample_defs)
  from panicking_parameter [OF replay_health_law _ _ this _ c'] show ?thesis
    by (simp add: build_params_with_string_encoding_def sample_world_def)
qed

section \<open>Every operation returns or is dropped\<close>

text \<open>With a budget of \<open>n\<close> further awaits a computation ends, with a budget left that is no
  larger, or smaller when it awaited.\<close>

definition ends_at :: "nat \<Rightarrow> ('c, 'a) io \<Rightarrow> bool" where
  "ends_at n m \<longleftrightarrow>
     (\<forall>w. budget w = Some n \<longrightarrow>
        (\<exists>r w'. m w = Some (r, w') \<and> (\<forall>a. r = Ret a \<longrightarrow> (\<exists>k\<le>n. budget w' = Some k))))"

definition awaits_at :: "nat \<Rightarrow> ('c, 'a) io \<Rightarrow> bool" where
  "awaits_at n m \<longleftrightarrow>
     (\<forall>w. budget w = Some n \<longrightarrow>
        (\<exists>r w'. m w = Some (r, w') \<and> (\<forall>a. r = Ret a \<longrightarrow> (\<exists>k<n. budget w' = Some k))))"

lemma awaits_ends: "awaits_at n m \<Longrightarrow> ends_at n m"
  unfolding awaits_at_def ends_at_def by (metis less_imp_le)

lemma io_await_awaits: "awaits_at n (io_await ab f)"
  by (auto simp: awaits_at_def io_await_def split: nat.splits prod.splits)

lemma awaits_simps [simp]:
  "awaits_at n (await_tds D f)" "awaits_at n (await_next_row_into D L wr)"
  by (simp_all add: await_tds_def await_next_row_into_def io_await_awaits)

lemma ends_simps [simp]:
  "ends_at n (io_ret a)" "ends_at n io_panic" "ends_at n io_new_arc" "ends_at n (io_sync f)"
  "ends_at n (\<lambda>w. Some (Ret (h w), w))" "ends_at n (await_tds D g)"
proof -
  show "ends_at n (await_tds D g)" by (rule awaits_ends) simp
qed (auto simp: ends_at_def io_panic_def io_new_arc_def io_sync_def split: prod.splits)

lemma io_bind_ends:
  assumes "ends_at n m" and "\<And>a k. k \<le> n \<Longrightarrow> ends_at k (f a)"
  shows "ends_at n (io_bind m f)"
  unfolding ends_at_def
proof (intro allI impI)
  fix w :: "'a world"
  assume w: "budget w = Some n"
  with assms(1) obtain r w' where m: "m w = Some (r, w')"
    and k: "\<And>a. r = Ret a \<Longrightarrow> \<exists>k\<le>n. budget w' = Some k"
    unfolding ends_at_def by blast
  show "\<exists>r w'. io_bind m f w = Some (r, w') \<and> (\<forall>a. r = Ret a \<longrightarrow> (\<exists>k\<le>n. budget w' = Some k))"
  proof (cases r)
    case (Ret a)
    with k obtain k where "k \<le> n" "budget w' = Some k" by blast
    with assms(2) [of k a] obtain r2 w2 where "f a w' = Some (r2, w2)"
      "\<And>a. r2 = Ret a \<Longrightarrow> \<exists>j\<le>k. budget w2 = Some j"
      unfolding ends_at_def by blast
    with m Ret \<open>k \<le> n\<close> show ?thesis by (auto simp: io_bind_def intro: order_trans)
  qed (simp_all add: io_bind_def m)
qed

lemma io_bind_awaits:
  assumes "awaits_at n m" and "\<And>a k. k < n \<Longrightarrow> ends_at k (f a)"
  shows "awaits_at n (io_bind m f)"
  unfolding awaits_at_def
proof (intro allI impI)
  fix w :: "'a world"
  assume w: "budget w = Some n"
  with assms(1) obtain r w' where m: "m w = Some (r, w')"
    and k: "\<And>a. r = Ret a \<Longrightarrow> \<exists>k<n. budget w' = Some k"
    unfolding awaits_at_def by blast
  show "\<exists>r w'. io_bind m f w = Some (r, w') \<and> (\<forall>a. r = Ret a \<longrightarrow> (\<exists>k<n. budget w' = Some k))"
  proof (cases r)
    case (Ret a)
    with k obtain k where "k < n" "budget w' = Some k" by blast
    with assms(2) [of k a] obtain r2 w2 where "f a w' = Some (r2, w2)"
      "\<And>a. r2 = Ret a \<Longrightarrow> \<exists>j\<le>k. budget w2 = Some j"
      unfolding ends_at_def by blast
    with m Ret \<open>k < n\<close> show ?thesis by (auto simp: io_bind_def intro: order_le_less_trans)
  qed (simp_all add: io_bind_def m)
qed

lemma io_try_ends:
  "ends_at n m \<Longrightarrow> (\<And>a k. k \<le> n \<Longrightarrow> ends_at k (f a)) \<Longrightarrow> ends_at n (io_try m f)"
  unfolding io_try_def by (rule io_bind_ends) (auto split: sum.splits)

lemma io_try_awaits:
  "awaits_at n m \<Longrightarrow> (\<And>a k. k < n \<Longrightarrow> ends_at k (f a)) \<Longrightarrow> awaits_at n (io_try m f)"
  unfolding io_try_def by (rule io_bind_awaits) (auto split: sum.splits)

lemma ends_if [simp]: "ends_at n (\<lambda>w. if b then f w else g w) = ends_at n (if b then f else g)"
  by (cases b) simp_all

lemma collect_rows_awaits: "awaits_at n (collect_rows D L wr rows)"
proof (induction n arbitrary: wr rows rule: less_induct)
  case (less n)
  have "awaits_at n (\<lambda>w. io_try (await_next_row_into D L wr)
       (\<lambda>res w'. if fst res
                 then collect_rows D L (snd (take_row (snd res))) (rows @ [fst (take_row (snd res))]) w'
                 else io_ret (Inr rows) w') w)"
    by (rule io_try_awaits) (auto intro: awaits_ends less)
  then show ?case by (simp add: collect_rows.simps [abs_def])
qed

lemma count_rows_awaits: "awaits_at n (count_rows D c)"
proof (induction n arbitrary: c rule: less_induct)
  case (less n)
  have "awaits_at n (\<lambda>w. io_try (await_tds D (drv_next_row D))
       (\<lambda>r w'. if r \<noteq> None then count_rows D (c + 1) w' else io_ret (Inr c) w') w)"
    by (rule io_try_awaits) (auto intro: awaits_ends less)
  then show ?case by (simp add: count_rows.simps [abs_def])
qed

lemma drain_to_end_awaits: "awaits_at n (drain_to_end D)"
proof (induction n rule: less_induct)
  case (less n)
  have "awaits_at n (\<lambda>w. io_try (await_tds D (drv_advance_to_rows D))
       (\<lambda>more w'. if more then drain_to_end D w' else io_ret (Inr ()) w') w)"
    by (rule io_try_awaits) (auto intro: awaits_ends less)
  then show ?case by (simp add: drain_to_end.simps [abs_def])
qed

lemma positioned_ends: "ends_at n (positioned D)"
proof -
  have "ends_at n (io_ret (Inr True) :: ('a, error + bool) io)"
    and "ends_at n (await_tds D (drv_advance_to_rows D))" by simp_all
  then show ?thesis unfolding ends_at_def positioned_def by auto
qed

lemma new_schema_ends: "ends_at n (new_schema D)"
  by (auto simp: ends_at_def new_schema_def io_bind_def io_new_arc_def)

lemma collect_sets_ends: "ends_at n (collect_sets D L sets index)"
proof (induction n arbitrary: sets index rule: less_induct)
  case (less n)
  have "ends_at n (\<lambda>w. io_try (positioned D)
       (\<lambda>on w1.
          if \<not> on then io_ret (Inr \<lparr>result_sets = sets\<rparr>) w1
          else io_bind (new_schema D) (\<lambda>s w2.
            io_try (collect_rows D L (with_result_index s index) [])
              (\<lambda>rows w3. io_try (await_tds D (drv_advance_to_rows D))
                (\<lambda>more w4. if more then collect_sets D L (sets @ [rows]) (index + 1) w4
                           else io_ret (Inr \<lparr>result_sets = sets @ [rows]\<rparr>) w4) w3) w2) w1) w)"
    by (intro io_try_ends positioned_ends)
      (auto intro!: io_bind_ends new_schema_ends awaits_ends [OF io_try_awaits [OF collect_rows_awaits]]
        awaits_ends [OF io_try_awaits [OF awaits_simps(1)]] less)
  then show ?case by (simp add: collect_sets.simps [abs_def])
qed

lemma count_statement_ends: "ends_at n (count_statement D result)"
  by (cases result) (auto simp: count_statement_def intro!: awaits_ends [OF io_try_awaits [OF count_rows_awaits]])

lemma collect_counts_ends: "ends_at n (collect_counts D result cs)"
proof (induction n arbitrary: result cs rule: less_induct)
  case (less n)
  have "ends_at n (\<lambda>w. io_try (count_statement D result)
       (\<lambda>c w1. if c = None then io_ret (Inr \<lparr>counts = cs\<rparr>) w1
               else io_try (await_tds D (drv_advance D))
                      (\<lambda>next w2. collect_counts D next (cs @ the c) w2) w1) w)"
    by (intro io_try_ends count_statement_ends)
      (auto intro!: awaits_ends [OF io_try_awaits [OF awaits_simps(1)]] less)
  then show ?case by (simp add: collect_counts.simps [abs_def])
qed

lemma guarded_ends:
  assumes "ends_at n body"
  shows "ends_at n (guarded H body)"
  unfolding ends_at_def
proof (intro allI impI)
  fix w :: "'a world"
  assume w: "budget w = Some n"
  with assms obtain r v where "body w = Some (r, v)" "\<And>a. r = Ret a \<Longrightarrow> \<exists>k\<le>n. budget v = Some k"
    unfolding ends_at_def by blast
  with w show "\<exists>r w'. guarded H body w = Some (r, w') \<and> (\<forall>a. r = Ret a \<longrightarrow> (\<exists>k\<le>n. budget w' = Some k))"
    by (cases "is_dead H (conn w)"; cases r) (auto simp: guarded_dead guarded_alive)
qed

lemma with_inner_ends:
  assumes "ends_at n m"
  shows "ends_at n (with_inner m)"
  unfolding ends_at_def
proof (intro allI impI)
  fix w :: "'a client world"
  assume "budget w = Some n"
  then have "budget \<lparr>conn = inner (conn w), budget = budget w, next_arc = next_arc w\<rparr> = Some n" by simp
  with assms obtain r v where
    "m \<lparr>conn = inner (conn w), budget = budget w, next_arc = next_arc w\<rparr> = Some (r, v)"
    "\<And>a. r = Ret a \<Longrightarrow> \<exists>k\<le>n. budget v = Some k"
    unfolding ends_at_def by blast
  then show "\<exists>r w'. with_inner m w = Some (r, w') \<and> (\<forall>a. r = Ret a \<longrightarrow> (\<exists>k\<le>n. budget w' = Some k))"
    by (auto simp: with_inner_def)
qed

lemma with_statement_ends: "ends_at n m \<Longrightarrow> ends_at n (with_statement D stmt m)"
  unfolding ends_at_def by (auto simp: with_statement_def split: sum.splits)

lemma io_map_ends:
  assumes "ends_at n m"
  shows "ends_at n (io_map f m)"
  unfolding ends_at_def
proof (intro allI impI)
  fix w :: "'a world"
  assume "budget w = Some n"
  with assms obtain r v where "m w = Some (r, v)" "\<And>a. r = Ret a \<Longrightarrow> \<exists>k\<le>n. budget v = Some k"
    unfolding ends_at_def by blast
  then show "\<exists>r w'. io_map f m w = Some (r, w') \<and> (\<forall>a. r = Ret a \<longrightarrow> (\<exists>k\<le>n. budget w' = Some k))"
    by (cases r) (auto simp: io_map_def)
qed

lemma session_reset_scope_ends:
  assumes "ends_at n m"
  shows "ends_at n (session_reset_scope D m)"
  unfolding ends_at_def
proof (intro allI impI)
  fix w :: "'a world"
  assume "budget w = Some n"
  with assms obtain r v where "m w = Some (r, v)" "\<And>a. r = Ret a \<Longrightarrow> \<exists>k\<le>n. budget v = Some k"
    unfolding ends_at_def by blast
  then show "\<exists>r w'. session_reset_scope D m w = Some (r, w') \<and> (\<forall>a. r = Ret a \<longrightarrow> (\<exists>k\<le>n. budget w' = Some k))"
    by (auto simp: session_reset_scope_def Let_def)
qed

lemma reading_ends:
  assumes "\<And>x. ends_at n (f x)"
  shows "ends_at n (reading g f)"
  using assms by (simp add: ends_at_def reading_def)

lemma prepared_prepare_ends: "ends_at n (prepared_prepare D L sql params unicode session)"
  by (auto simp: prepared_prepare_def drain_to_end_awaits awaits_ends split: option.splits sum.splits
      intro!: io_try_ends)

lemma reset_session_ends: "ends_at n (reset_session D)"
  unfolding ends_at_def
proof (intro allI impI)
  fix w :: "'a client world"
  assume w: "budget w = Some n"
  have "ends_at n (reset_body D)"
    unfolding reset_body_def by (intro io_try_ends io_bind_ends ends_simps)
  then have "ends_at n (with_inner (session_reset_scope D (reset_body D)))"
    by (intro with_inner_ends session_reset_scope_ends)
  with w have "\<exists>r w'. with_inner (session_reset_scope D (reset_body D))
      (w\<lparr>next_arc := Suc (next_arc w), conn := (conn w)\<lparr>prepared_session := next_arc w\<rparr>\<rparr>) = Some (r, w') \<and>
      (\<forall>a. r = Ret a \<longrightarrow> (\<exists>k\<le>n. budget w' = Some k))"
    unfolding ends_at_def by simp
  with w show "\<exists>r w'. reset_session D w = Some (r, w') \<and> (\<forall>a. r = Ret a \<longrightarrow> (\<exists>k\<le>n. budget w' = Some k))"
    by (auto simp: reset_session_def io_new_arc_def io_sync_def io_bind_def split: sum.splits)
qed

lemma guarded_io_ends: "ends_at n body \<Longrightarrow> ends_at n (with_inner (guarded (drv_health D) body))"
  by (intro with_inner_ends guarded_ends)

lemma collect_ends:
  "ends_at n (collect_results D L)" "ends_at n (collect_execute_results D result)"
  using collect_sets_ends collect_counts_ends
  by (simp_all add: collect_results_def [abs_def] collect_execute_results_def [abs_def])

lemma client_ops_end:
  "ends_at n (simple_query D L sql)" "ends_at n (client_query D L sql params)"
  "ends_at n (client_execute D sql params)" "ends_at n (client_prepare D L sql params)"
  "ends_at n (query_prepared D L stmt params)" "ends_at n (execute_prepared D stmt params)"
  "ends_at n (unprepare D stmt)" "ends_at n (ping D)"
  unfolding simple_query_def client_query_def client_execute_def client_prepare_def query_prepared_def
    execute_prepared_def unprepare_def
  by (auto split: option.splits
      intro!: reading_ends with_statement_ends guarded_io_ends io_try_ends collect_ends prepared_prepare_ends)
    (simp add: ping_def [abs_def] ends_at_def)

text \<open>C17: whatever the driver answers, every client operation ends once its caller grants it
  finitely many further awaits: it returns, is dropped or panics. No loop of the client
  spins without awaiting the driver.\<close>

theorem client_operations_end:
  assumes "budget w = Some n"
  shows "run_call D L call w \<noteq> None"
proof -
  have "ends_at n (run_call D L call)"
    by (cases call) (simp_all add: io_map_ends client_ops_end reset_session_ends)
  with assms show ?thesis unfolding ends_at_def by fastforce
qed

theorem client_operations_end_witness:
  "run_call (replay_driver sample_lib) sample_lib (C_execute ''DELETE t'' [])
     (sample_world (Some 3) [[R_norows (Some 4)]]) \<noteq> None"
  by (rule client_operations_end [where n = 3]) (simp add: sample_world_def)

section \<open>What the collected results are\<close>

text \<open>The specification: the result sets of a script of replies. \<open>p\<close> is the address of the
  first schema, \<open>i\<close> the index of the first result set.\<close>

definition reply_row :: "tds_lib \<Rightarrow> arc_schema \<Rightarrow> nat \<Rightarrow> write_call list \<Rightarrow> row" where
  "reply_row L s i calls = (row_from_schema L s (written_values L calls))\<lparr>result_index := i\<rparr>"

definition reply_schema :: "nat \<Rightarrow> column_metadata list \<Rightarrow> arc_schema" where
  "reply_schema p md = \<lparr>arc_ptr = p, pointee = row_schema_from_metadata md\<rparr>"

fun reply_sets :: "tds_lib \<Rightarrow> nat \<Rightarrow> nat \<Rightarrow> reply list \<Rightarrow> tds_error + row list list" where
  "reply_sets L p i [] = Inr []"
| "reply_sets L p i (R_norows _ # rest) = reply_sets L p i rest"
| "reply_sets L p i (R_error e # rest) = Inl e"
| "reply_sets L p i (R_rows md rows err # rest) =
     (case err of
        Some e \<Rightarrow> Inl e
      | None \<Rightarrow> map_ok (\<lambda>sets. map (reply_row L (reply_schema p md) i) rows # sets)
                  (reply_sets L (Suc p) (Suc i) rest))"

text \<open>The counts of a script: the reported count of a statement without rows, the number of
  rows of one with rows.\<close>

fun reply_counts :: "reply list \<Rightarrow> tds_error + u64 list" where
  "reply_counts [] = Inr []"
| "reply_counts (R_norows n # rest) =
     map_ok (\<lambda>cs. (case n of Some k \<Rightarrow> [k] | None \<Rightarrow> []) @ cs) (reply_counts rest)"
| "reply_counts (R_error e # rest) = Inl e"
| "reply_counts (R_rows md rows err # rest) =
     (case err of
        Some e \<Rightarrow> Inl e
      | None \<Rightarrow> map_ok (\<lambda>cs. word_of_nat (length rows) # cs) (reply_counts rest))"

text \<open>The replies still to come at a cursor that has not read past a row.\<close>

fun cursor_replies :: "cursor \<Rightarrow> reply list" where
  "cursor_replies (OnRows md rows err rest) = R_rows md rows err # rest"
| "cursor_replies (AfterRows rest) = rest"
| "cursor_replies (Between rest) = rest"

fun at_statement :: "cursor \<Rightarrow> bool" where
  "at_statement (AfterRows _) = False"
| "at_statement _ = True"

lemma write_then_take:
  "take_row (write_calls L (with_result_index s i) calls) = (reply_row L s i calls, with_result_index s i)"
  by (simp add: writer_refines reply_row_def)

lemma collect_rows_script:
  assumes "follows_script D L S" and "budget w = None"
    and "S (conn w) = Some (OnRows md rows err rest)"
  shows "\<exists>c'. collect_rows D L (with_result_index s i) acc w =
      Some (Ret (case err of Some e \<Rightarrow> Inl (Tds e) | None \<Rightarrow> Inr (acc @ map (reply_row L s i) rows)),
            w\<lparr>conn := c'\<rparr>) \<and>
      (err = None \<longrightarrow> S c' = Some (AfterRows rest))"
  using assms(2,3)
proof (induction rows arbitrary: w acc)
  case Nil
  from assms(1) Nil.prems(2) show ?case
  proof (cases rule: script_next_row_into)
    case (finished c')
    have "collect_rows D L (with_result_index s i) acc w = Some (Ret (Inr acc), w\<lparr>conn := c'\<rparr>)"
      by (subst collect_rows.simps)
        (simp add: io_try_step(1) [where m = "await_next_row_into D L (with_result_index s i)" and w = w, OF await_next_row_into_unlimited [OF Nil.prems(1) finished(3), simplified map_err.simps map_ok.simps]])
    with finished show ?thesis by auto
  next
    case (failed e c')
    have "collect_rows D L (with_result_index s i) acc w = Some (Ret (Inl (Tds e)), w\<lparr>conn := c'\<rparr>)"
      by (subst collect_rows.simps)
        (simp add: io_try_step(2) [where m = "await_next_row_into D L (with_result_index s i)" and w = w, OF await_next_row_into_unlimited [OF Nil.prems(1) failed(3), simplified map_err.simps map_ok.simps]])
    with failed show ?thesis by auto
  qed simp
next
  case (Cons calls rows)
  from assms(1) Cons.prems(2) show ?case
  proof (cases rule: script_next_row_into)
    case (row calls' rows' c')
    then have eq: "calls' = calls" "rows' = rows" by simp_all
    have "collect_rows D L (with_result_index s i) acc w =
        collect_rows D L (with_result_index s i) (acc @ [reply_row L s i calls]) (w\<lparr>conn := c'\<rparr>)"
      by (subst collect_rows.simps)
        (simp add: write_then_take eq
          io_try_step(1) [where m = "await_next_row_into D L (with_result_index s i)" and w = w, OF await_next_row_into_unlimited [OF Cons.prems(1) row(2), simplified map_err.simps map_ok.simps]])
    moreover from Cons.IH [of "w\<lparr>conn := c'\<rparr>" "acc @ [reply_row L s i calls]"] Cons.prems(1) row(3) eq
    obtain c2 where "collect_rows D L (with_result_index s i) (acc @ [reply_row L s i calls]) (w\<lparr>conn := c'\<rparr>) =
      Some (Ret (case err of Some e \<Rightarrow> Inl (Tds e)
                 | None \<Rightarrow> Inr ((acc @ [reply_row L s i calls]) @ map (reply_row L s i) rows)), w\<lparr>conn := c2\<rparr>)"
      "err = None \<longrightarrow> S c2 = Some (AfterRows rest)"
      by auto
    ultimately show ?thesis by (auto split: option.splits)
  qed simp_all
qed

text \<open>What \<open>advance_to_rows\<close> skips has no result sets.\<close>

lemma script_to_rows_cases:
  obtains
    (stop) "script_to_rows rs = (Inr False, Between [])" "\<And>p i. reply_sets L p i rs = Inr []"
  | (failed) e rest where "script_to_rows rs = (Inl e, Between rest)" "\<And>p i. reply_sets L p i rs = Inl e"
  | (found) md rows err rest where "script_to_rows rs = (Inr True, OnRows md rows err rest)"
      "\<And>p i. reply_sets L p i rs = reply_sets L p i (R_rows md rows err # rest)" "length rest < length rs"
proof (induction rs arbitrary: thesis)
  case Nil
  then show ?case by simp
next
  case (Cons r rs)
  show ?case
  proof (cases r)
    case (R_norows n)
    show ?thesis
      by (rule Cons.IH) (use R_norows Cons.prems in auto)
  qed (use Cons.prems in auto)
qed

lemma collect_sets_on_rows:
  assumes "follows_script D L S" and "budget w = None"
    and "S (conn w) = Some (OnRows md rows err rest)"
  shows "\<exists>w'. collect_sets D L sets i w =
      Some (Ret (map_err Tds (map_ok (\<lambda>ss. \<lparr>result_sets = sets @ ss\<rparr>)
               (reply_sets L (next_arc w) i (R_rows md rows err # rest)))), w')"
  using assms(2,3)
proof (induction "length rest" arbitrary: w sets i md rows err rest rule: less_induct)
  case less
  let ?c = "conn w"
  let ?s = "reply_schema (next_arc w) md"
  let ?w2 = "w\<lparr>next_arc := Suc (next_arc w)\<rparr>"
  note on = script_on_rows [OF assms(1) less.prems(2)]
  have pos: "positioned D w = Some (Ret (Inr True), w)" using on(1) by (simp add: positioned_def)
  have sch: "new_schema D w = Some (Ret ?s, ?w2)"
    using on(2) by (simp add: new_schema_def io_bind_def io_new_arc_def reply_schema_def)
  from collect_rows_script [OF assms(1), of ?w2 md rows err rest ?s i "[]", simplified] less.prems
  obtain c1 where rows: "collect_rows D L (with_result_index ?s i) [] ?w2 =
      Some (Ret (case err of Some e \<Rightarrow> Inl (Tds e) | None \<Rightarrow> Inr (map (reply_row L ?s i) rows)), ?w2\<lparr>conn := c1\<rparr>)"
    and after: "err = None \<longrightarrow> S c1 = Some (AfterRows rest)" by (auto split: option.splits)
  let ?rs = "map (reply_row L ?s i) rows"
  have step: "collect_sets D L sets i w =
      io_try (collect_rows D L (with_result_index ?s i) [])
        (\<lambda>rows w3. io_try (await_tds D (drv_advance_to_rows D))
          (\<lambda>more w4. if more then collect_sets D L (sets @ [rows]) (i + 1) w4
                     else io_ret (Inr \<lparr>result_sets = sets @ [rows]\<rparr>) w4) w3) ?w2"
    by (subst collect_sets.simps) (simp add: io_try_step(1) [where m = "positioned D", OF pos], simp add: io_bind_def sch)
  show ?case
  proof (cases err)
    case (Some e)
    with rows have "collect_rows D L (with_result_index ?s i) [] ?w2 = Some (Ret (Inl (Tds e)), ?w2\<lparr>conn := c1\<rparr>)"
      by simp
    then show ?thesis using Some by (simp add: step io_try_def io_bind_def)
  next
    case None
    let ?w3 = "?w2\<lparr>conn := c1\<rparr>"
    have rows': "collect_rows D L (with_result_index ?s i) [] ?w2 = Some (Ret (Inr ?rs), ?w3)"
      using rows None by simp
    have cont: "collect_sets D L sets i w = io_try (await_tds D (drv_advance_to_rows D))
          (\<lambda>more w4. if more then collect_sets D L (sets @ [?rs]) (i + 1) w4
                     else io_ret (Inr \<lparr>result_sets = sets @ [?rs]\<rparr>) w4) ?w3"
      by (simp add: step io_try_step(1) [where m = "collect_rows D L (with_result_index ?s i) []", OF rows'])
    have S3: "S (conn ?w3) = Some (AfterRows rest)" using after None by simp
    from script_advance_to_rows [OF assms(1) S3] obtain c4 where
      adv: "drv_advance_to_rows D (conn ?w3) = (fst (script_to_rows rest), c4)"
      and S4: "is_ok (fst (script_to_rows rest)) \<Longrightarrow> S c4 = Some (snd (script_to_rows rest))"
      by auto
    have b3: "budget ?w3 = None" using less.prems(1) by simp
    note aw = await_tds_unlimited [where f = "drv_advance_to_rows D", OF b3 adv]
    show ?thesis
    proof (cases rule: script_to_rows_cases [of rest L])
      case stop
      with aw have "await_tds D (drv_advance_to_rows D) ?w3 = Some (Ret (Inr False), ?w3\<lparr>conn := c4\<rparr>)" by simp
      then show ?thesis using stop(2) None by (simp add: cont io_try_def io_bind_def)
    next
      case (failed e r)
      with aw have "await_tds D (drv_advance_to_rows D) ?w3 = Some (Ret (Inl (Tds e)), ?w3\<lparr>conn := c4\<rparr>)" by simp
      then show ?thesis using failed(2) None by (simp add: cont io_try_def io_bind_def)
    next
      case (found md' rows' err' rest')
      let ?w4 = "?w3\<lparr>conn := c4\<rparr>"
      from found aw have "await_tds D (drv_advance_to_rows D) ?w3 = Some (Ret (Inr True), ?w4)" by simp
      then have c4: "collect_sets D L sets i w = collect_sets D L (sets @ [?rs]) (i + 1) ?w4"
        by (simp add: cont io_try_def io_bind_def)
      from S4 found have "S (conn ?w4) = Some (OnRows md' rows' err' rest')" by simp
      from less.hyps [OF found(3) _ this, of "sets @ [?rs]" "i + 1"] less.prems(1)
      obtain w' where "collect_sets D L (sets @ [?rs]) (i + 1) ?w4 =
          Some (Ret (map_err Tds (map_ok (\<lambda>ss. \<lparr>result_sets = (sets @ [?rs]) @ ss\<rparr>)
               (reply_sets L (Suc (next_arc w)) (i + 1) (R_rows md' rows' err' # rest')))), w')"
        by auto
      moreover have "map_ok (\<lambda>ss. \<lparr>result_sets = (sets @ [?rs]) @ ss\<rparr>) x =
          map_ok (\<lambda>ss. \<lparr>result_sets = sets @ ss\<rparr>) (map_ok (\<lambda>ss. ?rs # ss) x)" for x :: "tds_error + row list list"
        by (cases x) simp_all
      ultimately show ?thesis using None found(2) by (simp add: c4)
    qed
  qed
qed

lemma collect_results_script:
  assumes "follows_script D L S" and "budget w = None"
    and "S (conn w) = Some cur" and "at_statement cur"
  shows "\<exists>w'. collect_results D L w =
      Some (Ret (map_err Tds (map_ok (\<lambda>ss. \<lparr>result_sets = ss\<rparr>)
               (reply_sets L (next_arc w) 0 (cursor_replies cur)))), w')"
proof (cases cur)
  case (OnRows md rows err rest)
  with collect_sets_on_rows [OF assms(1,2), of md rows err rest "[]" 0] assms(3) show ?thesis
    by (simp add: collect_results_def)
next
  case (Between rest)
  with assms have cur: "S (conn w) = Some (Between rest)" by simp
  from script_advance_to_rows [OF assms(1) cur] obtain c1 where
    adv: "drv_advance_to_rows D (conn w) = (fst (script_to_rows rest), c1)"
    and S1: "is_ok (fst (script_to_rows rest)) \<Longrightarrow> S c1 = Some (snd (script_to_rows rest))"
    by auto
  let ?w1 = "w\<lparr>conn := c1\<rparr>"
  have pos: "positioned D w = Some (Ret (map_err Tds (fst (script_to_rows rest))), ?w1)"
    using script_between [OF assms(1) cur] await_tds_unlimited [where f = "drv_advance_to_rows D", OF assms(2) adv]
    by (simp add: positioned_def)
  show ?thesis
  proof (cases rule: script_to_rows_cases [of rest L])
    case stop
    with pos have p: "positioned D w = Some (Ret (Inr False), ?w1)" by simp
    show ?thesis
      using stop(2) Between
      by (simp add: collect_results_def, subst collect_sets.simps) (simp add: io_try_step(1) [where m = "positioned D", OF p])
  next
    case (failed e r)
    with pos have p: "positioned D w = Some (Ret (Inl (Tds e)), ?w1)" by simp
    show ?thesis
      using failed(2) Between
      by (simp add: collect_results_def, subst collect_sets.simps) (simp add: io_try_step(2) [where m = "positioned D", OF p])
  next
    case (found md rows err rest')
    with pos have p: "positioned D w = Some (Ret (Inr True), ?w1)" by simp
    from S1 found have S1: "S (conn ?w1) = Some (OnRows md rows err rest')" by simp
    have p1: "positioned D ?w1 = Some (Ret (Inr True), ?w1)"
      using script_on_rows(1) [OF assms(1) S1] by (simp add: positioned_def)
    have "collect_sets D L [] 0 w = collect_sets D L [] 0 ?w1"
      by (subst (1 2) collect_sets.simps) (simp add: io_try_step(1) [where m = "positioned D", OF p] io_try_step(1) [where m = "positioned D", OF p1])
    with collect_sets_on_rows [OF assms(1) _ S1, of "[]" 0] assms(2) found(2) Between show ?thesis
      by (simp add: collect_results_def)
  qed
qed (use assms(4) in simp)


lemma count_rows_script:
  assumes "follows_script D L S" and "budget w = None"
    and "S (conn w) = Some (OnRows md rows err rest)"
  shows "\<exists>c'. count_rows D n w =
      Some (Ret (case err of Some e \<Rightarrow> Inl (Tds e) | None \<Rightarrow> Inr (n + word_of_nat (length rows))),
            w\<lparr>conn := c'\<rparr>) \<and>
      (err = None \<longrightarrow> S c' = Some (AfterRows rest))"
  using assms(2,3)
proof (induction rows arbitrary: w n)
  case Nil
  from assms(1) Nil.prems(2) show ?case
  proof (cases rule: script_next_row)
    case (finished c')
    note aw = await_tds_unlimited [where f = "drv_next_row D", OF Nil.prems(1) finished(3)]
    have "count_rows D n w = Some (Ret (Inr n), w\<lparr>conn := c'\<rparr>)"
      by (subst count_rows.simps) (simp add: io_try_def io_bind_def aw)
    with finished show ?thesis by auto
  next
    case (failed e c')
    note aw = await_tds_unlimited [where f = "drv_next_row D", OF Nil.prems(1) failed(3)]
    have "count_rows D n w = Some (Ret (Inl (Tds e)), w\<lparr>conn := c'\<rparr>)"
      by (subst count_rows.simps) (simp add: io_try_def io_bind_def aw)
    with failed show ?thesis by auto
  qed simp
next
  case (Cons calls rows)
  from assms(1) Cons.prems(2) show ?case
  proof (cases rule: script_next_row)
    case (row calls' rows' c')
    note aw = await_tds_unlimited [where f = "drv_next_row D", OF Cons.prems(1) row(2)]
    have step: "count_rows D n w = count_rows D (n + 1) (w\<lparr>conn := c'\<rparr>)"
      by (subst count_rows.simps) (simp add: io_try_def io_bind_def aw)
    from Cons.IH [of "w\<lparr>conn := c'\<rparr>" "n + 1"] Cons.prems(1) row
    show ?thesis by (auto simp: step algebra_simps split: option.splits)
  qed simp_all
qed

text \<open>The statement result that goes with a cursor, as \<open>execute\<close> and \<open>advance\<close> return it.\<close>

fun script_result :: "reply list \<Rightarrow> tds_error + statement_result" where
  "script_result rs = fst (script_advance rs)"

lemma collect_counts_script:
  assumes "follows_script D L S"
  shows "budget w = None \<Longrightarrow> script_advance rs = (Inr result, cur) \<Longrightarrow> S (conn w) = Some cur \<Longrightarrow>
    \<exists>w'. collect_counts D result cs w =
      Some (Ret (map_err Tds (map_ok (\<lambda>xs. \<lparr>counts = cs @ xs\<rparr>) (reply_counts rs))), w')"
proof (induction rs arbitrary: w cs result cur)
  case Nil
  then show ?case by (subst collect_counts.simps) (simp add: count_statement_def)
next
  case (Cons r rs)
  have advance: "\<exists>w'. io_try (await_tds D (drv_advance D))
            (\<lambda>next w2. collect_counts D next (cs @ xs) w2) w1 =
      Some (Ret (map_err Tds (map_ok (\<lambda>ys. \<lparr>counts = cs @ xs @ ys\<rparr>) (reply_counts rs))), w')"
    if w1: "budget w1 = None" "S (conn w1) = Some cur1" "cursor_rest cur1 = Some rs" for w1 cur1 xs
  proof -
    from script_advance_step [OF assms w1(2,3)] obtain c2 where
      adv: "drv_advance D (conn w1) = (fst (script_advance rs), c2)"
      and S2: "is_ok (fst (script_advance rs)) \<Longrightarrow> S c2 = Some (snd (script_advance rs))" by blast
    note aw = await_tds_unlimited [where f = "drv_advance D", OF w1(1) adv]
    show ?thesis
    proof (cases "script_advance rs")
      case (Pair a cur2)
      show ?thesis
      proof (cases a)
        case (Inl e)
        then have "reply_counts rs = Inl e"
          using Pair by (cases rs rule: script_advance.cases) auto
        with Inl Pair show ?thesis by (simp add: io_try_def io_bind_def aw)
      next
        case (Inr res)
        with Cons.IH [of "w1\<lparr>conn := c2\<rparr>" res cur2 "cs @ xs"] Pair S2 w1(1) show ?thesis
          by (simp add: io_try_def io_bind_def aw)
      qed
    qed
  qed
  have app: "map_ok (\<lambda>ys. \<lparr>counts = cs @ xs @ ys\<rparr>) x = map_ok (\<lambda>ys. \<lparr>counts = cs @ ys\<rparr>) (map_ok (\<lambda>ys. xs @ ys) x)"
    for x :: "tds_error + u64 list" and xs
    by (cases x) simp_all
  show ?case
  proof (cases r)
    case (R_norows n)
    with Cons.prems have "result = NoRows n" "cur = Between rs" by auto
    with R_norows advance [of w "Between rs" "case n of Some k \<Rightarrow> [k] | None \<Rightarrow> []"] Cons.prems
    show ?thesis
      by (subst collect_counts.simps) (auto simp: count_statement_def app split: option.splits)
  next
    case (R_error e)
    with Cons.prems show ?thesis by simp
  next
    case (R_rows md rows err)
    with Cons.prems have res: "result = Rows" and S: "S (conn w) = Some (OnRows md rows err rs)" by auto
    from count_rows_script [OF assms Cons.prems(1) S, of 0] obtain c1 where
      cr: "count_rows D 0 w = Some (Ret (case err of Some e \<Rightarrow> Inl (Tds e) | None \<Rightarrow> Inr (word_of_nat (length rows))),
            w\<lparr>conn := c1\<rparr>)" and after: "err = None \<longrightarrow> S c1 = Some (AfterRows rs)" by (auto split: option.splits)
    show ?thesis
    proof (cases err)
      case (Some e)
      with R_rows cr show ?thesis
        by (subst collect_counts.simps) (simp add: count_statement_def res io_try_def io_bind_def)
    next
      case None
      with cr have st: "count_statement D result w =
          Some (Ret (Inr (Some [word_of_nat (length rows)])), w\<lparr>conn := c1\<rparr>)"
        by (simp add: count_statement_def res io_try_def io_bind_def)
      have "collect_counts D result cs w = io_try (await_tds D (drv_advance D))
            (\<lambda>next w2. collect_counts D next (cs @ [word_of_nat (length rows)]) w2) (w\<lparr>conn := c1\<rparr>)"
        by (subst collect_counts.simps) (simp add: io_try_step(1) [where m = "count_statement D result", OF st])
      with advance [of "w\<lparr>conn := c1\<rparr>" "AfterRows rs" "[word_of_nat (length rows)]"] after None Cons.prems(1) R_rows
      show ?thesis by (cases "reply_counts rs") simp_all
    qed
  qed
qed

section \<open>What the client returns\<close>

text \<open>A request accepted by a live driver that then follows the script \<open>rs\<close>.\<close>

definition answers ::
    "'c driver \<Rightarrow> ('c \<Rightarrow> cursor option) \<Rightarrow> ('c \<Rightarrow> (tds_error + statement_result) \<times> 'c) \<Rightarrow> 'c \<Rightarrow> reply list \<Rightarrow> bool" where
  "answers D S request c rs \<longleftrightarrow>
     \<not> is_dead (drv_health D) c \<and>
     (\<exists>c1 c2. drv_close_query D c = (Inr (), c1) \<and>
        request c1 = (fst (script_advance rs), c2) \<and>
        (is_ok (fst (script_advance rs)) \<longrightarrow> S c2 = Some (snd (script_advance rs))))"

lemma script_advance_sets:
  assumes "script_advance rs = (Inr r, cur)"
  shows "at_statement cur \<and> reply_sets L p i (cursor_replies cur) = reply_sets L p i rs"
  using assms by (cases rs rule: script_advance.cases) auto

lemma script_advance_error:
  "script_advance rs = (Inl e, cur) \<Longrightarrow> reply_sets L p i rs = Inl e \<and> reply_counts rs = Inl e"
  by (cases rs rule: script_advance.cases) auto

lemma guarded_request_script:
  assumes S: "follows_script D L S" and b: "budget w = None"
    and a: "answers D S request (conn w) rs"
  shows "\<exists>w'. guarded (drv_health D) (io_try (await_tds D (drv_close_query D))
             (\<lambda>_. io_try (await_tds D request) (\<lambda>_. collect_results D L))) w =
      Some (Ret (map_err Tds (map_ok (\<lambda>ss. \<lparr>result_sets = ss\<rparr>) (reply_sets L (next_arc w) 0 rs))), w')"
proof -
  from a obtain c1 c2 where alive: "\<not> is_dead (drv_health D) (conn w)"
    and c1: "drv_close_query D (conn w) = (Inr (), c1)"
    and c2: "request c1 = (fst (script_advance rs), c2)"
    and S2: "is_ok (fst (script_advance rs)) \<longrightarrow> S c2 = Some (snd (script_advance rs))"
    unfolding answers_def by blast
  obtain r cur where sa: "script_advance rs = (r, cur)" by fastforce
  note aw1 = await_tds_unlimited [where f = "drv_close_query D", OF b c1]
  have aw2: "await_tds D request (w\<lparr>conn := c1\<rparr>) = Some (Ret (map_err Tds r), w\<lparr>conn := c2\<rparr>)"
    using await_tds_unlimited [where f = request and w = "w\<lparr>conn := c1\<rparr>" and D = D] b c2 sa by simp
  show ?thesis
  proof (cases r)
    case (Inl e)
    with aw1 aw2 sa script_advance_error [of rs e cur] show ?thesis
      by (simp add: guarded_alive alive io_try_def io_bind_def)
  next
    case (Inr res)
    with sa have sa': "script_advance rs = (Inr res, cur)" by simp
    from collect_results_script [OF S, of "w\<lparr>conn := c2\<rparr>" cur] b S2 sa' script_advance_sets [OF sa']
    obtain w' where "collect_results D L (w\<lparr>conn := c2\<rparr>) =
        Some (Ret (map_err Tds (map_ok (\<lambda>ss. \<lparr>result_sets = ss\<rparr>) (reply_sets L (next_arc w) 0 rs))), w')"
      by auto
    with Inr aw1 aw2 show ?thesis
      by (simp add: guarded_alive alive io_try_def io_bind_def)
  qed
qed

lemma guarded_execute_script:
  assumes S: "follows_script D L S" and b: "budget w = None"
    and a: "answers D S request (conn w) rs"
  shows "\<exists>w'. guarded (drv_health D) (io_try (await_tds D (drv_close_query D))
             (\<lambda>_. io_try (await_tds D request) (\<lambda>result. collect_execute_results D result))) w =
      Some (Ret (map_err Tds (map_ok (\<lambda>xs. \<lparr>counts = xs\<rparr>) (reply_counts rs))), w')"
proof -
  from a obtain c1 c2 where alive: "\<not> is_dead (drv_health D) (conn w)"
    and c1: "drv_close_query D (conn w) = (Inr (), c1)"
    and c2: "request c1 = (fst (script_advance rs), c2)"
    and S2: "is_ok (fst (script_advance rs)) \<longrightarrow> S c2 = Some (snd (script_advance rs))"
    unfolding answers_def by blast
  obtain r cur where sa: "script_advance rs = (r, cur)" by fastforce
  note aw1 = await_tds_unlimited [where f = "drv_close_query D", OF b c1]
  have aw2: "await_tds D request (w\<lparr>conn := c1\<rparr>) = Some (Ret (map_err Tds r), w\<lparr>conn := c2\<rparr>)"
    using await_tds_unlimited [where f = request and w = "w\<lparr>conn := c1\<rparr>" and D = D] b c2 sa by simp
  show ?thesis
  proof (cases r)
    case (Inl e)
    with aw1 aw2 sa script_advance_error [of rs e cur] show ?thesis
      by (simp add: guarded_alive alive io_try_def io_bind_def)
  next
    case (Inr res)
    with sa have sa': "script_advance rs = (Inr res, cur)" by simp
    from collect_counts_script [OF S, of "w\<lparr>conn := c2\<rparr>" rs res cur "[]"] b S2 sa'
    obtain w' where "collect_execute_results D res (w\<lparr>conn := c2\<rparr>) =
        Some (Ret (map_err Tds (map_ok (\<lambda>xs. \<lparr>counts = xs\<rparr>) (reply_counts rs))), w')"
      by (auto simp: collect_execute_results_def)
    with Inr aw1 aw2 show ?thesis
      by (simp add: guarded_alive alive io_try_def io_bind_def)
  qed
qed

lemma with_inner_Ret:
  assumes "\<exists>v. m \<lparr>conn = inner (conn w), budget = budget w, next_arc = next_arc w\<rparr> = Some (r, v)"
  shows "\<exists>w'. with_inner m w = Some (r, w')"
  using assms by (auto simp: with_inner_def)

lemma client_query_script:
  assumes "follows_script D L S" and "budget w = None"
    and "build_params_with_string_encoding params (send_string_parameters_as_unicode (conn w)) = Some rpc"
    and "answers D S (if params = [] then drv_execute D sql else drv_execute_sp_executesql D sql rpc)
           (inner (conn w)) rs"
  shows "\<exists>w'. client_query D L sql params w =
      Some (Ret (map_err Tds (map_ok (\<lambda>ss. \<lparr>result_sets = ss\<rparr>) (reply_sets L (next_arc w) 0 rs))), w')"
proof -
  let ?w = "\<lparr>conn = inner (conn w), budget = budget w, next_arc = next_arc w\<rparr>"
  from guarded_request_script [OF assms(1), of ?w _ rs] assms(2,4)
  show ?thesis
    by (cases "params = []") (auto simp: client_query_def simple_query_def reading_def assms(3) intro: with_inner_Ret)
qed

text \<open>C2: a query on a live client returns the result sets of the server's reply: every result
  set in order, empty ones included, statements without rows skipped, every row as the
  buffered constructor builds it and tagged with the index of its set; if the reply carries
  an error, before or in the middle of the rows, the query fails with that error.\<close>

theorem query_returns_reply:
  assumes "follows_script D L S" and "budget w = None"
    and "build_params_with_string_encoding params (send_string_parameters_as_unicode (conn w)) = Some rpc"
    and "answers D S (if params = [] then drv_execute D sql else drv_execute_sp_executesql D sql rpc)
           (inner (conn w)) rs"
  shows "\<exists>w'. client_query D L sql params w =
      Some (Ret (map_err Tds (map_ok (\<lambda>ss. \<lparr>result_sets = ss\<rparr>) (reply_sets L (next_arc w) 0 rs))), w')"
  by (rule client_query_script [OF assms])

theorem query_returns_reply_witness:
  "\<exists>w'. client_query (replay_driver sample_lib) sample_lib ''SELECT 1'' []
      (sample_world None [[R_norows None, R_rows [] [[W_i32 0 1, W_end_row]] None]]) =
    Some (Ret (Inr \<lparr>result_sets = [[reply_row sample_lib (reply_schema 1 []) 0 [W_i32 0 1, W_end_row]]]\<rparr>), w')"
proof -
  let ?rs = "[R_norows None, R_rows [] [[W_i32 0 1, W_end_row]] None]"
  have "answers (replay_driver sample_lib) live_cursor
      (if [] = ([] :: dyn_to_sql list) then drv_execute (replay_driver sample_lib) ''SELECT 1''
       else drv_execute_sp_executesql (replay_driver sample_lib) ''SELECT 1'' [])
      (inner (conn (sample_world None [?rs]))) ?rs"
    by (simp add: answers_def sample_world_def sample_client_def replay_start_def replay_driver_def
        replay_request_def live_cursor_def)
  from query_returns_reply [OF replay_follows_script _ _ this] show ?thesis
    by (simp add: sample_world_def build_params_with_string_encoding_def)
qed

text \<open>C12: \<open>execute\<close> on a live client returns one count per statement that reported one, in
  statement order: the reported count, or the number of rows of a statement that returned
  rows; an error in the reply is the result.\<close>

theorem execute_returns_counts:
  assumes "follows_script D L S" and "budget w = None"
    and "build_params_with_string_encoding params (send_string_parameters_as_unicode (conn w)) = Some rpc"
    and "answers D S (if params = [] then drv_execute D sql else drv_execute_sp_executesql D sql rpc)
           (inner (conn w)) rs"
  shows "\<exists>w'. client_execute D sql params w =
      Some (Ret (map_err Tds (map_ok (\<lambda>xs. \<lparr>counts = xs\<rparr>) (reply_counts rs))), w')"
proof -
  let ?w = "\<lparr>conn = inner (conn w), budget = budget w, next_arc = next_arc w\<rparr>"
  from guarded_execute_script [OF assms(1), of ?w _ rs] assms(2,4)
  show ?thesis
    by (cases "params = []") (auto simp: client_execute_def reading_def assms(3) intro: with_inner_Ret)
qed

theorem execute_returns_counts_witness:
  "\<exists>w'. client_execute (replay_driver sample_lib) ''UPDATE'' []
      (sample_world None [[R_norows (Some 4), R_rows [] [[], []] None, R_norows None]]) =
    Some (Ret (Inr \<lparr>counts = [4, 2]\<rparr>), w')"
proof -
  let ?rs = "[R_norows (Some 4), R_rows [] [[], []] None, R_norows None]"
  have "answers (replay_driver sample_lib) live_cursor
      (if [] = ([] :: dyn_to_sql list) then drv_execute (replay_driver sample_lib) ''UPDATE''
       else drv_execute_sp_executesql (replay_driver sample_lib) ''UPDATE'' [])
      (inner (conn (sample_world None [?rs]))) ?rs"
    by (simp add: answers_def sample_world_def sample_client_def replay_start_def replay_driver_def
        replay_request_def live_cursor_def)
  from execute_returns_counts [OF replay_follows_script _ _ this] show ?thesis
    by (simp add: sample_world_def build_params_with_string_encoding_def)
qed

lemma prepared_script:
  assumes "follows_script D L S" and "budget w = None"
    and "ps_session stmt = prepared_session (conn w)"
    and "prepared_params params (send_string_parameters_as_unicode (conn w)) = Some rpc"
    and "answers D S (drv_execute_stored_procedure D ''sp_execute''
             (Some [\<lparr>rp_name = None, rp_flags = FLAGS_NONE, rp_value = ST_Int (Some (ps_handle stmt))\<rparr>]) rpc)
           (inner (conn w)) rs"
  shows "(\<exists>w'. query_prepared D L stmt params w =
        Some (Ret (map_err Tds (map_ok (\<lambda>ss. \<lparr>result_sets = ss\<rparr>) (reply_sets L (next_arc w) 0 rs))), w')) \<and>
    (\<exists>w'. execute_prepared D stmt params w =
        Some (Ret (map_err Tds (map_ok (\<lambda>xs. \<lparr>counts = xs\<rparr>) (reply_counts rs))), w'))"
proof -
  let ?w = "\<lparr>conn = inner (conn w), budget = budget w, next_arc = next_arc w\<rparr>"
  have usable: "client_ensure_usable D (conn w) = Inr ()"
    using assms(5) by (simp add: client_ensure_usable_def ensure_usable_def answers_def)
  have valid: "validate_session stmt (prepared_session (conn w)) = Inr ()"
    using assms(3) by (simp add: validate_session_def)
  from guarded_request_script [OF assms(1), of ?w _ rs] guarded_execute_script [OF assms(1), of ?w _ rs]
    assms(2,5)
  show ?thesis
    by (auto simp: query_prepared_def execute_prepared_def with_statement_def usable valid reading_def assms(4)
        handle_parameter_def intro!: with_inner_Ret)
qed

text \<open>C13: executing a prepared statement returns what the server replies to
  \<open>sp_execute\<close>, under the same rules as a plain query and a plain execute, when the statement
  belongs to the client's current session; otherwise both operations fail with
  \<open>InvalidPreparedStatement\<close> and leave connection, session and awaits untouched: nothing is
  sent.\<close>

theorem prepared_returns_reply:
  assumes "follows_script D L S" and "budget w = None"
    and "prepared_params params (send_string_parameters_as_unicode (conn w)) = Some rpc"
    and "answers D S (drv_execute_stored_procedure D ''sp_execute''
             (Some [\<lparr>rp_name = None, rp_flags = FLAGS_NONE, rp_value = ST_Int (Some (ps_handle stmt))\<rparr>]) rpc)
           (inner (conn w)) rs"
  shows "if ps_session stmt = prepared_session (conn w)
    then (\<exists>w'. query_prepared D L stmt params w =
        Some (Ret (map_err Tds (map_ok (\<lambda>ss. \<lparr>result_sets = ss\<rparr>) (reply_sets L (next_arc w) 0 rs))), w')) \<and>
      (\<exists>w'. execute_prepared D stmt params w =
        Some (Ret (map_err Tds (map_ok (\<lambda>xs. \<lparr>counts = xs\<rparr>) (reply_counts rs))), w'))
    else query_prepared D L stmt params w = Some (Ret (Inl InvalidPreparedStatement), w) \<and>
      execute_prepared D stmt params w = Some (Ret (Inl InvalidPreparedStatement), w)"
proof (cases "ps_session stmt = prepared_session (conn w)")
  case True
  with prepared_script [OF assms(1,2) True assms(3,4)] show ?thesis by simp
next
  case False
  have "client_ensure_usable D (conn w) = Inr ()"
    using assms(4) by (simp add: client_ensure_usable_def ensure_usable_def answers_def)
  with False show ?thesis
    by (simp add: query_prepared_def execute_prepared_def with_statement_def validate_session_def)
qed

theorem prepared_returns_reply_witness:
  "\<exists>w'. execute_prepared (replay_driver sample_lib) \<lparr>ps_handle = 5, ps_sql = ''UPDATE'', ps_session = 0\<rparr> []
      (sample_world None [[R_norows (Some 4)]]) =
    Some (Ret (Inr \<lparr>counts = [4]\<rparr>), w')"
proof -
  let ?rs = "[R_norows (Some 4)]"
  let ?stmt = "\<lparr>ps_handle = 5, ps_sql = ''UPDATE'', ps_session = 0\<rparr>"
  have "answers (replay_driver sample_lib) live_cursor
      (drv_execute_stored_procedure (replay_driver sample_lib) ''sp_execute''
         (Some [\<lparr>rp_name = None, rp_flags = FLAGS_NONE, rp_value = ST_Int (Some (ps_handle ?stmt))\<rparr>]) None)
      (inner (conn (sample_world None [?rs]))) ?rs"
    by (simp add: answers_def sample_world_def sample_client_def replay_start_def replay_driver_def
        replay_request_def live_cursor_def)
  from prepared_returns_reply [OF replay_follows_script _ _ this] show ?thesis
    by (simp add: sample_world_def sample_client_def prepared_params_def)
qed

end
