(* ===== verification/StreamModel.thy ===== *)
theory StreamModel
  imports ClientModel
begin

text \<open>
  The streaming side: the generator of \<open>Client::query_compat\<close> as a state machine whose
  states are its yield points, and \<open>compat.rs\<close>: \<open>Query\<close>, \<open>QueryItem\<close>, and
  \<open>QueryStream\<close> with its one-item lookahead, its flattening to rows and its collection.
  A poll that is dropped while it is pending is the outcome \<open>Dropped\<close>.
\<close>

section \<open>Items\<close>

record result_metadata =
  rm_schema :: arc_schema
  rm_result_index :: nat

definition result_metadata_new :: "arc_schema \<Rightarrow> nat \<Rightarrow> result_metadata" where
  "result_metadata_new s i = \<lparr>rm_schema = s, rm_result_index = i\<rparr>"

definition metadata_columns :: "result_metadata \<Rightarrow> column list" where
  "metadata_columns m = columns (pointee (rm_schema m))"

datatype query_item = ItemRow row | ItemMetadata result_metadata

fun as_metadata :: "query_item \<Rightarrow> result_metadata option" where
  "as_metadata (ItemMetadata m) = Some m"
| "as_metadata (ItemRow _) = None"

fun as_row :: "query_item \<Rightarrow> row option" where
  "as_row (ItemRow r) = Some r"
| "as_row (ItemMetadata _) = None"

fun into_metadata :: "query_item \<Rightarrow> result_metadata option" where
  "into_metadata (ItemMetadata m) = Some m"
| "into_metadata (ItemRow _) = None"

fun query_item_into_row :: "query_item \<Rightarrow> row option" where
  "query_item_into_row (ItemRow r) = Some r"
| "query_item_into_row (ItemMetadata _) = None"

section \<open>The generator of query\_compat\<close>

text \<open>Before the first poll, at the head of the outer loop (never a yield point: each poll
  passes through it), after a yield inside a result set, and at the end.\<close>

datatype stream_state =
    S_start string "rpc_parameter list option"
  | S_rows nat bridge_row_writer
  | S_done

type_synonym ('c, 's, 'i) async_poll = "'s \<Rightarrow> ('c, 'i option \<times> 's) io"

text \<open>\<open>?\<close> inside \<open>try_stream!\<close>: yield the error and finish.\<close>

definition yield_error ::
    "('c, error + 'a) io \<Rightarrow> ('a \<Rightarrow> ('c, (error + query_item) option \<times> stream_state) io)
       \<Rightarrow> ('c, (error + query_item) option \<times> stream_state) io" where
  "yield_error m f =
     io_bind m (\<lambda>r. case r of Inl e \<Rightarrow> io_ret (Some (Inl e), S_done) | Inr x \<Rightarrow> f x)"

text \<open>\<open>self.inner.on_rows() || Self::advance_stream(&mut self.inner).await?\<close>\<close>

definition stream_positioned :: "'c driver \<Rightarrow> ('c, error + bool) io" where
  "stream_positioned D w =
     (if drv_on_rows D (conn w) then io_ret (Inr True) w else advance_stream D w)"

definition stream_top ::
    "'c driver \<Rightarrow> nat \<Rightarrow> ('c, (error + query_item) option \<times> stream_state) io" where
  "stream_top D index =
     yield_error (stream_positioned D)
       (\<lambda>on. if \<not> on then io_ret (None, S_done)
             else io_bind (new_schema D) (\<lambda>s.
               io_ret (Some (Inr (ItemMetadata (result_metadata_new s index))),
                       S_rows index (with_result_index s index))))"

definition stream_next_row ::
    "'c driver \<Rightarrow> tds_lib \<Rightarrow> nat \<Rightarrow> bridge_row_writer \<Rightarrow> ('c, (error + query_item) option \<times> stream_state) io" where
  "stream_next_row D L index writer =
     yield_error (guarded (drv_health D) (await_next_row_into D L writer))
       (\<lambda>res. if fst res
              then io_ret (Some (Inr (ItemRow (fst (take_row (snd res))))),
                           S_rows index (snd (take_row (snd res))))
              else yield_error (advance_stream D)
                     (\<lambda>more. if \<not> more then io_ret (None, S_done)
                             else stream_top D (index + 1)))"

definition stream_start ::
    "'c driver \<Rightarrow> string \<Rightarrow> rpc_parameter list option \<Rightarrow> ('c, (error + query_item) option \<times> stream_state) io" where
  "stream_start D sql rpc_params =
     yield_error
       (guarded (drv_health D)
         (io_try (await_tds D (drv_close_query D))
           (\<lambda>_. io_try (case rpc_params of
                          None \<Rightarrow> await_tds D (drv_execute D sql)
                        | Some p \<Rightarrow> await_tds D (drv_execute_sp_executesql D sql p))
             (\<lambda>_. io_ret (Inr ())))))
       (\<lambda>_. stream_top D 0)"

fun stream_poll :: "'c driver \<Rightarrow> tds_lib \<Rightarrow> ('c, stream_state, error + query_item) async_poll" where
  "stream_poll D L (S_start sql rpc_params) = stream_start D sql rpc_params"
| "stream_poll D L (S_rows index writer) = stream_next_row D L index writer"
| "stream_poll D L S_done = io_ret (None, S_done)"

section \<open>QueryStream\<close>

record 's query_stream =
  qs_inner :: 's
  qs_peeked :: "(error + query_item) option"
  qs_columns :: "arc_schema option"

definition query_stream_new :: "'s \<Rightarrow> 's query_stream" where
  "query_stream_new s = \<lparr>qs_inner = s, qs_peeked = None, qs_columns = None\<rparr>"

text \<open>\<open>Client::query_compat\<close>: the parameters are built by the call, \<open>None\<close> when that
  panics; the operation starts at the first poll.\<close>

definition query_compat ::
    "string \<Rightarrow> dyn_to_sql list \<Rightarrow> bool \<Rightarrow> stream_state query_stream option" where
  "query_compat sql params unicode =
     (if params = [] then Some (query_stream_new (S_start sql None))
      else map_option (\<lambda>p. query_stream_new (S_start sql (Some p)))
             (build_params_with_string_encoding params unicode))"

definition simple_query_compat :: "string \<Rightarrow> bool \<Rightarrow> stream_state query_stream option" where
  "simple_query_compat sql unicode = query_compat sql [] unicode"

definition note_columns :: "(error + query_item) option \<Rightarrow> arc_schema option \<Rightarrow> arc_schema option" where
  "note_columns item cols =
     (case item of
        Some (Inr (ItemMetadata m)) \<Rightarrow> Some (rm_schema m)
      | Some (Inl _) \<Rightarrow> None
      | _ \<Rightarrow> cols)"

definition qs_poll ::
    "('c, 's, error + query_item) async_poll \<Rightarrow> ('c, 's query_stream, error + query_item) async_poll" where
  "qs_poll poll q =
     (case qs_peeked q of
        Some item \<Rightarrow>
          io_ret (Some item, q\<lparr>qs_peeked := None, qs_columns := note_columns (Some item) (qs_columns q)\<rparr>)
      | None \<Rightarrow>
          io_bind (poll (qs_inner q)) (\<lambda>(item, s).
            io_ret (item, q\<lparr>qs_inner := s, qs_columns := note_columns item (qs_columns q)\<rparr>)))"

definition qs_columns_result :: "'s query_stream \<Rightarrow> column list option" where
  "qs_columns_result q = map_option (\<lambda>s. columns (pointee s)) (qs_columns q)"

definition qs_get_columns ::
    "('c, 's, error + query_item) async_poll \<Rightarrow> 's query_stream
       \<Rightarrow> ('c, (error + column list option) \<times> 's query_stream) io" where
  "qs_get_columns poll q =
     (case qs_peeked q of
        Some _ \<Rightarrow> io_ret (Inr (qs_columns_result q), q)
      | None \<Rightarrow>
          io_bind (poll (qs_inner q)) (\<lambda>(item, s).
            case item of
              Some (Inr it) \<Rightarrow>
                (let q' = q\<lparr>qs_inner := s, qs_peeked := Some (Inr it),
                            qs_columns := (case it of ItemMetadata m \<Rightarrow> Some (rm_schema m)
                                           | ItemRow _ \<Rightarrow> qs_columns q)\<rparr>
                 in io_ret (Inr (qs_columns_result q'), q'))
            | Some (Inl e) \<Rightarrow> io_ret (Inl e, q\<lparr>qs_inner := s, qs_columns := None\<rparr>)
            | None \<Rightarrow> (let q' = q\<lparr>qs_inner := s\<rparr> in io_ret (Inr (qs_columns_result q'), q'))))"

text \<open>\<open>into_results\<close>: a row before any metadata opens a result set of its own.\<close>

fun push_item :: "row list list \<Rightarrow> query_item \<Rightarrow> row list list" where
  "push_item results (ItemMetadata _) = results @ [[]]"
| "push_item results (ItemRow r) =
     (if results = [] then [[r]] else butlast results @ [last results @ [r]])"

partial_function (option) qs_collect ::
    "('c, 's, error + query_item) async_poll \<Rightarrow> 's query_stream \<Rightarrow> row list list \<Rightarrow> 'c world
       \<Rightarrow> ((error + row list list) outcome \<times> 'c world) option" where
  "qs_collect poll q results w =
     io_bind (qs_poll poll q)
       (\<lambda>p w'. case fst p of
          None \<Rightarrow> io_ret (Inr results) w'
        | Some item \<Rightarrow>
            (case item of
               Inl e \<Rightarrow> io_ret (Inl e) w'
             | Inr it \<Rightarrow> qs_collect poll (snd p) (push_item results it) w')) w"

definition qs_into_results ::
    "('c, 's, error + query_item) async_poll \<Rightarrow> 's query_stream \<Rightarrow> ('c, error + row list list) io" where
  "qs_into_results poll q w = qs_collect poll q [] w"

definition first_or_empty :: "row list list \<Rightarrow> row list" where
  "first_or_empty sets = (case sets of [] \<Rightarrow> [] | s # _ \<Rightarrow> s)"

definition qs_into_first_result ::
    "('c, 's, error + query_item) async_poll \<Rightarrow> 's query_stream \<Rightarrow> ('c, error + row list) io" where
  "qs_into_first_result poll q =
     io_try (qs_into_results poll q) (\<lambda>sets. io_ret (Inr (first_or_empty sets)))"

definition qs_into_row ::
    "('c, 's, error + query_item) async_poll \<Rightarrow> 's query_stream \<Rightarrow> ('c, error + row option) io" where
  "qs_into_row poll q =
     io_try (qs_into_first_result poll q)
       (\<lambda>rows. io_ret (Inr (case rows of [] \<Rightarrow> None | r # _ \<Rightarrow> Some r)))"

text \<open>The row-only generators of \<open>into_row_stream\<close> and \<open>query_streamed\<close>: an error is
  yielded once and ends them; \<open>None\<close> is the finished generator.\<close>

partial_function (option) row_items_poll ::
    "('c, 's, error + query_item) async_poll \<Rightarrow> 's query_stream \<Rightarrow> 'c world
       \<Rightarrow> (((error + row) option \<times> 's query_stream option) outcome \<times> 'c world) option" where
  "row_items_poll poll q w =
     io_bind (qs_poll poll q)
       (\<lambda>p w'. case fst p of
          None \<Rightarrow> io_ret (None, None) w'
        | Some item \<Rightarrow>
            (case item of
               Inl e \<Rightarrow> io_ret (Some (Inl e), None) w'
             | Inr it \<Rightarrow>
                 (case it of
                    ItemRow r \<Rightarrow> io_ret (Some (Inr r), Some (snd p)) w'
                  | ItemMetadata _ \<Rightarrow> row_items_poll poll (snd p) w'))) w"

definition row_stream_gen_poll ::
    "('c, 's, error + query_item) async_poll \<Rightarrow> ('c, 's query_stream option, error + row) async_poll" where
  "row_stream_gen_poll poll g =
     (case g of None \<Rightarrow> io_ret (None, None) | Some q \<Rightarrow> row_items_poll poll q)"

definition query_streamed ::
    "string \<Rightarrow> dyn_to_sql list \<Rightarrow> bool \<Rightarrow> stream_state query_stream option option" where
  "query_streamed sql params unicode = map_option Some (query_compat sql params unicode)"

definition simple_query_streamed :: "string \<Rightarrow> bool \<Rightarrow> stream_state query_stream option option" where
  "simple_query_streamed sql unicode = query_streamed sql [] unicode"

section \<open>Query\<close>

record dyn_query =
  q_sql :: string
  q_params :: "column_data list"

definition query_new :: "string \<Rightarrow> dyn_query" where
  "query_new sql = \<lparr>q_sql = sql, q_params = []\<rparr>"

definition query_bind :: "column_data \<Rightarrow> dyn_query \<Rightarrow> dyn_query" where
  "query_bind param q = q\<lparr>q_params := q_params q @ [param]\<rparr>"

definition query_dyn_params :: "tds_lib \<Rightarrow> dyn_query \<Rightarrow> dyn_to_sql list" where
  "query_dyn_params L q = map (\<lambda>p. Some (column_data_to_sql L p)) (q_params q)"

definition query_query ::
    "'c driver \<Rightarrow> tds_lib \<Rightarrow> dyn_query \<Rightarrow> ('c client, error + stream_state query_stream) io" where
  "query_query D L q =
     reading send_string_parameters_as_unicode (\<lambda>unicode.
       case query_compat (q_sql q) (query_dyn_params L q) unicode of
         None \<Rightarrow> io_panic
       | Some stream \<Rightarrow>
           with_inner (io_bind (qs_get_columns (stream_poll D L) stream)
             (\<lambda>(r, stream'). io_ret (case r of Inl e \<Rightarrow> Inl e | Inr _ \<Rightarrow> Inr stream'))))"

definition query_execute ::
    "'c driver \<Rightarrow> tds_lib \<Rightarrow> dyn_query \<Rightarrow> ('c client, error + execute_result) io" where
  "query_execute D L q = client_execute D (q_sql q) (query_dyn_params L q)"

section \<open>What a stream delivers\<close>

text \<open>The items a stream yields when it is polled to its end, every poll awaited.\<close>

inductive delivers :: "('c, 's, 'i) async_poll \<Rightarrow> 's \<Rightarrow> 'c world \<Rightarrow> 'i list \<Rightarrow> bool"
  for poll where
  delivers_end: "poll s w = Some (Ret (None, s'), w') \<Longrightarrow> delivers poll s w []"
| delivers_item: "poll s w = Some (Ret (Some x, s'), w') \<Longrightarrow> delivers poll s' w' xs
    \<Longrightarrow> delivers poll s w (x # xs)"

inductive_cases delivers_NilE: "delivers poll s w []"
inductive_cases delivers_ConsE: "delivers poll s w (x # xs)"

text \<open>The items of a reply: for each result set its metadata, then its rows.\<close>

fun reply_items :: "tds_lib \<Rightarrow> nat \<Rightarrow> nat \<Rightarrow> reply list \<Rightarrow> (error + query_item) list" where
  "reply_items L p i [] = []"
| "reply_items L p i (R_norows _ # rest) = reply_items L p i rest"
| "reply_items L p i (R_error e # rest) = [Inl (Tds e)]"
| "reply_items L p i (R_rows md rows err # rest) =
     Inr (ItemMetadata (result_metadata_new (reply_schema p md) i)) #
     map (\<lambda>calls. Inr (ItemRow (reply_row L (reply_schema p md) i calls))) rows @
     (case err of Some e \<Rightarrow> [Inl (Tds e)] | None \<Rightarrow> reply_items L (Suc p) (Suc i) rest)"

lemma items_to_rows:
  obtains
    (stop) "script_to_rows rs = (Inr False, Between [])" "\<And>p i. reply_items L p i rs = []"
  | (failed) e rest where "script_to_rows rs = (Inl e, Between rest)" "\<And>p i. reply_items L p i rs = [Inl (Tds e)]"
  | (found) md rows err rest where "script_to_rows rs = (Inr True, OnRows md rows err rest)"
      "\<And>p i. reply_items L p i rs = reply_items L p i (R_rows md rows err # rest)" "length rest < length rs"
proof (induction rs arbitrary: thesis)
  case Nil
  then show ?case by simp
next
  case (Cons r rs)
  show ?case
  proof (cases r)
    case (R_norows n)
    show ?thesis
      by (rule Cons.IH) (use R_norows Cons.prems in auto)
  qed (use Cons.prems in auto)
qed

text \<open>The state of a world that streams a script: the driver is alive and stays so.\<close>

definition stays_alive :: "'c driver \<Rightarrow> ('c \<Rightarrow> cursor option) \<Rightarrow> bool" where
  "stays_alive D S \<longleftrightarrow> (\<forall>c cur. S c = Some cur \<longrightarrow> \<not> is_dead (drv_health D) c)"

lemma advance_stream_script:
  assumes "follows_script D L S" and "stays_alive D S" and "budget w = None"
    and "S (conn w) = Some cur" and "cursor_rest cur = Some rest"
  obtains c' where "advance_stream D w = Some (Ret (map_err Tds (fst (script_to_rows rest))), w\<lparr>conn := c'\<rparr>)"
    "is_ok (fst (script_to_rows rest)) \<Longrightarrow> S c' = Some (snd (script_to_rows rest))"
proof -
  from script_advance_to_rows [OF assms(1,4,5)] obtain c' where
    adv: "drv_advance_to_rows D (conn w) = (fst (script_to_rows rest), c')"
    and S: "is_ok (fst (script_to_rows rest)) \<Longrightarrow> S c' = Some (snd (script_to_rows rest))" by blast
  have "\<not> is_dead (drv_health D) (conn w)" using assms(2,4) by (auto simp: stays_alive_def)
  then have "advance_stream D w = Some (Ret (map_err Tds (fst (script_to_rows rest))), w\<lparr>conn := c'\<rparr>)"
    using await_tds_unlimited [where f = "drv_advance_to_rows D", OF assms(3) adv]
    by (simp add: advance_stream_def guarded_alive)
  with S that show thesis by blast
qed

lemma stream_top_on_rows:
  assumes "follows_script D L S" and "S (conn w) = Some (OnRows md rows err rest)"
  shows "stream_top D i w =
    Some (Ret (Some (Inr (ItemMetadata (result_metadata_new (reply_schema (next_arc w) md) i))),
               S_rows i (with_result_index (reply_schema (next_arc w) md) i)),
          w\<lparr>next_arc := Suc (next_arc w)\<rparr>)"
  using script_on_rows [OF assms]
  by (simp add: stream_top_def yield_error_def stream_positioned_def io_bind_def new_schema_def
      io_new_arc_def reply_schema_def)

lemma stream_rows_deliver:
  assumes S: "follows_script D L S" and alive: "stays_alive D S"
  shows "budget w = None \<Longrightarrow> S (conn w) = Some (OnRows md rows err rest) \<Longrightarrow>
    delivers (stream_poll D L) (S_rows i (with_result_index s i)) w
      (map (\<lambda>calls. Inr (ItemRow (reply_row L s i calls))) rows @
       (case err of Some e \<Rightarrow> [Inl (Tds e)] | None \<Rightarrow> reply_items L (next_arc w) (Suc i) rest))"
proof (induction "length rest" arbitrary: w md rows err rest i s rule: less_induct)
  case less
  have all_rows: "budget w = None \<Longrightarrow> S (conn w) = Some (OnRows md rows err rest) \<Longrightarrow> next_arc w = p \<Longrightarrow>
    delivers (stream_poll D L) (S_rows i (with_result_index s i)) w
      (map (\<lambda>calls. Inr (ItemRow (reply_row L s i calls))) rows @
       (case err of Some e \<Rightarrow> [Inl (Tds e)] | None \<Rightarrow> reply_items L p (Suc i) rest))" for w rows p
  proof (induction rows arbitrary: w)
    case (Cons calls rows)
    from S Cons.prems(2) show ?case
    proof (cases rule: script_next_row_into)
      case (row calls' rows' c')
      then have eq: "calls' = calls" "rows' = rows" by simp_all
      have "\<not> is_dead (drv_health D) (conn w)" using alive Cons.prems(2) by (auto simp: stays_alive_def)
      then have "stream_poll D L (S_rows i (with_result_index s i)) w =
          Some (Ret (Some (Inr (ItemRow (reply_row L s i calls))), S_rows i (with_result_index s i)), w\<lparr>conn := c'\<rparr>)"
        using await_next_row_into_unlimited [OF Cons.prems(1) row(2), of L "with_result_index s i"]
        by (simp add: stream_next_row_def yield_error_def io_bind_def guarded_alive write_then_take eq)
      from delivers_item [where poll = "stream_poll D L", OF this] Cons.IH [of "w\<lparr>conn := c'\<rparr>"] Cons.prems row(3) eq show ?thesis by simp
    qed simp_all
  next
    case Nil
    have live: "\<not> is_dead (drv_health D) (conn w)" using alive Nil.prems(2) by (auto simp: stays_alive_def)
    from S Nil.prems(2) show ?case
    proof (cases rule: script_next_row_into)
      case (failed e c')
      have "stream_poll D L (S_rows i (with_result_index s i)) w =
          Some (Ret (Some (Inl (Tds e)), S_done), w\<lparr>conn := c'\<rparr>)"
        using await_next_row_into_unlimited [OF Nil.prems(1) failed(3), of L "with_result_index s i"] live
        by (simp add: stream_next_row_def yield_error_def io_bind_def guarded_alive)
      moreover have "delivers (stream_poll D L) S_done v []" for v
        by (rule delivers_end [where s' = S_done]) simp
      ultimately show ?thesis using failed(2) by (auto intro: delivers_item)
    next
      case (finished c')
      let ?w1 = "w\<lparr>conn := c'\<rparr>"
      from advance_stream_script [OF S alive, of ?w1 "AfterRows rest" rest] Nil.prems(1) finished(4)
      obtain c2 where adv: "advance_stream D ?w1 = Some (Ret (map_err Tds (fst (script_to_rows rest))), ?w1\<lparr>conn := c2\<rparr>)"
        and S2: "is_ok (fst (script_to_rows rest)) \<Longrightarrow> S c2 = Some (snd (script_to_rows rest))"
        by auto
      have poll: "stream_poll D L (S_rows i (with_result_index s i)) w =
          yield_error (advance_stream D) (\<lambda>more. if \<not> more then io_ret (None, S_done) else stream_top D (i + 1)) ?w1"
        using await_next_row_into_unlimited [OF Nil.prems(1) finished(3), of L "with_result_index s i"] live
        by (simp add: stream_next_row_def yield_error_def io_bind_def guarded_alive)
      show ?thesis
      proof (cases rule: items_to_rows [of rest L])
        case stop
        with poll adv have "stream_poll D L (S_rows i (with_result_index s i)) w = Some (Ret (None, S_done), ?w1\<lparr>conn := c2\<rparr>)"
          by (simp add: yield_error_def io_bind_def)
        with stop(2) finished(2) show ?thesis by (auto intro: delivers_end)
      next
        case (failed e r)
        with poll adv have "stream_poll D L (S_rows i (with_result_index s i)) w =
            Some (Ret (Some (Inl (Tds e)), S_done), ?w1\<lparr>conn := c2\<rparr>)"
          by (simp add: yield_error_def io_bind_def)
        moreover have "delivers (stream_poll D L) S_done v []" for v
          by (rule delivers_end [where s' = S_done]) simp
        ultimately show ?thesis using failed(2) finished(2) by (auto intro: delivers_item)
      next
        case (found md' rows' err' rest')
        let ?w2 = "?w1\<lparr>conn := c2\<rparr>"
        let ?s = "reply_schema (next_arc w) md'"
        from S2 found have S2': "S (conn ?w2) = Some (OnRows md' rows' err' rest')" by simp
        from poll adv found have "stream_poll D L (S_rows i (with_result_index s i)) w = stream_top D (i + 1) ?w2"
          by (simp add: yield_error_def io_bind_def)
        also have "\<dots> = Some (Ret (Some (Inr (ItemMetadata (result_metadata_new ?s (Suc i)))),
               S_rows (Suc i) (with_result_index ?s (Suc i))), ?w2\<lparr>next_arc := Suc (next_arc w)\<rparr>)"
          using stream_top_on_rows [OF S S2', of "i + 1"] by simp
        finally have head: "stream_poll D L (S_rows i (with_result_index s i)) w = \<dots>" .
        from less.hyps [OF found(3), of "?w2\<lparr>next_arc := Suc (next_arc w)\<rparr>" md' rows' err' "Suc i" ?s]
          S2' Nil.prems(1)
        have "delivers (stream_poll D L) (S_rows (Suc i) (with_result_index ?s (Suc i)))
            (?w2\<lparr>next_arc := Suc (next_arc w)\<rparr>)
            (map (\<lambda>calls. Inr (ItemRow (reply_row L ?s (Suc i) calls))) rows' @
             (case err' of Some e \<Rightarrow> [Inl (Tds e)]
              | None \<Rightarrow> reply_items L (Suc (next_arc w)) (Suc (Suc i)) rest'))"
          by (cases err') simp_all
        from delivers_item [where poll = "stream_poll D L", OF head this] found(2) finished(2) Nil.prems(3)
        show ?thesis by (cases err') simp_all
      qed
    qed simp
  qed
  from all_rows [OF less.prems refl] show ?case .
qed

lemma stream_top_deliver:
  assumes S: "follows_script D L S" and alive: "stays_alive D S" and b: "budget w = None"
    and cur: "S (conn w) = Some cur" "at_statement cur"
  shows "\<exists>r v. stream_top D 0 w = Some (Ret r, v) \<and>
     (case fst r of
        None \<Rightarrow> reply_items L (next_arc w) 0 (cursor_replies cur) = []
      | Some x \<Rightarrow> \<exists>xs. reply_items L (next_arc w) 0 (cursor_replies cur) = x # xs \<and>
                    delivers (stream_poll D L) (snd r) v xs)"
proof -
  have fin: "delivers (stream_poll D L) S_done v []" for v
    by (rule delivers_end [where s' = S_done]) simp
  have on: "\<exists>r v. stream_top D 0 w' = Some (Ret r, v) \<and>
     (case fst r of None \<Rightarrow> False
      | Some x \<Rightarrow> \<exists>xs. reply_items L (next_arc w') 0 (R_rows md rows err # rest) = x # xs \<and>
                    delivers (stream_poll D L) (snd r) v xs)"
    if "budget w' = None" "S (conn w') = Some (OnRows md rows err rest)" for w' md rows err rest
    using stream_top_on_rows [OF S that(2), of 0]
      stream_rows_deliver [OF S alive, of "w'\<lparr>next_arc := Suc (next_arc w')\<rparr>" md rows err rest 0
        "reply_schema (next_arc w') md"] that
    by (cases err) simp_all
  show ?thesis
  proof (cases cur)
    case (OnRows md rows err rest)
    with on [of w md rows err rest] b cur show ?thesis by (auto split: option.splits)
  next
    case (Between rest)
    from advance_stream_script [OF S alive b cur(1), of rest] Between obtain c1 where
      adv: "advance_stream D w = Some (Ret (map_err Tds (fst (script_to_rows rest))), w\<lparr>conn := c1\<rparr>)"
      and S1: "is_ok (fst (script_to_rows rest)) \<Longrightarrow> S c1 = Some (snd (script_to_rows rest))" by auto
    have off: "\<not> drv_on_rows D (conn w)" using script_between [OF S] cur(1) Between by simp
    show ?thesis
    proof (cases rule: items_to_rows [of rest L])
      case stop
      with adv off Between show ?thesis
        by (simp add: stream_top_def yield_error_def stream_positioned_def io_bind_def)
    next
      case (failed e r)
      with adv off Between fin show ?thesis
        by (simp add: stream_top_def yield_error_def stream_positioned_def io_bind_def)
    next
      case (found md rows err rest')
      with S1 have S1': "S (conn (w\<lparr>conn := c1\<rparr>)) = Some (OnRows md rows err rest')" by simp
      have "stream_top D 0 w = stream_top D 0 (w\<lparr>conn := c1\<rparr>)"
        using adv off found script_on_rows(1) [OF S S1']
        by (simp add: stream_top_def yield_error_def stream_positioned_def io_bind_def)
      with on [OF _ S1'] b found(2) Between show ?thesis by (auto split: option.splits)
    qed
  qed (use cur(2) in simp)
qed


section \<open>The stream of a query\<close>

lemma fresh_stream_delivers:
  assumes S: "follows_script D L S" and alive: "stays_alive D S" and b: "budget w = None"
    and a: "answers D S (case rpc of None \<Rightarrow> drv_execute D sql | Some p \<Rightarrow> drv_execute_sp_executesql D sql p)
              (conn w) rs"
  shows "delivers (stream_poll D L) (S_start sql rpc) w (reply_items L (next_arc w) 0 rs)"
proof -
  let ?request = "case rpc of None \<Rightarrow> drv_execute D sql | Some p \<Rightarrow> drv_execute_sp_executesql D sql p"
  from a obtain c1 c2 where live: "\<not> is_dead (drv_health D) (conn w)"
    and c1: "drv_close_query D (conn w) = (Inr (), c1)"
    and c2: "?request c1 = (fst (script_advance rs), c2)"
    and S2: "is_ok (fst (script_advance rs)) \<longrightarrow> S c2 = Some (snd (script_advance rs))"
    unfolding answers_def by blast
  obtain r cur where sa: "script_advance rs = (r, cur)" by fastforce
  let ?w2 = "w\<lparr>conn := c2\<rparr>"
  have req: "(case rpc of None \<Rightarrow> await_tds D (drv_execute D sql)
       | Some p \<Rightarrow> await_tds D (drv_execute_sp_executesql D sql p)) = await_tds D ?request"
    by (cases rpc) simp_all
  have aw2: "await_tds D ?request (w\<lparr>conn := c1\<rparr>) = Some (Ret (map_err Tds r), ?w2)"
    using await_tds_unlimited [where f = ?request and w = "w\<lparr>conn := c1\<rparr>" and D = D] b c2 sa by simp
  have fin: "delivers (stream_poll D L) S_done v []" for v
    by (rule delivers_end [where s' = S_done]) simp
  note start = stream_start_def yield_error_def guarded_alive live io_try_def io_bind_def req aw2
    await_tds_unlimited [where f = "drv_close_query D", OF b c1]
  show ?thesis
  proof (cases r)
    case (Inl e)
    then have "stream_poll D L (S_start sql rpc) w = Some (Ret (Some (Inl (Tds e)), S_done), ?w2)"
      by (simp add: start)
    moreover have "reply_items L p i rs = [Inl (Tds e)]" for p i
      using sa Inl by (cases rs rule: script_advance.cases) auto
    ultimately show ?thesis by (auto intro: delivers_item fin)
  next
    case (Inr res)
    have poll: "stream_poll D L (S_start sql rpc) w = stream_top D 0 ?w2"
      using Inr by (simp add: start)
    have items: "at_statement cur" "\<And>p i. reply_items L p i (cursor_replies cur) = reply_items L p i rs"
      using sa Inr by (cases rs rule: script_advance.cases; auto)+
    from stream_top_deliver [OF S alive, of ?w2 cur] b S2 sa Inr items
    obtain x st v where top: "stream_top D 0 ?w2 = Some (Ret (x, st), v)"
      and rest: "case x of None \<Rightarrow> reply_items L (next_arc w) 0 rs = []
        | Some y \<Rightarrow> \<exists>ys. reply_items L (next_arc w) 0 rs = y # ys \<and> delivers (stream_poll D L) st v ys"
      by (auto split: option.splits)
    show ?thesis
    proof (cases x)
      case None
      with poll top rest show ?thesis by (auto intro: delivers_end)
    next
      case (Some y)
      with rest obtain ys where "reply_items L (next_arc w) 0 rs = y # ys" "delivers (stream_poll D L) st v ys"
        by auto
      then show ?thesis
        using delivers_item [where poll = "stream_poll D L" and s = "S_start sql rpc" and w = w,
            OF poll [unfolded top Some]]
        by simp
    qed
  qed
qed

text \<open>The lookahead of \<open>QueryStream\<close> changes nothing in what it delivers.\<close>

lemma qs_delivers:
  "delivers poll s w xs \<Longrightarrow> delivers (qs_poll poll) \<lparr>qs_inner = s, qs_peeked = None, qs_columns = cols\<rparr> w xs"
proof (induction arbitrary: cols rule: delivers.induct)
  case (delivers_end s w s' w')
  then show ?case
    by (intro delivers.delivers_end) (simp add: qs_poll_def io_bind_def)
next
  case (delivers_item s w x s' w' xs)
  show ?case
    by (rule delivers.delivers_item [OF _ delivers_item.IH])
      (simp add: qs_poll_def io_bind_def delivers_item.hyps(1))
qed

lemma qs_peeked_delivers:
  assumes "delivers poll s w xs"
  shows "delivers (qs_poll poll) \<lparr>qs_inner = s, qs_peeked = Some x, qs_columns = cols\<rparr> w (x # xs)"
  by (rule delivers.delivers_item [OF _ qs_delivers [OF assms]]) (simp add: qs_poll_def)

lemma columns_lookahead:
  assumes "delivers poll s w xs"
  shows "\<exists>r q w'. qs_get_columns poll (query_stream_new s) w = Some (Ret (r, q), w') \<and>
    (case xs of
       [] \<Rightarrow> r = Inr None
     | Inl e # ys \<Rightarrow> r = Inl e \<and> delivers (qs_poll poll) q w' ys
     | Inr it # ys \<Rightarrow> r = Inr (map_option metadata_columns (as_metadata it)) \<and>
                    delivers (qs_poll poll) q w' xs)"
  using assms
proof (cases rule: delivers.cases)
  case (delivers_end s' w')
  then show ?thesis
    by (simp add: qs_get_columns_def query_stream_new_def io_bind_def qs_columns_result_def Let_def)
next
  case (delivers_item x s' w' ys)
  show ?thesis
  proof (cases x)
    case (Inl e)
    with delivers_item qs_delivers [OF delivers_item(3), of None] show ?thesis
      by (simp add: qs_get_columns_def query_stream_new_def io_bind_def)
  next
    case (Inr it)
    from qs_peeked_delivers [OF delivers_item(3)] delivers_item Inr show ?thesis
      by (cases it)
        (simp_all add: qs_get_columns_def query_stream_new_def io_bind_def Let_def qs_columns_result_def
          metadata_columns_def comp_def)
  qed
qed

text \<open>The state of a stream between two calls: an item looked at is not an error, and the columns
  it opened are noted.\<close>

definition lookahead_ok :: "'s query_stream \<Rightarrow> bool" where
  "lookahead_ok q \<longleftrightarrow>
     (case qs_peeked q of
        None \<Rightarrow> True
      | Some (Inl _) \<Rightarrow> False
      | Some (Inr it) \<Rightarrow> (\<forall>m. it = ItemMetadata m \<longrightarrow> qs_columns q = Some (rm_schema m)))"

lemma lookahead_ok_poll:
  "lookahead_ok q \<Longrightarrow> qs_poll poll q w = Some (Ret (x, q'), w') \<Longrightarrow> lookahead_ok q'"
  by (auto simp: qs_poll_def lookahead_ok_def io_bind_def split: option.splits outcome.splits prod.splits)

text \<open>With an item looked at already, nothing is polled and nothing changes.\<close>

lemma columns_again:
  assumes "lookahead_ok q" and "qs_peeked q = Some x" and "delivers (qs_poll poll) q w xs"
  obtains it ys where "x = Inr it" and "xs = Inr it # ys"
    and "qs_get_columns poll q w = Some (Ret (Inr (qs_columns_result q), q), w)"
    and "\<And>m. it = ItemMetadata m \<Longrightarrow> qs_columns_result q = Some (metadata_columns m)"
proof -
  from assms(1,2) obtain it where it: "x = Inr it" by (cases x) (auto simp: lookahead_ok_def)
  moreover from assms(3) obtain ys where "xs = x # ys"
    by cases (use assms(2) in \<open>auto simp: qs_poll_def\<close>)
  moreover have "qs_columns_result q = Some (metadata_columns m)" if "it = ItemMetadata m" for m
    using assms(1,2) it that
    by (simp add: lookahead_ok_def qs_columns_result_def metadata_columns_def)
  ultimately show thesis using that assms(2) by (simp add: qs_get_columns_def)
qed

text \<open>Without one, the next item is polled and kept.\<close>

lemma columns_first:
  assumes "qs_peeked q = None" and "delivers (qs_poll poll) q w (Inr it # ys)"
  obtains q' w' where "qs_get_columns poll q w =
      Some (Ret (Inr (case it of ItemMetadata m \<Rightarrow> Some (metadata_columns m) | ItemRow _ \<Rightarrow> qs_columns_result q), q'), w')"
    and "lookahead_ok q'" and "delivers (qs_poll poll) q' w' (Inr it # ys)"
proof -
  from assms(2) obtain q1 w1 where p: "qs_poll poll q w = Some (Ret (Some (Inr it), q1), w1)"
    and rest: "delivers (qs_poll poll) q1 w1 ys" by (rule delivers_ConsE) blast
  from p assms(1) obtain s where s: "poll (qs_inner q) w = Some (Ret (Some (Inr it), s), w1)"
    and q1: "q1 = q\<lparr>qs_inner := s, qs_columns := note_columns (Some (Inr it)) (qs_columns q)\<rparr>"
    by (auto simp: qs_poll_def io_bind_def split: option.splits outcome.splits prod.splits)
  let ?q = "q\<lparr>qs_inner := s, qs_peeked := Some (Inr it),
    qs_columns := (case it of ItemMetadata m \<Rightarrow> Some (rm_schema m) | ItemRow _ \<Rightarrow> qs_columns q)\<rparr>"
  have "qs_poll poll ?q w1 = Some (Ret (Some (Inr it), q1), w1)"
    using assms(1) by (cases q; cases it) (simp_all add: qs_poll_def q1 note_columns_def)
  with rest have "delivers (qs_poll poll) ?q w1 (Inr it # ys)" by (rule delivers_item [rotated])
  moreover have "lookahead_ok ?q" by (cases it) (simp_all add: lookahead_ok_def)
  moreover have "qs_get_columns poll q w = Some (Ret (Inr (case it of ItemMetadata m \<Rightarrow> Some (metadata_columns m)
      | ItemRow _ \<Rightarrow> qs_columns_result q), ?q), w1)"
    using s assms(1)
    by (cases it) (simp_all add: qs_get_columns_def io_bind_def Let_def qs_columns_result_def metadata_columns_def)
  ultimately show thesis using that by blast
qed

text \<open>C15: looking at the columns never loses, repeats or reorders an item, at any point of the
  stream and however often it is done: after \<open>columns()\<close> returned, with an item looked at
  before or not, the stream still delivers exactly what it would have delivered. The answer
  is the schema of the next result set when the next item opens one, and otherwise the one
  noted last. An error met by the lookahead is returned once and is gone from the stream. The
  states between calls that this speaks of are those a new stream, \<open>columns()\<close> and polls
  lead to.\<close>

theorem columns_lookahead_transparent:
  assumes "lookahead_ok q" and "delivers (qs_poll poll) q w xs"
  shows "(\<exists>r q' w'. qs_get_columns poll q w = Some (Ret (r, q'), w') \<and> lookahead_ok q' \<and>
      (case xs of
         [] \<Rightarrow> r = Inr (qs_columns_result q)
       | Inl e # ys \<Rightarrow> r = Inl e \<and> delivers (qs_poll poll) q' w' ys
       | Inr it # ys \<Rightarrow>
           r = Inr (case it of ItemMetadata m \<Rightarrow> Some (metadata_columns m) | ItemRow _ \<Rightarrow> qs_columns_result q) \<and>
           delivers (qs_poll poll) q' w' xs)) \<and>
    lookahead_ok (query_stream_new s) \<and>
    (\<forall>x q' v'. qs_poll poll q v = Some (Ret (x, q'), v') \<longrightarrow> lookahead_ok q')"
proof (intro conjI allI impI)
  show "lookahead_ok (query_stream_new s)" by (simp add: lookahead_ok_def query_stream_new_def)
  show "lookahead_ok q'" if "qs_poll poll q v = Some (Ret (x, q'), v')" for x q' v'
    using lookahead_ok_poll [OF assms(1) that] .
  let ?ok = "\<lambda>r q' w'. (case xs of
         [] \<Rightarrow> r = Inr (qs_columns_result q)
       | Inl e # ys \<Rightarrow> r = Inl e \<and> delivers (qs_poll poll) q' w' ys
       | Inr it # ys \<Rightarrow>
           r = Inr (case it of ItemMetadata m \<Rightarrow> Some (metadata_columns m) | ItemRow _ \<Rightarrow> qs_columns_result q) \<and>
           delivers (qs_poll poll) q' w' xs)"
  show "\<exists>r q' w'. qs_get_columns poll q w = Some (Ret (r, q'), w') \<and> lookahead_ok q' \<and> ?ok r q' w'"
  proof (cases "qs_peeked q")
    case (Some x)
    obtain it ys where "xs = Inr it # ys"
        "qs_get_columns poll q w = Some (Ret (Inr (qs_columns_result q), q), w)"
        "\<And>m. it = ItemMetadata m \<Longrightarrow> qs_columns_result q = Some (metadata_columns m)"
      using columns_again [OF assms(1) Some assms(2)] by metis
    with assms show ?thesis by (cases it) auto
  next
    case None
    show ?thesis
    proof (cases xs)
      case Nil
      with assms(2) None obtain t w1 where "poll (qs_inner q) w = Some (Ret (None, t), w1)"
        by (auto elim!: delivers_NilE simp: qs_poll_def io_bind_def split: option.splits outcome.splits prod.splits)
      with None Nil show ?thesis
        by (simp add: qs_get_columns_def io_bind_def Let_def qs_columns_result_def lookahead_ok_def)
    next
      case (Cons x ys)
      show ?thesis
      proof (cases x)
        case (Inr it)
        obtain q' w' where "qs_get_columns poll q w = Some (Ret (Inr (case it of
            ItemMetadata m \<Rightarrow> Some (metadata_columns m) | ItemRow _ \<Rightarrow> qs_columns_result q), q'), w')"
          "lookahead_ok q'" "delivers (qs_poll poll) q' w' (Inr it # ys)"
          using columns_first [OF None assms(2) [unfolded Cons Inr]] by blast
        with Inr Cons show ?thesis by simp
      next
        case (Inl e)
        from assms(2) [unfolded Cons Inl] obtain q1 w1 where p: "qs_poll poll q w = Some (Ret (Some (Inl e), q1), w1)"
          and rest: "delivers (qs_poll poll) q1 w1 ys" by (rule delivers_ConsE) blast
        with None Inl Cons show ?thesis
          by (auto simp: qs_poll_def qs_get_columns_def io_bind_def note_columns_def lookahead_ok_def
              split: option.splits outcome.splits prod.splits)
      qed
    qed
  qed
qed

section \<open>Collecting a stream\<close>

text \<open>What \<open>into_results\<close> makes of a list of items: the first error, or the result sets.\<close>

fun results_of :: "row list list \<Rightarrow> (error + query_item) list \<Rightarrow> error + row list list" where
  "results_of results [] = Inr results"
| "results_of results (Inl e # xs) = Inl e"
| "results_of results (Inr it # xs) = results_of (push_item results it) xs"

lemma qs_collect_delivers:
  "delivers (qs_poll poll) q w xs \<Longrightarrow>
     \<exists>w'. qs_collect poll q results w = Some (Ret (results_of results xs), w')"
proof (induction arbitrary: results rule: delivers.induct)
  case (delivers_end q w q' w')
  then show ?case by (subst qs_collect.simps) (simp add: io_bind_def)
next
  case (delivers_item q w x q' w' xs)
  show ?case
  proof (cases x)
    case (Inl e)
    with delivers_item.hyps(1) show ?thesis by (subst qs_collect.simps) (simp add: io_bind_def)
  next
    case (Inr it)
    with delivers_item.hyps(1) have "qs_collect poll q results w = qs_collect poll q' (push_item results it) w'"
      by (subst qs_collect.simps) (simp add: io_bind_def)
    with delivers_item.IH [of "push_item results it"] Inr show ?thesis by simp
  qed
qed

lemma results_of_rows:
  "results_of (sets @ [acc]) (map (\<lambda>c. Inr (ItemRow (f c))) rows @ xs) =
     results_of (sets @ [acc @ map f rows]) xs"
  by (induction rows arbitrary: acc) (simp_all add: butlast_append)

lemma results_of_reply_items:
  "results_of sets (reply_items L p i rs) = map_err Tds (map_ok (\<lambda>ss. sets @ ss) (reply_sets L p i rs))"
proof (induction L p i rs arbitrary: sets rule: reply_items.induct)
  case (4 L p i md rows err rest)
  show ?case
  proof (cases err)
    case None
    have "results_of sets (reply_items L p i (R_rows md rows err # rest)) =
        results_of (sets @ [map (reply_row L (reply_schema p md) i) rows]) (reply_items L (Suc p) (Suc i) rest)"
      using None results_of_rows [where acc = "[]"] by simp
    also have "\<dots> = map_err Tds (map_ok (\<lambda>ss. (sets @ [map (reply_row L (reply_schema p md) i) rows]) @ ss)
        (reply_sets L (Suc p) (Suc i) rest))"
      using 4 None by blast
    finally show ?thesis using None by (cases "reply_sets L (Suc p) (Suc i) rest") simp_all
  next
    case (Some e)
    then show ?thesis by (simp add: results_of_rows [where acc = "[]", simplified])
  qed
qed simp_all

text \<open>C3: streaming and buffering agree: collecting the compat stream of a query gives the
  result sets, or the error, that \<open>Client::query\<close> returns for the same reply, row
  for row, including empty result sets in the middle and at the end.\<close>

theorem streamed_equals_buffered:
  assumes "follows_script D L S" and "stays_alive D S" and "budget w = None"
    and "build_params_with_string_encoding params (send_string_parameters_as_unicode (conn w)) = Some rpc"
    and "answers D S (if params = [] then drv_execute D sql else drv_execute_sp_executesql D sql rpc)
           (inner (conn w)) rs"
    and "query_compat sql params (send_string_parameters_as_unicode (conn w)) = Some stream"
  shows "\<exists>w1 w2 res. with_inner (qs_into_results (stream_poll D L) stream) w = Some (Ret res, w1) \<and>
    client_query D L sql params w = Some (Ret (map_ok (\<lambda>ss. \<lparr>result_sets = ss\<rparr>) res), w2)"
proof -
  let ?w = "\<lparr>conn = inner (conn w), budget = budget w, next_arc = next_arc w\<rparr>"
  let ?sets = "reply_sets L (next_arc w) 0 rs"
  obtain r where stream: "stream = \<lparr>qs_inner = S_start sql r, qs_peeked = None, qs_columns = None\<rparr>"
    and r: "answers D S (case r of None \<Rightarrow> drv_execute D sql | Some p \<Rightarrow> drv_execute_sp_executesql D sql p)
              (conn ?w) rs"
    using assms(4,5,6) by (cases "params = []") (auto simp: query_compat_def query_stream_new_def)
  from fresh_stream_delivers [OF assms(1,2) _ r] assms(3)
  have "delivers (stream_poll D L) (S_start sql r) ?w (reply_items L (next_arc w) 0 rs)" by simp
  from qs_collect_delivers [OF qs_delivers [OF this], where results = "[]"]
  have "\<exists>v. qs_into_results (stream_poll D L) stream ?w =
      Some (Ret (map_err Tds ?sets), v)"
    by (simp add: qs_into_results_def stream results_of_reply_items) (cases ?sets; simp)
  then have "\<exists>w1. with_inner (qs_into_results (stream_poll D L) stream) w = Some (Ret (map_err Tds ?sets), w1)"
    by (rule with_inner_Ret)
  moreover have "\<exists>w2. client_query D L sql params w =
      Some (Ret (map_err Tds (map_ok (\<lambda>ss. \<lparr>result_sets = ss\<rparr>) ?sets)), w2)"
    by (rule client_query_script [OF assms(1,3,4,5)])
  ultimately show ?thesis by (cases ?sets) auto
qed


lemma replay_stays_alive: "stays_alive (replay_driver L) live_cursor"
  by (auto simp: stays_alive_def live_cursor_def replay_driver_def split: if_splits)

theorem streamed_equals_buffered_witness:
  "\<exists>w1 w2 res. with_inner (qs_into_results (stream_poll (replay_driver sample_lib) sample_lib)
       (query_stream_new (S_start ''SELECT 1'' None)))
       (sample_world None [[R_rows [] [[W_i32 0 1]] None, R_rows [] [] None]]) = Some (Ret res, w1) \<and>
     client_query (replay_driver sample_lib) sample_lib ''SELECT 1'' []
       (sample_world None [[R_rows [] [[W_i32 0 1]] None, R_rows [] [] None]])
       = Some (Ret (map_ok (\<lambda>ss. \<lparr>result_sets = ss\<rparr>) res), w2)"
proof -
  let ?rs = "[R_rows [] [[W_i32 0 1]] None, R_rows [] [] None]"
  have "answers (replay_driver sample_lib) live_cursor
      (if [] = ([] :: dyn_to_sql list) then drv_execute (replay_driver sample_lib) ''SELECT 1''
       else drv_execute_sp_executesql (replay_driver sample_lib) ''SELECT 1'' [])
      (inner (conn (sample_world None [?rs]))) ?rs"
    by (simp add: answers_def sample_world_def sample_client_def replay_start_def replay_driver_def
        replay_request_def live_cursor_def)
  from streamed_equals_buffered [OF replay_follows_script replay_stays_alive _ _ this] show ?thesis
    by (simp add: sample_world_def build_params_with_string_encoding_def query_compat_def)
qed

theorem columns_lookahead_transparent_witness:
  "\<forall>x. \<exists>r q w'. qs_get_columns (stream_poll (replay_driver sample_lib) sample_lib)
     \<lparr>qs_inner = S_done, qs_peeked = Some (Inr (ItemRow x)), qs_columns = None\<rparr>
     \<lparr>conn = replay_start [], budget = None, next_arc = 0\<rparr> = Some (Ret (r, q), w') \<and> r = Inr None \<and>
     delivers (qs_poll (stream_poll (replay_driver sample_lib) sample_lib)) q w' [Inr (ItemRow x)]"
proof
  fix x
  let ?w = "\<lparr>conn = replay_start [], budget = None, next_arc = 0\<rparr>"
  let ?poll = "stream_poll (replay_driver sample_lib) sample_lib"
  let ?q = "\<lparr>qs_inner = S_done, qs_peeked = Some (Inr (ItemRow x)), qs_columns = None\<rparr>"
  have "delivers ?poll S_done ?w []" by (rule delivers_end [where s' = S_done]) simp
  then have "delivers (qs_poll ?poll) ?q ?w [Inr (ItemRow x)]" by (rule qs_peeked_delivers)
  moreover have "lookahead_ok ?q" by (simp add: lookahead_ok_def)
  ultimately show "\<exists>r q w'. qs_get_columns ?poll ?q ?w = Some (Ret (r, q), w') \<and> r = Inr None \<and>
     delivers (qs_poll ?poll) q w' [Inr (ItemRow x)]"
    using columns_lookahead_transparent [of ?q ?poll ?w "[Inr (ItemRow x)]", THEN conjunct1]
    by (auto simp: qs_columns_result_def)
qed

section \<open>Rows only\<close>

fun rows_of :: "(error + query_item) list \<Rightarrow> (error + row) list" where
  "rows_of [] = []"
| "rows_of (Inl e # xs) = [Inl e]"
| "rows_of (Inr (ItemRow r) # xs) = Inr r # rows_of xs"
| "rows_of (Inr (ItemMetadata _) # xs) = rows_of xs"

lemma row_gen_delivers:
  "delivers (qs_poll poll) q w xs \<Longrightarrow> delivers (row_stream_gen_poll poll) (Some q) w (rows_of xs)"
proof (induction rule: delivers.induct)
  case (delivers_end q w q' w')
  have "row_stream_gen_poll poll (Some q) w = Some (Ret (None, None), w')"
    using delivers_end by (simp add: row_stream_gen_poll_def) (subst row_items_poll.simps, simp add: io_bind_def)
  then show ?case by (auto intro: delivers.delivers_end)
next
  case (delivers_item q w x q' w' xs)
  show ?case
  proof (cases x)
    case (Inl e)
    have "row_stream_gen_poll poll (Some q) w = Some (Ret (Some (Inl e), None), w')"
      using delivers_item.hyps(1) Inl
      by (simp add: row_stream_gen_poll_def) (subst row_items_poll.simps, simp add: io_bind_def)
    moreover have "delivers (row_stream_gen_poll poll) None w' []"
      by (rule delivers.delivers_end [where s' = None]) (simp add: row_stream_gen_poll_def)
    ultimately show ?thesis using Inl by (auto intro: delivers.delivers_item)
  next
    case (Inr it)
    show ?thesis
    proof (cases it)
      case (ItemRow r)
      have "row_stream_gen_poll poll (Some q) w = Some (Ret (Some (Inr r), Some q'), w')"
        using delivers_item.hyps(1) Inr ItemRow
        by (simp add: row_stream_gen_poll_def) (subst row_items_poll.simps, simp add: io_bind_def)
      from delivers.delivers_item [where poll = "row_stream_gen_poll poll", OF this delivers_item.IH]
      show ?thesis using Inr ItemRow by simp
    next
      case (ItemMetadata m)
      have same: "row_stream_gen_poll poll (Some q) w = row_stream_gen_poll poll (Some q') w'"
        using delivers_item.hyps(1) Inr ItemMetadata
        by (simp add: row_stream_gen_poll_def) (subst row_items_poll.simps, simp add: io_bind_def)
      from delivers_item.IH have "delivers (row_stream_gen_poll poll) (Some q) w (rows_of xs)"
        by (cases rule: delivers.cases)
          (auto intro: delivers.delivers_end delivers.delivers_item simp: same)
      then show ?thesis using Inr ItemMetadata by simp
    qed
  qed
qed

text \<open>The rows of a reply, up to its error if it has one.\<close>

fun reply_rows :: "tds_lib \<Rightarrow> nat \<Rightarrow> nat \<Rightarrow> reply list \<Rightarrow> row list" where
  "reply_rows L p i [] = []"
| "reply_rows L p i (R_norows _ # rest) = reply_rows L p i rest"
| "reply_rows L p i (R_error e # rest) = []"
| "reply_rows L p i (R_rows md rows err # rest) =
     map (reply_row L (reply_schema p md) i) rows @
     (if err = None then reply_rows L (Suc p) (Suc i) rest else [])"

lemma rows_of_rows: "rows_of (map (\<lambda>c. Inr (ItemRow (f c))) rows @ xs) = map Inr (map f rows) @ rows_of xs"
  by (induction rows) simp_all

lemma rows_of_reply_items:
  "rows_of (reply_items L p i rs) =
     map Inr (reply_rows L p i rs) @ (case reply_sets L p i rs of Inl e \<Rightarrow> [Inl (Tds e)] | Inr _ \<Rightarrow> [])"
  by (induction L p i rs rule: reply_rows.induct) (auto simp: rows_of_rows split: option.splits sum.splits)

lemma reply_rows_concat: "reply_sets L p i rs = Inr sets \<Longrightarrow> reply_rows L p i rs = concat sets"
  by (induction L p i rs arbitrary: sets rule: reply_rows.induct) (auto split: option.splits)

text \<open>C16: \<open>query_streamed\<close> yields one after another, flattened over the result sets, the rows
  the server sent before its error, then the error once, and ends; when the reply has no
  error these are the rows \<open>query\<close> buffers, and when it has one it is the error \<open>query\<close>
  returns in place of all rows.\<close>

theorem query_streamed_rows:
  assumes "follows_script D L S" and "stays_alive D S" and "budget w = None"
    and "build_params_with_string_encoding params (send_string_parameters_as_unicode (conn w)) = Some rpc"
    and "answers D S (if params = [] then drv_execute D sql else drv_execute_sp_executesql D sql rpc)
           (inner (conn w)) rs"
    and "query_streamed sql params (send_string_parameters_as_unicode (conn w)) = Some stream"
  shows "\<exists>r w'. client_query D L sql params w = Some (Ret r, w') \<and>
    delivers (row_stream_gen_poll (stream_poll D L)) stream
      \<lparr>conn = inner (conn w), budget = budget w, next_arc = next_arc w\<rparr>
      (map Inr (reply_rows L (next_arc w) 0 rs) @ (case r of Inl e \<Rightarrow> [Inl e] | Inr _ \<Rightarrow> [])) \<and>
    (\<forall>q. r = Inr q \<longrightarrow> concat (result_sets q) = reply_rows L (next_arc w) 0 rs)"
proof -
  let ?w = "\<lparr>conn = inner (conn w), budget = budget w, next_arc = next_arc w\<rparr>"
  let ?sets = "reply_sets L (next_arc w) 0 rs"
  obtain r where stream: "stream = Some \<lparr>qs_inner = S_start sql r, qs_peeked = None, qs_columns = None\<rparr>"
    and r: "answers D S (case r of None \<Rightarrow> drv_execute D sql | Some p \<Rightarrow> drv_execute_sp_executesql D sql p)
              (conn ?w) rs"
    using assms(4,5,6) by (cases "params = []") (auto simp: query_streamed_def query_compat_def query_stream_new_def)
  from fresh_stream_delivers [OF assms(1,2) _ r] assms(3)
  have "delivers (stream_poll D L) (S_start sql r) ?w (reply_items L (next_arc w) 0 rs)" by simp
  note row_gen_delivers [OF qs_delivers [OF this, of None]]
  moreover obtain w' where "client_query D L sql params w =
      Some (Ret (map_err Tds (map_ok (\<lambda>ss. \<lparr>result_sets = ss\<rparr>) ?sets)), w')"
    using client_query_script [OF assms(1,3,4,5)] by blast
  ultimately show ?thesis
    by (cases ?sets) (auto simp: stream rows_of_reply_items reply_rows_concat)
qed

theorem query_streamed_rows_witness:
  "\<exists>w'. client_query (replay_driver sample_lib) sample_lib ''SELECT 1'' []
      (sample_world None [[R_rows [] [[W_null 0]] (Some (ProtocolError ''lost''))]]) =
      Some (Ret (Inl (Tds (ProtocolError ''lost''))), w') \<and>
    delivers (row_stream_gen_poll (stream_poll (replay_driver sample_lib) sample_lib))
     (Some (query_stream_new (S_start ''SELECT 1'' None)))
     \<lparr>conn = replay_start [[R_rows [] [[W_null 0]] (Some (ProtocolError ''lost''))]], budget = None, next_arc = 1\<rparr>
     [Inr (reply_row sample_lib (reply_schema 1 []) 0 [W_null 0]), Inl (Tds (ProtocolError ''lost''))]"
proof -
  let ?rs = "[R_rows [] [[W_null 0]] (Some (ProtocolError ''lost''))]"
  let ?w = "sample_world None [?rs]"
  have a: "answers (replay_driver sample_lib) live_cursor
      (if [] = ([] :: dyn_to_sql list) then drv_execute (replay_driver sample_lib) ''SELECT 1''
       else drv_execute_sp_executesql (replay_driver sample_lib) ''SELECT 1'' [])
      (inner (conn ?w)) ?rs"
    by (simp add: answers_def sample_world_def sample_client_def replay_start_def replay_driver_def
        replay_request_def live_cursor_def)
  have b: "build_params_with_string_encoding [] (send_string_parameters_as_unicode (conn ?w)) = Some []"
    by (simp add: build_params_with_string_encoding_def)
  have st: "query_streamed ''SELECT 1'' [] (send_string_parameters_as_unicode (conn ?w)) =
      Some (Some (query_stream_new (S_start ''SELECT 1'' None)))"
    by (simp add: query_streamed_def query_compat_def)
  have budget: "budget ?w = None" by (simp add: sample_world_def)
  note script = client_query_script [OF replay_follows_script budget b a]
  from query_streamed_rows [OF replay_follows_script replay_stays_alive budget b a st] script show ?thesis
    by (auto simp: sample_world_def sample_client_def)
qed

section \<open>Dropping a stream\<close>

lemma yield_error_dropped:
  assumes "yield_error m f v = Some (Dropped, v')"
    and "\<And>u u'. m u = Some (Dropped, u') \<Longrightarrow> P u'"
    and "\<And>a u u'. f a u = Some (Dropped, u') \<Longrightarrow> P u'"
  shows "P v'"
  using assms by (auto simp: yield_error_def io_bind_def split: option.splits outcome.splits sum.splits)

lemma stream_poll_dropped:
  assumes "health_law D" and "stream_poll D L st w = Some (Dropped, w')"
  shows "is_dead (drv_health D) (conn w')"
proof -
  note i = connection_health.interrupted_is_dead [OF health_law_connection [OF assms(1)], where r = Dropped]
  have adv: "is_dead (drv_health D) (conn u')" if "advance_stream D u = Some (Dropped, u')" for u u'
    using that i unfolding advance_stream_def by blast
  have pos: "is_dead (drv_health D) (conn u')" if "stream_positioned D u = Some (Dropped, u')" for u u'
    using that adv by (auto simp: stream_positioned_def split: if_splits)
  have top: "is_dead (drv_health D) (conn u')" if "stream_top D k u = Some (Dropped, u')" for k u u'
    using that unfolding stream_top_def
    by (rule yield_error_dropped) (auto intro: pos simp: io_bind_def new_schema_def io_new_arc_def split: if_splits)
  have next_set: "is_dead (drv_health D) (conn u')"
    if "yield_error (advance_stream D) (\<lambda>more. if \<not> more then io_ret (None, S_done) else stream_top D k) u
          = Some (Dropped, u')" for k u u'
    using that by (rule yield_error_dropped) (auto intro: adv top split: if_splits)
  show ?thesis
  proof (cases st)
    case (S_start sql rpc)
    with assms(2) have "stream_start D sql rpc w = Some (Dropped, w')" by simp
    then show ?thesis
      unfolding stream_start_def by (rule yield_error_dropped) (blast intro: i, blast intro: top)
  next
    case (S_rows k writer)
    with assms(2) have "stream_next_row D L k writer w = Some (Dropped, w')" by simp
    then show ?thesis
      unfolding stream_next_row_def
    proof (rule yield_error_dropped)
      fix u u'
      assume "guarded (drv_health D) (await_next_row_into D L writer) u = Some (Dropped, u')"
      then show "is_dead (drv_health D) (conn u')" using i by blast
    next
      fix a :: "bool \<times> bridge_row_writer" and u u'
      assume "(if fst a then io_ret (Some (Inr (ItemRow (fst (take_row (snd a))))), S_rows k (snd (take_row (snd a))))
          else yield_error (advance_stream D)
                 (\<lambda>more. if \<not> more then io_ret (None, S_done) else stream_top D (k + 1))) u = Some (Dropped, u')"
      then show "is_dead (drv_health D) (conn u')" using next_set by (auto split: if_splits)
    qed
  next
    case S_done
    with assms(2) show ?thesis by simp
  qed
qed

text \<open>C20: a stream dropped while one of its polls is suspended in I/O leaves the connection
  marked dead, in every state of the generator and through the lookahead: while the request
  is sent, while a row is read, and while the next result set is looked for.\<close>

theorem dropping_a_pending_stream:
  assumes "health_law D" and "qs_poll (stream_poll D L) q w = Some (Dropped, w')"
  shows "is_dead (drv_health D) (conn w')"
  using assms(2) stream_poll_dropped [OF assms(1)]
  by (auto simp: qs_poll_def io_bind_def split: option.splits outcome.splits)

theorem dropping_a_pending_stream_witness:
  "case qs_poll (stream_poll (replay_driver sample_lib) sample_lib) (query_stream_new (S_start ''SELECT 1'' None))
     \<lparr>conn = replay_start [], budget = Some 1, next_arc = 0\<rparr> of
     Some (Dropped, w') \<Rightarrow> is_dead (drv_health (replay_driver sample_lib)) (conn w')
   | _ \<Rightarrow> False"
proof -
  let ?D = "replay_driver sample_lib"
  let ?run = "qs_poll (stream_poll ?D sample_lib) (query_stream_new (S_start ''SELECT 1'' None))
     \<lparr>conn = replay_start [], budget = Some 1, next_arc = 0\<rparr>"
  obtain w' where w': "?run = Some (Dropped, w')"
    by (simp add: qs_poll_def query_stream_new_def stream_start_def yield_error_def sample_defs replay_driver_def)
  from dropping_a_pending_stream [OF replay_health_law this] w' show ?thesis by simp
qed

end
