(* ===== verification/ConfigModel.thy ===== *)
theory ConfigModel
  imports TdsTypes
begin

text \<open>
  \<open>config.rs\<close>: the connection settings, their setters, the datasource string and the
  client context handed to the driver. The driver's default context and its version
  are arguments; a security context provider is an opaque identity.
\<close>

datatype encryption_level = EncOff | EncOn | EncNotSupported | EncRequired | EncStrict

datatype transport = Tcp | NamedPipe "string option" | SharedMemory

datatype auth_method = SqlServer string string | Integrated | AadToken string

datatype provider_handle = ProviderHandle nat

record config =
  cfg_host :: string
  cfg_port :: u16
  cfg_database :: string
  cfg_auth :: auth_method
  cfg_trust_cert :: bool
  cfg_server_certificate :: "string option"
  cfg_host_name_in_certificate :: "string option"
  cfg_readonly :: bool
  cfg_encryption :: encryption_level
  cfg_application_name :: "string option"
  cfg_instance_name :: "string option"
  cfg_client_name :: "string option"
  cfg_send_string_parameters_as_unicode :: bool
  cfg_multi_subnet_failover :: bool
  cfg_transport :: transport
  cfg_security_context_provider :: "provider_handle option"

definition config_new :: config where
  "config_new = \<lparr>cfg_host = ''localhost'', cfg_port = 1433, cfg_database = ''master'',
     cfg_auth = SqlServer [] [], cfg_trust_cert = False, cfg_server_certificate = None,
     cfg_host_name_in_certificate = None, cfg_readonly = False, cfg_encryption = EncOn,
     cfg_application_name = None, cfg_instance_name = None, cfg_client_name = None,
     cfg_send_string_parameters_as_unicode = True, cfg_multi_subnet_failover = False,
     cfg_transport = Tcp, cfg_security_context_provider = None\<rparr>"

text \<open>The setters, as the calls of the builder and what each does.\<close>

datatype config_call =
    Set_host string | Set_port u16 | Set_database string | Set_authentication auth_method
  | Set_trust_cert | Set_trust_cert_ca string | Set_host_name_in_certificate string
  | Set_client_name string | Set_send_string_parameters_as_unicode bool | Set_readonly bool
  | Set_encryption encryption_level | Set_multi_subnet_failover bool
  | Set_security_context_provider nat | Set_named_pipe "string option" | Set_shared_memory
  | Set_transport transport | Set_application_name string | Set_instance_name string

definition named_pipe :: "string option \<Rightarrow> config \<Rightarrow> config" where [simp]:
  "named_pipe pipe c = c\<lparr>cfg_transport := NamedPipe pipe\<rparr>"

definition shared_memory :: "config \<Rightarrow> config" where [simp]:
  "shared_memory c = c\<lparr>cfg_transport := SharedMemory\<rparr>"

definition set_transport :: "transport \<Rightarrow> config \<Rightarrow> config" where [simp]:
  "set_transport t c = c\<lparr>cfg_transport := t\<rparr>"

definition application_name :: "string \<Rightarrow> config \<Rightarrow> config" where [simp]:
  "application_name n c = c\<lparr>cfg_application_name := Some n\<rparr>"

definition instance_name :: "string \<Rightarrow> config \<Rightarrow> config" where [simp]:
  "instance_name n c = c\<lparr>cfg_instance_name := Some n\<rparr>"

fun config_set :: "config_call \<Rightarrow> config \<Rightarrow> config" where
  "config_set (Set_host h) c = c\<lparr>cfg_host := h\<rparr>"
| "config_set (Set_port p) c = c\<lparr>cfg_port := p\<rparr>"
| "config_set (Set_database d) c = c\<lparr>cfg_database := d\<rparr>"
| "config_set (Set_authentication a) c = c\<lparr>cfg_auth := a\<rparr>"
| "config_set Set_trust_cert c = c\<lparr>cfg_trust_cert := True\<rparr>"
| "config_set (Set_trust_cert_ca path) c = c\<lparr>cfg_server_certificate := Some path\<rparr>"
| "config_set (Set_host_name_in_certificate n) c = c\<lparr>cfg_host_name_in_certificate := Some n\<rparr>"
| "config_set (Set_client_name n) c = c\<lparr>cfg_client_name := Some n\<rparr>"
| "config_set (Set_send_string_parameters_as_unicode b) c = c\<lparr>cfg_send_string_parameters_as_unicode := b\<rparr>"
| "config_set (Set_readonly b) c = c\<lparr>cfg_readonly := b\<rparr>"
| "config_set (Set_encryption l) c = c\<lparr>cfg_encryption := l\<rparr>"
| "config_set (Set_multi_subnet_failover b) c = c\<lparr>cfg_multi_subnet_failover := b\<rparr>"
| "config_set (Set_security_context_provider p) c = c\<lparr>cfg_security_context_provider := Some (ProviderHandle p)\<rparr>"
| "config_set (Set_named_pipe pipe) c = named_pipe pipe c"
| "config_set Set_shared_memory c = shared_memory c"
| "config_set (Set_transport t) c = set_transport t c"
| "config_set (Set_application_name n) c = application_name n c"
| "config_set (Set_instance_name n) c = instance_name n c"

definition string_parameters_as_unicode :: "config \<Rightarrow> bool" where
  "string_parameters_as_unicode c = cfg_send_string_parameters_as_unicode c"

definition is_multi_subnet_failover :: "config \<Rightarrow> bool" where
  "is_multi_subnet_failover c = cfg_multi_subnet_failover c"

definition get_transport :: "config \<Rightarrow> transport" where
  "get_transport c = cfg_transport c"

definition get_addr :: "config \<Rightarrow> string" where
  "get_addr c = cfg_host c @ '':'' @ show_nat (unat (cfg_port c))"

definition backslash :: char where
  "backslash = CHR 0x5C"

definition datasource_string :: "config \<Rightarrow> string" where
  "datasource_string c =
     (case cfg_transport c of
        Tcp \<Rightarrow>
          (case cfg_instance_name c of
             Some inst \<Rightarrow> ''tcp:'' @ cfg_host c @ [backslash] @ inst
           | None \<Rightarrow> ''tcp:'' @ cfg_host c @ '','' @ show_nat (unat (cfg_port c)))
      | NamedPipe (Some p) \<Rightarrow> ''np:'' @ p
      | NamedPipe None \<Rightarrow>
          (let pipe_host = (if cfg_host c = ''.'' \<or> cfg_host c = ''localhost'' then ''.'' else cfg_host c)
           in case cfg_instance_name c of
                Some inst \<Rightarrow> ''np:'' @ [backslash, backslash] @ pipe_host @ [backslash] @ ''pipe'' @ [backslash] @
                  ''MSSQL$'' @ inst @ [backslash] @ ''sql'' @ [backslash] @ ''query''
              | None \<Rightarrow> ''np:'' @ [backslash, backslash] @ pipe_host @ [backslash] @ ''pipe'' @ [backslash] @
                  ''sql'' @ [backslash] @ ''query'')
      | SharedMemory \<Rightarrow>
          (case cfg_instance_name c of
             Some inst \<Rightarrow> ''lpc:'' @ cfg_host c @ [backslash] @ inst
           | None \<Rightarrow> ''lpc:'' @ cfg_host c))"

section \<open>The client context\<close>

datatype encryption_setting = PreferOff | EncryptionOn | EncryptionRequired | EncryptionStrict
datatype authentication_method = PasswordAuth | SSPI | AccessTokenAuth | OtherAuth nat
datatype application_intent = ReadWrite | ReadOnly

record client_context =
  ctx_database :: string
  ctx_user_name :: string
  ctx_password :: string
  ctx_authentication_method :: authentication_method
  ctx_access_token :: "string option"
  ctx_trust_server_certificate :: bool
  ctx_server_certificate :: "string option"
  ctx_host_name_in_cert :: "string option"
  ctx_mode :: encryption_setting
  ctx_application_name :: string
  ctx_workstation_id :: string
  ctx_library_name :: string
  ctx_driver_version :: nat
  ctx_application_intent :: application_intent
  ctx_multi_subnet_failover :: "bool option"
  ctx_security_context_provider :: "nat option"
  ctx_user_agent_library_name :: string
  ctx_user_agent_driver_version :: string

definition DRIVER_NAME :: string where
  "DRIVER_NAME = ''MS-TIB-BRID''"

fun encryption_mode :: "encryption_level \<Rightarrow> encryption_setting" where
  "encryption_mode EncOff = PreferOff"
| "encryption_mode EncOn = EncryptionOn"
| "encryption_mode EncNotSupported = PreferOff"
| "encryption_mode EncRequired = EncryptionRequired"
| "encryption_mode EncStrict = EncryptionStrict"

fun apply_auth :: "auth_method \<Rightarrow> client_context \<Rightarrow> client_context" where
  "apply_auth (SqlServer user password) ctx = ctx\<lparr>ctx_user_name := user, ctx_password := password\<rparr>"
| "apply_auth Integrated ctx = ctx\<lparr>ctx_authentication_method := SSPI\<rparr>"
| "apply_auth (AadToken token) ctx =
     ctx\<lparr>ctx_authentication_method := AccessTokenAuth, ctx_access_token := Some token\<rparr>"

definition to_client_context :: "client_context \<Rightarrow> nat \<Rightarrow> string \<Rightarrow> config \<Rightarrow> client_context" where
  "to_client_context default_ctx cargo_version bridge_version c =
     (let ctx = default_ctx\<lparr>ctx_database := cfg_database c\<rparr>;
          ctx = apply_auth (cfg_auth c) ctx;
          ctx = ctx\<lparr>ctx_trust_server_certificate := cfg_trust_cert c,
                    ctx_server_certificate := cfg_server_certificate c,
                    ctx_host_name_in_cert := cfg_host_name_in_certificate c,
                    ctx_mode := encryption_mode (cfg_encryption c)\<rparr>;
          ctx = (case cfg_application_name c of Some app \<Rightarrow> ctx\<lparr>ctx_application_name := app\<rparr> | None \<Rightarrow> ctx);
          ctx = (case cfg_client_name c of Some n \<Rightarrow> ctx\<lparr>ctx_workstation_id := n\<rparr> | None \<Rightarrow> ctx)
      in ctx\<lparr>ctx_library_name := DRIVER_NAME,
             ctx_driver_version := cargo_version,
             ctx_application_intent := (if cfg_readonly c then ReadOnly else ReadWrite),
             ctx_multi_subnet_failover := Some (cfg_multi_subnet_failover c),
             ctx_security_context_provider :=
               map_option (\<lambda>h. case h of ProviderHandle p \<Rightarrow> p) (cfg_security_context_provider c),
             ctx_user_agent_library_name := DRIVER_NAME,
             ctx_user_agent_driver_version := bridge_version\<rparr>)"

section \<open>Properties\<close>

text \<open>The endpoints a configuration can mean: a port or a named instance of a host, a pipe, or
  the local server. A named instance leaves no room for a port, and the pipe of an instance
  is named by SQL Server's convention, with \<open>localhost\<close> for the local machine.\<close>

datatype endpoint =
    Tcp_port string u16 | Tcp_instance string string | Pipe string | Local string "string option"

definition instance_pipe :: "string \<Rightarrow> string option \<Rightarrow> string" where
  "instance_pipe host inst =
     [backslash, backslash] @ host @ backslash # ''pipe'' @ backslash #
     (case inst of Some i \<Rightarrow> ''MSSQL$'' @ i @ [backslash] | None \<Rightarrow> []) @ ''sql'' @ backslash # ''query''"

fun endpoint_of :: "transport \<Rightarrow> string \<Rightarrow> string option \<Rightarrow> u16 \<Rightarrow> endpoint" where
  "endpoint_of Tcp host (Some inst) _ = Tcp_instance host inst"
| "endpoint_of Tcp host None port = Tcp_port host port"
| "endpoint_of (NamedPipe (Some path)) _ _ _ = Pipe path"
| "endpoint_of (NamedPipe None) host inst _ = Pipe (instance_pipe (if host = ''localhost'' then ''.'' else host) inst)"
| "endpoint_of SharedMemory host inst _ = Local host inst"

definition config_endpoint :: "config \<Rightarrow> endpoint" where
  "config_endpoint c = endpoint_of (cfg_transport c) (cfg_host c) (cfg_instance_name c) (cfg_port c)"

text \<open>The text of an endpoint, and that it determines the endpoint.\<close>

fun endpoint_text :: "endpoint \<Rightarrow> string" where
  "endpoint_text (Tcp_port host port) = ''tcp:'' @ host @ CHR '','' # show_nat (unat port)"
| "endpoint_text (Tcp_instance host inst) = ''tcp:'' @ host @ backslash # inst"
| "endpoint_text (Pipe path) = ''np:'' @ path"
| "endpoint_text (Local host None) = ''lpc:'' @ host"
| "endpoint_text (Local host (Some inst)) = ''lpc:'' @ host @ backslash # inst"

lemma datasource_text: "datasource_string c = endpoint_text (config_endpoint c)"
  by (auto simp: datasource_string_def config_endpoint_def instance_pipe_def Let_def
      split: transport.split option.split)

fun endpoint_host :: "endpoint \<Rightarrow> string" where
  "endpoint_host (Tcp_port host _) = host"
| "endpoint_host (Tcp_instance host _) = host"
| "endpoint_host (Pipe _) = []"
| "endpoint_host (Local host _) = host"

definition plain_host :: "string \<Rightarrow> bool" where
  "plain_host h \<longleftrightarrow> CHR '','' \<notin> set h \<and> backslash \<notin> set h"

lemma split_at_separator:
  assumes "plain_host h" and "plain_host h'" and "c \<in> {CHR '','', backslash}" and "c' \<in> {CHR '','', backslash}"
  shows "h @ c # r = h' @ c' # r' \<longleftrightarrow> h = h' \<and> c = c' \<and> r = r'"
  using assms by (auto simp: plain_host_def append_eq_append_conv2 append_eq_Cons_conv Cons_eq_append_conv)

lemma plain_host_no_instance:
  "plain_host h' \<Longrightarrow> h @ backslash # r \<noteq> h'" "plain_host h' \<Longrightarrow> h' \<noteq> h @ backslash # r"
  by (auto simp: plain_host_def)

lemma endpoint_text_inject:
  assumes "plain_host (endpoint_host e)" and "plain_host (endpoint_host f)"
  shows "endpoint_text e = endpoint_text f \<longleftrightarrow> e = f"
proof -
  have port: "show_nat (unat p) = show_nat (unat q) \<longleftrightarrow> p = q" for p q :: u16
    by (metis read_show_nat word_unat_eq_iff)
  show ?thesis
    using assms
    by (cases e rule: endpoint_text.cases; cases f rule: endpoint_text.cases)
      (simp_all add: split_at_separator plain_host_no_instance port, simp_all add: backslash_def)
qed

text \<open>C39: the datasource string names the configured endpoint and nothing but it. Of two
  configurations whose hosts have neither a comma nor a backslash, the strings are the same
  exactly when the endpoints are: for TCP the host and the named instance when one is set,
  whatever the port is then, and otherwise the host and the 16-bit port; for a pipe its path,
  given or standard for the host and instance, where \<open>localhost\<close> is the local machine; for
  shared memory the host and instance. So no setting that matters is lost, no setting that
  does not matter shows, and no host, port or instance is mistaken for another; and the
  string opens with the protocol of the transport.\<close>

theorem datasource_distinguishes_endpoints:
  assumes "plain_host (cfg_host c)" and "plain_host (cfg_host d)"
  shows "(datasource_string c = datasource_string d \<longleftrightarrow> config_endpoint c = config_endpoint d) \<and>
    starts_with (datasource_string c)
      (case cfg_transport c of Tcp \<Rightarrow> ''tcp:'' | NamedPipe _ \<Rightarrow> ''np:'' | SharedMemory \<Rightarrow> ''lpc:'')"
proof
  have host: "plain_host (endpoint_host (config_endpoint e))" if "plain_host (cfg_host e)" for e
    using that
    by (cases "(cfg_transport e, cfg_host e, cfg_instance_name e, cfg_port e)" rule: endpoint_of.cases)
      (auto simp: config_endpoint_def plain_host_def)
  show "datasource_string c = datasource_string d \<longleftrightarrow> config_endpoint c = config_endpoint d"
    unfolding datasource_text by (rule endpoint_text_inject) (use assms host in blast)+
  show "starts_with (datasource_string c)
      (case cfg_transport c of Tcp \<Rightarrow> ''tcp:'' | NamedPipe _ \<Rightarrow> ''np:'' | SharedMemory \<Rightarrow> ''lpc:'')"
    by (auto simp: datasource_string_def Let_def split: transport.split option.split)
qed

theorem datasource_distinguishes_endpoints_witness:
  "datasource_string (config_set (Set_port 14330) config_new) \<noteq> datasource_string config_new \<and>
   datasource_string (config_set (Set_port 14330) (config_set (Set_instance_name ''A'') config_new)) =
     datasource_string (config_set (Set_instance_name ''A'') config_new)"
  using datasource_distinguishes_endpoints [of "config_set (Set_port 14330) config_new" config_new]
    datasource_distinguishes_endpoints [of "config_set (Set_port 14330) (config_set (Set_instance_name ''A'') config_new)"
      "config_set (Set_instance_name ''A'') config_new"]
  by (simp add: config_new_def config_endpoint_def plain_host_def backslash_def)

text \<open>The context carries the credentials of the chosen method only: a password never
  leaves with integrated or token authentication, a token only with token authentication;
  encryption is turned off by no setting but \<open>Off\<close> and \<open>NotSupported\<close>, and
  certificate validation is skipped only on request.\<close>

theorem context_credentials:
  assumes "ctx = to_client_context d v bv c"
  shows "(case cfg_auth c of
        SqlServer user password \<Rightarrow> ctx_user_name ctx = user \<and> ctx_password ctx = password \<and>
          ctx_access_token ctx = ctx_access_token d
      | Integrated \<Rightarrow> ctx_authentication_method ctx = SSPI \<and> ctx_password ctx = ctx_password d \<and>
          ctx_access_token ctx = ctx_access_token d
      | AadToken token \<Rightarrow> ctx_authentication_method ctx = AccessTokenAuth \<and>
          ctx_password ctx = ctx_password d \<and> ctx_access_token ctx = Some token) \<and>
    (ctx_mode ctx = PreferOff \<longleftrightarrow> cfg_encryption c \<in> {EncOff, EncNotSupported}) \<and>
    (ctx_trust_server_certificate ctx \<longleftrightarrow> cfg_trust_cert c)"
proof -
  have "encryption_mode l = PreferOff \<longleftrightarrow> l \<in> {EncOff, EncNotSupported}" for l
    by (cases l) simp_all
  with assms show ?thesis
    by (auto simp: to_client_context_def Let_def split: auth_method.splits option.splits)
qed

definition sample_context :: client_context where
  "sample_context = \<lparr>ctx_database = [], ctx_user_name = [], ctx_password = [],
     ctx_authentication_method = PasswordAuth, ctx_access_token = None,
     ctx_trust_server_certificate = False, ctx_server_certificate = None, ctx_host_name_in_cert = None,
     ctx_mode = EncryptionOn, ctx_application_name = [], ctx_workstation_id = [], ctx_library_name = [],
     ctx_driver_version = 0, ctx_application_intent = ReadWrite, ctx_multi_subnet_failover = None,
     ctx_security_context_provider = None, ctx_user_agent_library_name = [],
     ctx_user_agent_driver_version = []\<rparr>"

theorem context_credentials_witness:
  "ctx_access_token (to_client_context sample_context 1 ''0.1''
     (config_set (Set_authentication (AadToken ''jwt'')) config_new)) = Some ''jwt''"
  using context_credentials [OF refl, of sample_context 1 "''0.1''"
      "config_set (Set_authentication (AadToken ''jwt'')) config_new"]
  by (simp only: config_set.simps) simp

end
