(* ===== verification/PoolModel.thy ===== *)
theory PoolModel
  imports ClientModel ConfigModel
begin

text \<open>
  \<open>pool.rs\<close> and \<open>Client::connect\<close>: creating a client from a configuration, and
  recycling one on checkout. The driver's connection provider is an argument; the pool
  itself (\<open>deadpool\<close>) hands a client on when \<open>recycle\<close> returned \<open>Ok\<close>.
\<close>

text \<open>\<open>Client::connect\<close>; \<open>p\<close> is the address of the new session identity.\<close>

definition client_connect ::
    "(client_context \<Rightarrow> string \<Rightarrow> tds_error + 'c) \<Rightarrow> client_context \<Rightarrow> nat \<Rightarrow> string \<Rightarrow> nat \<Rightarrow> config
       \<Rightarrow> error + 'c client" where
  "client_connect create_client default_ctx cargo_version bridge_version p cfg =
     (let ctx = to_client_context default_ctx cargo_version bridge_version cfg;
          datasource = datasource_string cfg
      in map_ok (\<lambda>c. \<lparr>inner = c,
                       send_string_parameters_as_unicode = string_parameters_as_unicode cfg,
                       prepared_session = p\<rparr>)
           (map_err Tds (create_client ctx datasource)))"

datatype recycling_method = Reset | Ping

record tds_manager =
  mgr_config :: config
  mgr_recycling_method :: recycling_method

definition manager_new :: "config \<Rightarrow> tds_manager" where
  "manager_new cfg = \<lparr>mgr_config = cfg, mgr_recycling_method = Reset\<rparr>"

definition with_recycling_method :: "recycling_method \<Rightarrow> tds_manager \<Rightarrow> tds_manager" where
  "with_recycling_method m mgr = mgr\<lparr>mgr_recycling_method := m\<rparr>"

text \<open>\<open>create_pool\<close>: the builder of the pool library and its runtime token are arguments.\<close>

definition create_pool :: "(tds_manager \<Rightarrow> nat \<Rightarrow> 'r \<Rightarrow> 'e + 'p) \<Rightarrow> 'r \<Rightarrow> config \<Rightarrow> nat \<Rightarrow> 'e + 'p" where
  "create_pool build tokio1 cfg max_size = (let mgr = manager_new cfg in build mgr max_size tokio1)"

text \<open>\<open>Manager::create\<close>.\<close>

definition manager_create ::
    "(client_context \<Rightarrow> string \<Rightarrow> tds_error + 'c) \<Rightarrow> client_context \<Rightarrow> nat \<Rightarrow> string \<Rightarrow> nat \<Rightarrow> tds_manager
       \<Rightarrow> error + 'c client" where
  "manager_create create_client default_ctx cargo_version bridge_version p mgr =
     client_connect create_client default_ctx cargo_version bridge_version p (mgr_config mgr)"

text \<open>\<open>Manager::recycle\<close>; the error is wrapped in \<open>RecycleError::Backend\<close>, which is
  the identity here.\<close>

definition recycle :: "'c driver \<Rightarrow> tds_manager \<Rightarrow> ('c client, error + unit) io" where
  "recycle D mgr w =
     (case client_ensure_usable D (conn w) of
        Inl e \<Rightarrow> io_ret (Inl e) w
      | Inr _ \<Rightarrow>
          (case mgr_recycling_method mgr of
             Reset \<Rightarrow> reset_session D w
           | Ping \<Rightarrow> ping D w))"

text \<open>C19: what a borrower of a recycled connection gets. With \<open>Reset\<close>, an \<open>Ok\<close> means the
  connection went through the whole reset and carries a fresh session, so no statement
  prepared by an earlier borrower is valid on it; every other ending leaves a dead
  connection. With \<open>Ping\<close> nothing but the cached flag is looked at and the client is
  handed on exactly as it was, prepared statements included.\<close>

theorem recycled_connection:
  assumes "health_law D" and "recycle D mgr w = Some (r, w')"
  shows "case mgr_recycling_method mgr of
      Reset \<Rightarrow>
        (if r = Ret (Inr ())
         then prepared_session (conn w') = next_arc w \<and>
           (\<exists>c1 res c2. drv_close_query D (inner (conn w)) = (Inr (), c1) \<and>
              drv_execute D reset_sql (drv_prepare_reset_connection D False c1) = (Inr res, c2) \<and>
              drv_close_query D c2 = (Inr (), inner (conn w')))
         else client_is_connection_dead D (conn w'))
    | Ping \<Rightarrow> w' = w \<and>
        r = Ret (if client_is_connection_dead D (conn w) then Inl dead_error else Inr ())"
proof (cases "client_is_connection_dead D (conn w)")
  case True
  then have "r = Ret (Inl dead_error)" "w' = w"
    using assms(2)
    by (simp_all add: recycle_def client_ensure_usable_def ensure_usable_def client_is_connection_dead_def)
  with True show ?thesis by (simp split: recycling_method.splits)
next
  case False
  then have usable: "client_ensure_usable D (conn w) = Inr ()"
    by (simp add: client_ensure_usable_def ensure_usable_def client_is_connection_dead_def)
  show ?thesis
  proof (cases "mgr_recycling_method mgr")
    case Reset
    with assms(2) usable have "reset_session D w = Some (r, w')" by (simp add: recycle_def)
    from reset_facts [OF assms(1) this, folded reset_sql_def] Reset show ?thesis by simp
  next
    case Ping
    with assms(2) usable False show ?thesis by (auto simp: recycle_def ping_def)
  qed
qed

theorem recycled_connection_witness:
  "case recycle (replay_driver sample_lib) (manager_new config_new) (sample_world None [[R_norows None]]) of
     Some (r, w') \<Rightarrow> r = Ret (Inr ()) \<and> prepared_session (conn w') = 1
   | None \<Rightarrow> False"
proof -
  let ?D = "replay_driver sample_lib"
  obtain w' where w': "recycle ?D (manager_new config_new) (sample_world None [[R_norows None]]) = Some (Ret (Inr ()), w')"
    by (simp add: recycle_def manager_new_def reset_session_def client_ensure_usable_def io_new_arc_def io_sync_def
        sample_defs session_reset_scope_def reset_body_def replay_driver_def replay_request_def)
  from recycled_connection [OF replay_health_law this] w' show ?thesis
    by (simp add: manager_new_def sample_world_def)
qed

end
