(* ===== verification/BulkModel.thy ===== *)
theory BulkModel
  imports ClientModel
begin

text \<open>
  \<open>bulk.rs\<close>: the bulk insert builder and its guarded send, and the Tiberius-shaped
  incremental request (\<open>TokenRow\<close>, \<open>IntoRow\<close>, \<open>BulkLoadRequest\<close>). The driver's
  bulk copy engine and its packet writer are arguments. The borrowed connection of a
  builder is the connection of the world its \<open>send\<close> runs in.
\<close>

section \<open>Token rows\<close>

record token_row =
  token_data :: "column_data list"

definition token_row_new :: token_row where
  "token_row_new = \<lparr>token_data = []\<rparr>"

definition token_row_with_capacity :: "nat \<Rightarrow> token_row" where
  "token_row_with_capacity capacity = \<lparr>token_data = []\<rparr>"

definition token_row_clear :: "token_row \<Rightarrow> token_row" where
  "token_row_clear r = r\<lparr>token_data := []\<rparr>"

definition token_row_len :: "token_row \<Rightarrow> nat" where
  "token_row_len r = length (token_data r)"

definition token_row_get :: "token_row \<Rightarrow> nat \<Rightarrow> column_data option" where
  "token_row_get r i = nth_opt (token_data r) i"

definition token_row_is_empty :: "token_row \<Rightarrow> bool" where
  "token_row_is_empty r \<longleftrightarrow> token_data r = []"

text \<open>\<open>iter\<close> and \<open>into_iter\<close>: the values in column order.\<close>

definition token_row_iter :: "token_row \<Rightarrow> column_data list" where
  "token_row_iter r = token_data r"

definition token_row_push :: "column_data \<Rightarrow> token_row \<Rightarrow> token_row" where
  "token_row_push v r = r\<lparr>token_data := token_data r @ [v]\<rparr>"

text \<open>\<open>into_row\<close> of a scalar and of the tuples of 2 to 10 fields: the fields are pushed in order.\<close>

definition into_row :: "column_data list \<Rightarrow> token_row" where
  "into_row vals = fold token_row_push vals token_row_new"

text \<open>\<open>write_to_packet\<close>: \<open>wcv\<close> is the writer's \<open>write_column_value\<close>.\<close>

fun write_to_packet ::
    "tds_lib \<Rightarrow> debug_fmt \<Rightarrow> (nat \<Rightarrow> column_values \<Rightarrow> 'w \<Rightarrow> (tds_error + unit) \<times> 'w)
       \<Rightarrow> column_data list \<Rightarrow> nat \<Rightarrow> 'w \<Rightarrow> (tds_error + unit) \<times> nat \<times> 'w" where
  "write_to_packet L F wcv [] index writer = (Inr (), index, writer)"
| "write_to_packet L F wcv (value # values) index writer =
     (case into_column_value L F value of
        Inl e \<Rightarrow> (Inl (UsageError (error_display L e)), index, writer)
      | Inr v \<Rightarrow>
          (case wcv index v writer of
             (Inl e, writer') \<Rightarrow> (Inl e, index, writer')
           | (Inr _, writer') \<Rightarrow> write_to_packet L F wcv values (index + 1) writer'))"

section \<open>The builder\<close>

datatype column_mapping = ByName string string | ByOrdinal nat string

record bulk_copy_options =
  o_batch_size :: nat
  o_check_constraints :: bool
  o_fire_triggers :: bool
  o_keep_identity :: bool
  o_keep_nulls :: bool
  o_table_lock :: bool
  o_use_internal_transaction :: bool
  o_notification_interval :: nat

record bulk_insert =
  bi_table_name :: string
  bi_options :: bulk_copy_options
  bi_timeout :: "nat option"
  bi_column_mappings :: "column_mapping list"

text \<open>\<open>BulkCopyOptions::default()\<close> belongs to the driver and is an argument.\<close>

definition bulk_insert_new :: "bulk_copy_options \<Rightarrow> string \<Rightarrow> bulk_insert" where
  "bulk_insert_new default_options table =
     \<lparr>bi_table_name = table, bi_options = default_options, bi_timeout = None, bi_column_mappings = []\<rparr>"

datatype bulk_call =
    B_batch_size nat | B_timeout nat | B_check_constraints bool | B_fire_triggers bool
  | B_keep_identity bool | B_keep_nulls bool | B_table_lock bool | B_use_internal_transaction bool
  | B_notification_interval nat | B_add_column_mapping column_mapping
  | B_map_column string string | B_map_column_by_ordinal nat string

definition add_column_mapping :: "column_mapping \<Rightarrow> bulk_insert \<Rightarrow> bulk_insert" where
  "add_column_mapping m b = b\<lparr>bi_column_mappings := bi_column_mappings b @ [m]\<rparr>"

fun bulk_set :: "bulk_call \<Rightarrow> bulk_insert \<Rightarrow> bulk_insert" where
  "bulk_set (B_batch_size n) b = b\<lparr>bi_options := (bi_options b)\<lparr>o_batch_size := n\<rparr>\<rparr>"
| "bulk_set (B_timeout t) b = b\<lparr>bi_timeout := Some t\<rparr>"
| "bulk_set (B_check_constraints e) b = b\<lparr>bi_options := (bi_options b)\<lparr>o_check_constraints := e\<rparr>\<rparr>"
| "bulk_set (B_fire_triggers e) b = b\<lparr>bi_options := (bi_options b)\<lparr>o_fire_triggers := e\<rparr>\<rparr>"
| "bulk_set (B_keep_identity e) b = b\<lparr>bi_options := (bi_options b)\<lparr>o_keep_identity := e\<rparr>\<rparr>"
| "bulk_set (B_keep_nulls e) b = b\<lparr>bi_options := (bi_options b)\<lparr>o_keep_nulls := e\<rparr>\<rparr>"
| "bulk_set (B_table_lock e) b = b\<lparr>bi_options := (bi_options b)\<lparr>o_table_lock := e\<rparr>\<rparr>"
| "bulk_set (B_use_internal_transaction e) b =
     b\<lparr>bi_options := (bi_options b)\<lparr>o_use_internal_transaction := e\<rparr>\<rparr>"
| "bulk_set (B_notification_interval n) b = b\<lparr>bi_options := (bi_options b)\<lparr>o_notification_interval := n\<rparr>\<rparr>"
| "bulk_set (B_add_column_mapping m) b = add_column_mapping m b"
| "bulk_set (B_map_column s d) b = add_column_mapping (ByName s d) b"
| "bulk_set (B_map_column_by_ordinal i d) b = add_column_mapping (ByOrdinal i d) b"

text \<open>\<open>Client::bulk_insert\<close> and \<open>bulk_insert_with_columns\<close>.\<close>

definition client_bulk_insert :: "bulk_copy_options \<Rightarrow> string \<Rightarrow> bulk_insert" where
  "client_bulk_insert default_options table = bulk_insert_new default_options table"

definition bulk_insert_with_columns :: "bulk_copy_options \<Rightarrow> string \<Rightarrow> string list \<Rightarrow> bulk_insert" where
  "bulk_insert_with_columns default_options table cols =
     fold (\<lambda>(ordinal, dest) bi. bulk_set (B_map_column_by_ordinal ordinal dest) bi)
       (enumerate 0 cols) (bulk_insert_new default_options table)"

section \<open>Sending\<close>

text \<open>The settings the driver's \<open>TdsBulkCopy\<close> is given; a timeout of \<open>None\<close> keeps the
  driver's own.\<close>

record tds_bulk_copy =
  bc_table :: string
  bc_batch_size :: nat
  bc_check_constraints :: bool
  bc_fire_triggers :: bool
  bc_keep_identity :: bool
  bc_keep_nulls :: bool
  bc_table_lock :: bool
  bc_use_internal_transaction :: bool
  bc_notification_interval :: nat
  bc_timeout :: "nat option"
  bc_column_mappings :: "column_mapping list"

record bulk_copy_result =
  bcr_rows_affected :: u64

type_synonym ('c, 'r) bulk_engine = "tds_bulk_copy \<Rightarrow> 'r list \<Rightarrow> 'c \<Rightarrow> (tds_error + bulk_copy_result) \<times> 'c"

definition bulk_copy_of :: "bulk_insert \<Rightarrow> tds_bulk_copy" where
  "bulk_copy_of b =
     \<lparr>bc_table = bi_table_name b,
      bc_batch_size = o_batch_size (bi_options b),
      bc_check_constraints = o_check_constraints (bi_options b),
      bc_fire_triggers = o_fire_triggers (bi_options b),
      bc_keep_identity = o_keep_identity (bi_options b),
      bc_keep_nulls = o_keep_nulls (bi_options b),
      bc_table_lock = o_table_lock (bi_options b),
      bc_use_internal_transaction = o_use_internal_transaction (bi_options b),
      bc_notification_interval = o_notification_interval (bi_options b),
      bc_timeout = (case bi_timeout b of Some t \<Rightarrow> Some t | None \<Rightarrow> None),
      bc_column_mappings = fold (\<lambda>m ms. ms @ [m]) (bi_column_mappings b) []\<rparr>"

definition bulk_send ::
    "'c driver \<Rightarrow> ('c, 'r) bulk_engine \<Rightarrow> bulk_insert \<Rightarrow> 'r list \<Rightarrow> ('c, error + bulk_copy_result) io" where
  "bulk_send D engine b rows =
     guarded (drv_health D) (await_tds D (engine (bulk_copy_of b) rows))"

section \<open>The incremental request\<close>

record bulk_load_request =
  br_bulk :: bulk_insert
  br_rows :: "token_row list"
  br_row_width :: "nat option"

text \<open>\<open>IntoFuture for BulkInsert\<close>.\<close>

definition bulk_into_future :: "'c driver \<Rightarrow> bulk_insert \<Rightarrow> ('c, error + bulk_load_request) io" where
  "bulk_into_future D b w =
     io_ret (map_ok (\<lambda>_. \<lparr>br_bulk = b, br_rows = [], br_row_width = None\<rparr>)
       (ensure_usable (drv_health D) (conn w))) w"

definition width_error :: "nat \<Rightarrow> nat \<Rightarrow> error" where
  "width_error expected actual =
     BulkInput (''Expecting '' @ show_nat expected @ '' columns but '' @ show_nat actual @ '' were given'')"

definition validate_row_width :: "nat option \<Rightarrow> nat \<Rightarrow> (error + unit) \<times> nat option" where
  "validate_row_width expected actual =
     (case expected of
        Some e \<Rightarrow> if actual \<noteq> e then (Inl (width_error e actual), expected) else (Inr (), expected)
      | None \<Rightarrow> (Inr (), Some actual))"

definition request_send :: "token_row \<Rightarrow> bulk_load_request \<Rightarrow> (error + unit) \<times> bulk_load_request" where
  "request_send r q =
     (case validate_row_width (br_row_width q) (token_row_len r) of
        (Inl e, width) \<Rightarrow> (Inl e, q\<lparr>br_row_width := width\<rparr>)
      | (Inr _, width) \<Rightarrow> (Inr (), q\<lparr>br_row_width := width, br_rows := br_rows q @ [r]\<rparr>))"

definition bulk_input_prefixes :: "string list" where
  "bulk_input_prefixes =
     [''Row '', ''Column index '', ''Binary data length '', ''String length '',
      ''SQL_VARIANT data size '', ''SQL_VARIANT total size '', ''Cannot serialize NULL '',
      ''Unsupported TDS type '', ''Invalid UTF-16 data: '', ''Conversion error: '']"

definition is_bulk_input_message :: "string \<Rightarrow> bool" where
  "is_bulk_input_message message = list_ex (\<lambda>prefix. starts_with message prefix) bulk_input_prefixes"

definition map_compat_bulk_error :: "error \<Rightarrow> error" where
  "map_compat_bulk_error e =
     (case e of
        Tds (UsageError message) \<Rightarrow> if is_bulk_input_message message then BulkInput message else e
      | _ \<Rightarrow> e)"

definition request_finalize ::
    "'c driver \<Rightarrow> ('c, token_row) bulk_engine \<Rightarrow> bulk_load_request \<Rightarrow> ('c, error + execute_result) io" where
  "request_finalize D engine q =
     io_bind (bulk_send D engine (br_bulk q) (br_rows q))
       (\<lambda>r. io_ret (map_ok (\<lambda>x. \<lparr>counts = [bcr_rows_affected x]\<rparr>) (map_err map_compat_bulk_error r)))"

section \<open>Properties\<close>

text \<open>A whole sequence of \<open>send\<close> calls: the results, and the request they leave.\<close>

fun request_sends :: "token_row list \<Rightarrow> bulk_load_request \<Rightarrow> (error + unit) list \<times> bulk_load_request" where
  "request_sends [] q = ([], q)"
| "request_sends (r # rs) q =
     (case request_send r q of (res, q') \<Rightarrow>
        (case request_sends rs q' of (ress, q'') \<Rightarrow> (res # ress, q'')))"

definition request_ok :: "bulk_load_request \<Rightarrow> bool" where
  "request_ok q \<longleftrightarrow>
     (\<forall>r\<in>set (br_rows q). br_row_width q = Some (token_row_len r)) \<and>
     (br_row_width q = None \<longrightarrow> br_rows q = [])"

lemma request_send_ok: "request_ok q \<Longrightarrow> request_ok (snd (request_send r q))"
  by (auto simp: request_ok_def request_send_def validate_row_width_def split: option.splits)

lemma request_sends_width:
  "br_row_width q = Some n \<Longrightarrow>
     snd (request_sends rs q) = q\<lparr>br_rows := br_rows q @ filter (\<lambda>r. token_row_len r = n) rs\<rparr> \<and>
     fst (request_sends rs q) =
       map (\<lambda>r. if token_row_len r = n then Inr () else Inl (width_error n (token_row_len r))) rs"
proof (induction rs arbitrary: q)
  case Nil
  then show ?case by simp
next
  case (Cons r rs)
  obtain res q' where s: "request_send r q = (res, q')" by fastforce
  with Cons.prems have q': "q' = (if token_row_len r = n then q\<lparr>br_rows := br_rows q @ [r]\<rparr> else q)"
    and res: "res = (if token_row_len r = n then Inr () else Inl (width_error n (token_row_len r)))"
    by (auto simp: request_send_def validate_row_width_def split: if_splits)
  from q' Cons.prems have "br_row_width q' = Some n" by simp
  from Cons.IH [OF this] s res q' show ?case by (auto split: prod.splits)
qed

text \<open>The rows of an incremental bulk request all have the width of the first one: later
  rows of that width are retained in order, every other row is refused with a
  \<open>BulkInput\<close> error naming both widths and changes nothing, so sending can go on.\<close>

lemma request_rows_accepted:
  "request_sends (first # rs) \<lparr>br_bulk = b, br_rows = [], br_row_width = None\<rparr> =
     (map (\<lambda>r. if token_row_len r = token_row_len first then Inr ()
               else Inl (width_error (token_row_len first) (token_row_len r))) (first # rs),
      \<lparr>br_bulk = b,
       br_rows = filter (\<lambda>r. token_row_len r = token_row_len first) (first # rs),
       br_row_width = Some (token_row_len first)\<rparr>)"
proof -
  let ?q = "\<lparr>br_bulk = b, br_rows = [first], br_row_width = Some (token_row_len first)\<rparr>"
  have "request_send first \<lparr>br_bulk = b, br_rows = [], br_row_width = None\<rparr> = (Inr (), ?q)"
    by (simp add: request_send_def validate_row_width_def)
  with request_sends_width [of ?q "token_row_len first" rs] show ?thesis
    by (auto split: prod.splits)
qed

lemma into_row_data: "token_data (into_row vals) = vals"
proof -
  have "token_data (fold token_row_push vals r) = token_data r @ vals" for r
    by (induction vals arbitrary: r) (simp_all add: token_row_push_def)
  then show ?thesis by (simp add: into_row_def token_row_new_def)
qed

text \<open>A row is written to the packet column by column: when every value converts and the
  writer accepts it, the writer sees the converted values at consecutive indices in field
  order; the first value that does not convert stops the row with a usage error that the
  request reports as invalid bulk input carrying the conversion's message.\<close>

theorem bulk_row_written:
  "write_to_packet L F (\<lambda>i v w. (Inr (), w @ [(i, v)])) (token_data (into_row vals)) k w =
     (case collect_ok (map (into_column_value L F) vals) of
        Inr vs \<Rightarrow> (Inr (), k + length vals, w @ enumerate k vs)
      | Inl e \<Rightarrow>
          (let pre = takeWhile is_ok (map (into_column_value L F) vals);
               vs = (case collect_ok pre of Inr vs \<Rightarrow> vs | Inl _ \<Rightarrow> [])
           in (Inl (UsageError (error_display L e)), k + length pre, w @ enumerate k vs)))"
proof -
  have "write_to_packet L F (\<lambda>i v w. (Inr (), w @ [(i, v)])) fs k w =
     (case collect_ok (map (into_column_value L F) fs) of
        Inr vs \<Rightarrow> (Inr (), k + length fs, w @ enumerate k vs)
      | Inl e \<Rightarrow>
          (let pre = takeWhile is_ok (map (into_column_value L F) fs);
               vs = (case collect_ok pre of Inr vs \<Rightarrow> vs | Inl _ \<Rightarrow> [])
           in (Inl (UsageError (error_display L e)), k + length pre, w @ enumerate k vs)))" for fs
  proof (induction fs arbitrary: k w)
    case Nil
    then show ?case by simp
  next
    case (Cons f fs)
    have ok: "\<exists>vs. collect_ok (takeWhile is_ok xs) = Inr vs" for xs :: "(error + column_values) list"
    proof (induction xs)
      case (Cons x xs)
      then show ?case by (cases x) auto
    qed simp
    show ?case
    proof (cases "into_column_value L F f")
      case (Inl e)
      then show ?thesis by simp
    next
      case (Inr v)
      with Cons.IH [of "Suc k" "w @ [(k, v)]"] ok [of "map (into_column_value L F) fs"] show ?thesis
        by (auto simp: Let_def split: sum.splits)
    qed
  qed
  then show ?thesis by (simp add: into_row_data)
qed

text \<open>A conversion failure inside a bulk row is told apart from a driver failure: whatever
  its text, the request reports it as \<open>BulkInput\<close>.\<close>

theorem conversion_failure_is_bulk_input:
  "map_compat_bulk_error (Tds (UsageError (error_display L (Conversion msg)))) =
     BulkInput (''Conversion error: '' @ msg)"
  by (simp add: map_compat_bulk_error_def is_bulk_input_message_def bulk_input_prefixes_def)

lemma bulk_copy_mappings: "bc_column_mappings (bulk_copy_of b) = bi_column_mappings b"
proof -
  have "fold (\<lambda>m ms. ms @ [m]) xs acc = acc @ xs" for xs acc :: "column_mapping list"
    by (induction xs arbitrary: acc) simp_all
  then show ?thesis by (simp add: bulk_copy_of_def)
qed

lemma bulk_mappings_fold:
  "bi_column_mappings (fold (\<lambda>(ordinal, dest) bi. bulk_set (B_map_column_by_ordinal ordinal dest) bi) xs b) =
     bi_column_mappings b @ map (\<lambda>(i, d). ByOrdinal i d) xs"
  by (induction xs arbitrary: b) (auto simp: add_column_mapping_def)

text \<open>\<open>bulk_insert_with_columns\<close> hands the driver one mapping per named column, in order:
  source ordinal \<open>i\<close> to the \<open>i\<close>-th name.\<close>

theorem bulk_columns_by_ordinal:
  "bc_column_mappings (bulk_copy_of (bulk_insert_with_columns d table cols)) =
     map (\<lambda>(i, dest). ByOrdinal i dest) (enumerate 0 cols)"
  by (simp only: bulk_copy_mappings bulk_insert_with_columns_def bulk_mappings_fold) (simp add: bulk_insert_new_def)

text \<open>Dropping the future of a pending bulk send leaves the connection dead, so a load
  of unknown extent is never followed by another request on the same client.\<close>

theorem bulk_send_interrupted:
  assumes "health_law D" and "request_finalize D engine q w = Some (Dropped, w')"
  shows "is_dead (drv_health D) (conn w')"
proof -
  from assms(2) have "bulk_send D engine (br_bulk q) (br_rows q) w = Some (Dropped, w')"
    by (auto simp: request_finalize_def io_bind_def split: option.splits outcome.splits)
  then show ?thesis
    unfolding bulk_send_def
    using connection_health.interrupted_is_dead [OF health_law_connection [OF assms(1)]] by blast
qed

definition sample_bulk_options :: bulk_copy_options where
  "sample_bulk_options = \<lparr>o_batch_size = 0, o_check_constraints = False, o_fire_triggers = False,
     o_keep_identity = False, o_keep_nulls = False, o_table_lock = False,
     o_use_internal_transaction = False, o_notification_interval = 0\<rparr>"

theorem bulk_send_interrupted_witness:
  "case request_finalize (replay_driver sample_lib) (\<lambda>bc rows c. (Inr \<lparr>bcr_rows_affected = 0\<rparr>, c))
      \<lparr>br_bulk = bulk_insert_new sample_bulk_options ''t'', br_rows = [], br_row_width = None\<rparr>
      \<lparr>conn = replay_start [], budget = Some 0, next_arc = 0\<rparr> of
     Some (Dropped, w') \<Rightarrow> is_dead (drv_health (replay_driver sample_lib)) (conn w')
   | _ \<Rightarrow> False"
proof -
  let ?D = "replay_driver sample_lib"
  let ?run = "request_finalize ?D (\<lambda>bc rows c. (Inr \<lparr>bcr_rows_affected = 0\<rparr>, c))
      \<lparr>br_bulk = bulk_insert_new sample_bulk_options ''t'', br_rows = [], br_row_width = None\<rparr>
      \<lparr>conn = replay_start [], budget = Some 0, next_arc = 0\<rparr>"
  obtain w' where w': "?run = Some (Dropped, w')"
    by (simp add: request_finalize_def bulk_send_def sample_defs replay_driver_def)
  from bulk_send_interrupted [OF replay_health_law this] w' show ?thesis by simp
qed

end
