(* ===== verification/ArrowModel.thy ===== *)
theory ArrowModel
  imports BulkModel
begin

text \<open>
  \<open>bulk_arrow.rs\<close>: the conversion of the cells of an Arrow record batch to the cells of a
  bulk row, the decimal formatting it needs, and the rows of a batch. An Arrow array is its
  data type, and its cells with \<open>None\<close> for a null; a cell of another kind than the
  data type says is a failed downcast.
\<close>

section \<open>Arrays\<close>

datatype time_unit = Second | Millisecond | Microsecond | Nanosecond

datatype arrow_type =
    A_Boolean | A_Int8 | A_Int16 | A_Int32 | A_Int64 | A_UInt8 | A_UInt16 | A_UInt32
  | A_Float32 | A_Float64 | A_Utf8 | A_LargeUtf8 | A_Binary | A_LargeBinary | A_FixedSizeBinary i32
  | A_Date32 | A_Time64 time_unit | A_Timestamp time_unit "string option" | A_Decimal128 u8 "8 word"
  | A_Other nat

datatype arrow_cell =
    AC_Boolean bool | AC_Int8 "8 word" | AC_Int16 i16 | AC_Int32 i32 | AC_Int64 i64
  | AC_UInt8 u8 | AC_UInt16 u16 | AC_UInt32 u32 | AC_Float32 f32 | AC_Float64 f64
  | AC_Utf8 string | AC_LargeUtf8 string | AC_Binary bytes | AC_LargeBinary bytes
  | AC_FixedSizeBinary bytes | AC_Date32 i32
  | AC_Time64 time_unit i64 | AC_Timestamp time_unit i64 | AC_Decimal128 i128

record arrow_array =
  aa_type :: arrow_type
  aa_cells :: "arrow_cell option list"

text \<open>\<open>Debug\<close> of the types in messages; the text of \<open>TryFromIntError\<close>.\<close>

record arrow_fmt =
  dbg_arrow_type :: "arrow_type \<Rightarrow> string"
  dbg_time_unit :: "time_unit \<Rightarrow> string"

definition try_from_int_error :: string where
  "try_from_int_error = ''out of range integral type conversion attempted''"

definition usage :: "string \<Rightarrow> error" where
  "usage msg = Tds (UsageError msg)"

definition downcast_error :: "string \<Rightarrow> error" where
  "downcast_error label = usage (''internal: failed to downcast Arrow array as '' @ label)"

section \<open>Conversions\<close>

definition ARROW_EPOCH_OFFSET_DAYS :: int where
  "ARROW_EPOCH_OFFSET_DAYS = 719162"

definition NANOS_PER_DAY :: int where
  "NANOS_PER_DAY = 86400 * 1000000000"

definition arrow_date32 :: "tds_lib \<Rightarrow> i32 \<Rightarrow> error + column_values" where
  "arrow_date32 L d =
     (let days = sint d + ARROW_EPOCH_OFFSET_DAYS
      in if \<not> fits_signed 32 days then Inl (usage ''Date32 overflow translating to TDS DATE'')
         else if days < 0 then
           Inl (usage (''Date32 value '' @ show_int (sint d) @
             '' predates SQL Server DATE epoch (0001-01-01): '' @ try_from_int_error))
         else map_ok CV_Date (map_err Tds (date_create L (word_of_int days))))"

definition arrow_time64 :: "arrow_fmt \<Rightarrow> time_unit \<Rightarrow> arrow_cell \<Rightarrow> error + column_values" where
  "arrow_time64 F unit cell =
     and_then
       (case unit of
          Microsecond \<Rightarrow>
            (case cell of
               AC_Time64 Microsecond v \<Rightarrow>
                 (if sint v < 0 then Inl (usage (''Time64 value must not be negative: '' @ try_from_int_error))
                  else if \<not> fits_unsigned 64 (sint v * 1000)
                    then Inl (usage ''Time64 overflow translating to TDS TIME'')
                  else Inr (sint v * 1000))
             | _ \<Rightarrow> Inl (downcast_error (''Time64('' @ [CHR 0xC2, CHR 0xB5] @ ''s)'')))
        | Nanosecond \<Rightarrow>
            (case cell of
               AC_Time64 Nanosecond v \<Rightarrow>
                 (if sint v < 0 then Inl (usage (''Time64 value must not be negative: '' @ try_from_int_error))
                  else Inr (sint v))
             | _ \<Rightarrow> Inl (downcast_error ''Time64(ns)''))
        | _ \<Rightarrow> Inl (usage (''Time64 unsupported time unit '' @ dbg_time_unit F unit)))
       (\<lambda>nanos.
         if NANOS_PER_DAY \<le> nanos then Inl (usage ''Time64 value must be less than one day'')
         else Inr (CV_Time \<lparr>time_nanoseconds = word_of_int nanos, st_scale = DEFAULT_VARTIME_SCALE\<rparr>))"

text \<open>\<open>saturating_mul\<close> on \<open>i64\<close>.\<close>

definition nanos_since_unix :: "time_unit \<Rightarrow> arrow_cell \<Rightarrow> error + int" where
  "nanos_since_unix unit cell =
     (case unit of
        Second \<Rightarrow> (case cell of AC_Timestamp Second v \<Rightarrow> Inr (saturate 64 (sint v * 1000000000))
                   | _ \<Rightarrow> Inl (downcast_error ''Timestamp(s)''))
      | Millisecond \<Rightarrow> (case cell of AC_Timestamp Millisecond v \<Rightarrow> Inr (saturate 64 (sint v * 1000000))
                   | _ \<Rightarrow> Inl (downcast_error ''Timestamp(ms)''))
      | Microsecond \<Rightarrow> (case cell of AC_Timestamp Microsecond v \<Rightarrow> Inr (saturate 64 (sint v * 1000))
                   | _ \<Rightarrow> Inl (downcast_error (''Timestamp('' @ [CHR 0xC2, CHR 0xB5] @ ''s)'')))
      | Nanosecond \<Rightarrow> (case cell of AC_Timestamp Nanosecond v \<Rightarrow> Inr (sint v)
                   | _ \<Rightarrow> Inl (downcast_error ''Timestamp(ns)'')))"

text \<open>The split into days and time of day: \<open>div_euclid\<close> and \<open>rem_euclid\<close> by a positive
  divisor are \<open>div\<close> and \<open>mod\<close>, so the remainder is never negative and the checked
  addition of the epoch offset never overflows; both tests are kept.\<close>

definition split_timestamp :: "int \<Rightarrow> error + column_values" where
  "split_timestamp nanos =
     (let days_unix = nanos div NANOS_PER_DAY;
          intraday = nanos mod NANOS_PER_DAY;
          days_tds = days_unix + ARROW_EPOCH_OFFSET_DAYS
      in if \<not> fits_unsigned 64 intraday then
           Inl (usage (''Timestamp has invalid intraday nanoseconds: '' @ try_from_int_error))
         else if \<not> fits_signed 64 days_tds then
           Inl (usage ''Timestamp overflow translating to TDS DATETIME2'')
         else if \<not> fits_unsigned 32 days_tds then
           Inl (usage (''Timestamp predates SQL Server DATETIME2 epoch (0001-01-01): '' @ try_from_int_error))
         else Inr (CV_DateTime2 \<lparr>dt2_days = word_of_int days_tds,
                dt2_time = \<lparr>time_nanoseconds = word_of_int intraday, st_scale = DEFAULT_VARTIME_SCALE\<rparr>\<rparr>))"

definition arrow_timestamp :: "time_unit \<Rightarrow> arrow_cell \<Rightarrow> error + column_values" where
  "arrow_timestamp unit cell = and_then (nanos_since_unix unit cell) split_timestamp"

definition format_decimal128 :: "i128 \<Rightarrow> 8 word \<Rightarrow> string" where
  "format_decimal128 raw scale =
     (if sint scale \<le> 0 then show_int (sint raw) @ replicate (nat \<bar>sint scale\<bar>) (CHR ''0'')
      else
        (let scale = nat \<bar>sint scale\<bar>;
             neg = sint raw < 0;
             mag_s = show_nat (nat \<bar>sint raw\<bar>);
             s = (if scale < length mag_s then
                    (let split = length mag_s - scale
                     in take split mag_s @ ''.'' @ drop split mag_s)
                  else ''0.'' @ replicate (scale - length mag_s) (CHR ''0'') @ mag_s)
         in if neg then ''-'' @ s else s))"

definition arrow_decimal128 :: "tds_lib \<Rightarrow> u8 \<Rightarrow> 8 word \<Rightarrow> arrow_cell \<Rightarrow> error + column_values" where
  "arrow_decimal128 L prec scale cell =
     (case cell of
        AC_Decimal128 raw \<Rightarrow>
          (if sint scale < 0 then
             Inl (usage (''Decimal128 negative scale is unsupported for TDS DECIMAL: '' @ try_from_int_error))
           else map_ok CV_Decimal
                  (map_err Tds (dec_from_string L (format_decimal128 raw scale) prec (ucast scale))))
      | _ \<Rightarrow> Inl (downcast_error ''Decimal128''))"

fun null_for_arrow_type :: "tds_lib \<Rightarrow> arrow_type \<Rightarrow> column_values" where
  "null_for_arrow_type L A_Boolean = CV_Bit False"
| "null_for_arrow_type L A_Int8 = CV_SmallInt 0"
| "null_for_arrow_type L A_Int16 = CV_SmallInt 0"
| "null_for_arrow_type L A_Int32 = CV_Int 0"
| "null_for_arrow_type L A_UInt16 = CV_Int 0"
| "null_for_arrow_type L A_Int64 = CV_BigInt 0"
| "null_for_arrow_type L A_UInt32 = CV_BigInt 0"
| "null_for_arrow_type L A_UInt8 = CV_TinyInt 0"
| "null_for_arrow_type L A_Float32 = CV_Real 0"
| "null_for_arrow_type L A_Float64 = CV_Float 0"
| "null_for_arrow_type L A_Utf8 = CV_String (sqlstr_from_utf8 L [])"
| "null_for_arrow_type L A_LargeUtf8 = CV_String (sqlstr_from_utf8 L [])"
| "null_for_arrow_type L _ = CV_Bytes []"

definition arrow_value :: "tds_lib \<Rightarrow> arrow_fmt \<Rightarrow> arrow_type \<Rightarrow> arrow_cell \<Rightarrow> error + column_values" where
  "arrow_value L F t cell =
     (case t of
        A_Boolean \<Rightarrow> (case cell of AC_Boolean v \<Rightarrow> Inr (CV_Bit v) | _ \<Rightarrow> Inl (downcast_error ''Boolean''))
      | A_Int8 \<Rightarrow> (case cell of AC_Int8 v \<Rightarrow> Inr (CV_SmallInt (scast v)) | _ \<Rightarrow> Inl (downcast_error ''Int8''))
      | A_Int16 \<Rightarrow> (case cell of AC_Int16 v \<Rightarrow> Inr (CV_SmallInt v) | _ \<Rightarrow> Inl (downcast_error ''Int16''))
      | A_Int32 \<Rightarrow> (case cell of AC_Int32 v \<Rightarrow> Inr (CV_Int v) | _ \<Rightarrow> Inl (downcast_error ''Int32''))
      | A_Int64 \<Rightarrow> (case cell of AC_Int64 v \<Rightarrow> Inr (CV_BigInt v) | _ \<Rightarrow> Inl (downcast_error ''Int64''))
      | A_UInt8 \<Rightarrow> (case cell of AC_UInt8 v \<Rightarrow> Inr (CV_TinyInt v) | _ \<Rightarrow> Inl (downcast_error ''UInt8''))
      | A_UInt16 \<Rightarrow> (case cell of AC_UInt16 v \<Rightarrow> Inr (CV_Int (ucast v)) | _ \<Rightarrow> Inl (downcast_error ''UInt16''))
      | A_UInt32 \<Rightarrow> (case cell of AC_UInt32 v \<Rightarrow> Inr (CV_BigInt (ucast v)) | _ \<Rightarrow> Inl (downcast_error ''UInt32''))
      | A_Float32 \<Rightarrow> (case cell of AC_Float32 v \<Rightarrow> Inr (CV_Real v) | _ \<Rightarrow> Inl (downcast_error ''Float32''))
      | A_Float64 \<Rightarrow> (case cell of AC_Float64 v \<Rightarrow> Inr (CV_Float v) | _ \<Rightarrow> Inl (downcast_error ''Float64''))
      | A_Utf8 \<Rightarrow> (case cell of AC_Utf8 v \<Rightarrow> Inr (CV_String (sqlstr_from_utf8 L v))
                   | _ \<Rightarrow> Inl (downcast_error ''Utf8''))
      | A_LargeUtf8 \<Rightarrow> (case cell of AC_LargeUtf8 v \<Rightarrow> Inr (CV_String (sqlstr_from_utf8 L v))
                   | _ \<Rightarrow> Inl (downcast_error ''LargeUtf8''))
      | A_Binary \<Rightarrow> (case cell of AC_Binary v \<Rightarrow> Inr (CV_Bytes v) | _ \<Rightarrow> Inl (downcast_error ''Binary''))
      | A_LargeBinary \<Rightarrow> (case cell of AC_LargeBinary v \<Rightarrow> Inr (CV_Bytes v)
                   | _ \<Rightarrow> Inl (downcast_error ''LargeBinary''))
      | A_FixedSizeBinary _ \<Rightarrow> (case cell of AC_FixedSizeBinary v \<Rightarrow> Inr (CV_Bytes v)
                   | _ \<Rightarrow> Inl (downcast_error ''FixedSizeBinary''))
      | A_Date32 \<Rightarrow> (case cell of AC_Date32 v \<Rightarrow> arrow_date32 L v | _ \<Rightarrow> Inl (downcast_error ''Date32''))
      | A_Time64 unit \<Rightarrow> arrow_time64 F unit cell
      | A_Timestamp unit _ \<Rightarrow> arrow_timestamp unit cell
      | A_Decimal128 prec scale \<Rightarrow> arrow_decimal128 L prec scale cell
      | A_Other _ \<Rightarrow> Inl (usage (''unsupported Arrow data type '' @ dbg_arrow_type F t @
                     '' for bulk_insert::send_arrow'')))"

definition arrow_value_to_column_value ::
    "tds_lib \<Rightarrow> arrow_fmt \<Rightarrow> arrow_array \<Rightarrow> nat \<Rightarrow> error + column_values" where
  "arrow_value_to_column_value L F a idx =
     (if length (aa_cells a) \<le> idx then
        Inl (usage (''Arrow row index '' @ show_nat idx @ '' is out of bounds for array length '' @
               show_nat (length (aa_cells a))))
      else case aa_cells a ! idx of
             None \<Rightarrow> Inr (null_for_arrow_type L (aa_type a))
           | Some cell \<Rightarrow> arrow_value L F (aa_type a) cell)"

section \<open>Rows of a batch\<close>

record record_batch =
  rb_columns :: "arrow_array list"
  rb_num_rows :: nat

record arrow_bulk_row =
  ab_batch :: record_batch
  ab_row_idx :: nat

fun arrow_write_columns ::
    "tds_lib \<Rightarrow> arrow_fmt \<Rightarrow> (nat \<Rightarrow> column_values \<Rightarrow> 'w \<Rightarrow> (tds_error + unit) \<times> 'w)
       \<Rightarrow> arrow_array list \<Rightarrow> nat \<Rightarrow> nat \<Rightarrow> 'w \<Rightarrow> (tds_error + unit) \<times> nat \<times> 'w" where
  "arrow_write_columns L F wcv [] row_idx index writer = (Inr (), index, writer)"
| "arrow_write_columns L F wcv (array # arrays) row_idx index writer =
     (case arrow_value_to_column_value L F array row_idx of
        Inl e \<Rightarrow> (Inl (UsageError (error_display L e)), index, writer)
      | Inr v \<Rightarrow>
          (case wcv index v writer of
             (Inl e, writer') \<Rightarrow> (Inl e, index, writer')
           | (Inr _, writer') \<Rightarrow> arrow_write_columns L F wcv arrays row_idx (index + 1) writer'))"

definition arrow_write_to_packet ::
    "tds_lib \<Rightarrow> arrow_fmt \<Rightarrow> (nat \<Rightarrow> column_values \<Rightarrow> 'w \<Rightarrow> (tds_error + unit) \<times> 'w)
       \<Rightarrow> arrow_bulk_row \<Rightarrow> nat \<Rightarrow> 'w \<Rightarrow> (tds_error + unit) \<times> nat \<times> 'w" where
  "arrow_write_to_packet L F wcv r index writer =
     arrow_write_columns L F wcv (rb_columns (ab_batch r)) (ab_row_idx r) index writer"

definition arrow_rows :: "record_batch list \<Rightarrow> arrow_bulk_row list" where
  "arrow_rows batches =
     concat (map (\<lambda>b. map (\<lambda>i. \<lparr>ab_batch = b, ab_row_idx = i\<rparr>) [0..<rb_num_rows b]) batches)"

definition send_arrow_batches ::
    "'c driver \<Rightarrow> ('c, arrow_bulk_row) bulk_engine \<Rightarrow> bulk_insert \<Rightarrow> record_batch list
       \<Rightarrow> ('c, error + bulk_copy_result) io" where
  "send_arrow_batches D engine b batches = bulk_send D engine b (arrow_rows batches)"

definition send_arrow ::
    "'c driver \<Rightarrow> ('c, arrow_bulk_row) bulk_engine \<Rightarrow> bulk_insert \<Rightarrow> record_batch
       \<Rightarrow> ('c, error + bulk_copy_result) io" where
  "send_arrow D engine b batch = send_arrow_batches D engine b [batch]"

section \<open>Properties\<close>

lemma read_nat_replicate: "read_nat (replicate n (CHR ''0'') @ s) = read_nat s"
proof -
  have "foldl (\<lambda>n c. 10 * n + digit_val c) 0 (replicate k (CHR ''0'')) = 0" for k
    by (induction k) (simp_all add: digit_val_def)
  then show ?thesis by (simp add: read_nat_def)
qed

lemma read_nat_zeros: "read_nat (s @ replicate n (CHR ''0'')) = read_nat s * 10 ^ n"
proof (induction n arbitrary: s)
  case 0
  then show ?case by simp
next
  case (Suc n)
  have "s @ replicate (Suc n) (CHR ''0'') = (s @ [CHR ''0'']) @ replicate n (CHR ''0'')" by simp
  then have "read_nat (s @ replicate (Suc n) (CHR ''0'')) = read_nat (s @ [CHR ''0'']) * 10 ^ n"
    using Suc by metis
  then show ?case by (simp add: read_nat_snoc digit_val_def)
qed

text \<open>The text of a decimal coefficient denotes exactly its value: at a positive scale it is
  a sign, at least one digit, a point and exactly \<open>scale\<close> digits that together read
  as the magnitude; at a scale of zero or less it is the integer multiplied out.\<close>

theorem format_decimal128_exact:
  shows "if 0 < sint scale
    then \<exists>ip fp. format_decimal128 raw scale = (if sint raw < 0 then ''-'' else []) @ ip @ ''.'' @ fp \<and>
           ip \<noteq> [] \<and> length fp = nat (sint scale) \<and> read_nat (ip @ fp) = nat \<bar>sint raw\<bar>
    else \<exists>ds. format_decimal128 raw scale = (if sint raw < 0 then ''-'' else []) @ ds \<and>
           read_nat ds = nat \<bar>sint raw\<bar> * 10 ^ nat (- sint scale)"
proof (cases "0 < sint scale")
  case True
  define n where "n = nat \<bar>sint raw\<bar>"
  let ?m = "show_nat n" and ?s = "nat (sint scale)"
  have fmt: "format_decimal128 raw scale =
      (if sint raw < 0 then ''-'' else []) @
      (if ?s < length ?m then take (length ?m - ?s) ?m @ ''.'' @ drop (length ?m - ?s) ?m
       else ''0.'' @ replicate (?s - length ?m) (CHR ''0'') @ ?m)"
    unfolding format_decimal128_def Let_def n_def [symmetric] using True by simp
  show ?thesis
  proof (cases "?s < length ?m")
    case longer: True
    let ?k = "length ?m - ?s"
    have "format_decimal128 raw scale = (if sint raw < 0 then ''-'' else []) @ take ?k ?m @ ''.'' @ drop ?k ?m"
      using longer by (simp add: fmt)
    moreover have "take ?k ?m \<noteq> []" "length (drop ?k ?m) = ?s" using longer by auto
    ultimately show ?thesis
      unfolding if_P [OF True]
      by - (rule exI [of _ "take ?k ?m"], rule exI [of _ "drop ?k ?m"], simp add: n_def)
  next
    case False
    let ?z = "replicate (?s - length ?m) (CHR ''0'')"
    have "format_decimal128 raw scale = (if sint raw < 0 then ''-'' else []) @ ''0'' @ ''.'' @ (?z @ ?m)"
      using False by (simp add: fmt)
    moreover have "read_nat (''0'' @ (?z @ ?m)) = n"
      using read_nat_replicate [of 1 "?z @ ?m"] read_nat_replicate [of _ ?m] by simp
    moreover have "length (?z @ ?m) = ?s" using False by simp
    ultimately show ?thesis
      unfolding if_P [OF True]
      by - (rule exI [of _ "''0''"], rule exI [of _ "?z @ ?m"], simp add: n_def)
  qed
next
  case False
  let ?z = "replicate (nat \<bar>sint scale\<bar>) (CHR ''0'')"
  have "show_int (sint raw) = (if sint raw < 0 then ''-'' else []) @ show_nat (nat \<bar>sint raw\<bar>)"
    by (simp add: show_int_def)
  with False have "format_decimal128 raw scale =
      (if sint raw < 0 then ''-'' else []) @ (show_nat (nat \<bar>sint raw\<bar>) @ ?z)"
    by (simp add: format_decimal128_def)
  moreover have "nat \<bar>sint scale\<bar> = nat (- sint scale)" using False by simp
  ultimately show ?thesis
    using False read_nat_zeros [of "show_nat (nat \<bar>sint raw\<bar>)"] by auto
qed

lemma arrow_int_values:
  "arrow_value L F A_Int8 (AC_Int8 a) = Inr v \<Longrightarrow> int_cell_value v = Some (sint a)"
  "arrow_value L F A_UInt16 (AC_UInt16 b) = Inr v \<Longrightarrow> int_cell_value v = Some (uint b)"
  "arrow_value L F A_UInt32 (AC_UInt32 c) = Inr v \<Longrightarrow> int_cell_value v = Some (uint c)"
  by (auto simp: arrow_value_def sint_ucast_wider sint_scast_wider)

text \<open>A null cell is never written as SQL NULL: every supported array type has a zero, false
  or empty value in its place.\<close>

theorem arrow_null_is_not_null:
  assumes "idx < length (aa_cells a)" and "aa_cells a ! idx = None"
  shows "\<exists>v. arrow_value_to_column_value L F a idx = Inr v \<and> v \<noteq> CV_Null"
  using assms by (cases "aa_type a") (simp_all add: arrow_value_to_column_value_def)

definition sample_arrow_fmt :: arrow_fmt where
  "sample_arrow_fmt = \<lparr>dbg_arrow_type = (\<lambda>_. ''DataType''), dbg_time_unit = (\<lambda>_. ''TimeUnit'')\<rparr>"

theorem arrow_null_is_not_null_witness:
  "\<exists>v. arrow_value_to_column_value sample_lib sample_arrow_fmt
     \<lparr>aa_type = A_Int32, aa_cells = [Some (AC_Int32 7), None]\<rparr> 1 = Inr v \<and> v \<noteq> CV_Null"
  by (rule arrow_null_is_not_null) simp_all


text \<open>Nanoseconds where the readers expect units of 100 ns.\<close>

lemma nanos_read_as_units:
  assumes "chrono_time_law C" and "0 \<le> t" and "t < NANOS_PER_DAY"
  shows "time_of_units C (word_of_int t) =
    (if t * 100 < NANOS_PER_DAY
     then Some (NaiveTime (word_of_int (t * 100 div 1000000000)) (word_of_int (t * 100 mod 1000000000)))
     else None)"
proof -
  define u :: u64 where "u = word_of_int t"
  have u: "uint u = t"
    unfolding u_def
    by (rule uint_of_fitting) (use assms(2,3) in \<open>simp add: fits_unsigned_def NANOS_PER_DAY_def\<close>)
  have v: "t < 86400000000000" using assms(3) by (simp add: NANOS_PER_DAY_def)
  have un: "unat u = nat t" using u by (metis nat_uint_eq)
  have tot: "unat (u * 100) = nat t * 100"
    using v un by (subst unat_mul_bound) simp_all
  let ?N = "nat t * 100"
  have N: "?N div 1000000000 < 2 ^ 32" "?N mod 1000000000 < 2 ^ 32" using v by simp_all
  have secs: "unat (ucast (u * 100 div 1000000000) :: u32) = ?N div 1000000000"
    using N(1) by (simp add: unsigned_ucast_eq take_bit_nat_eq_self unat_div tot)
  have nanos: "unat (ucast (u * 100 mod 1000000000) :: u32) = ?N mod 1000000000"
    using N(2) by (simp add: unsigned_ucast_eq take_bit_nat_eq_self unat_mod tot)
  have "int (?N div 1000000000) = t * 100 div 1000000000"
    "int (?N mod 1000000000) = t * 100 mod 1000000000"
    using assms(2) by (simp_all add: zdiv_int zmod_int)
  then have i: "word_of_int (t * 100 div 1000000000) = (word_of_nat (?N div 1000000000) :: u32)"
    "word_of_int (t * 100 mod 1000000000) = (word_of_nat (?N mod 1000000000) :: u32)"
    by (metis of_int_of_nat_eq)+
  have w: "ucast (u * 100 div 1000000000) = (word_of_int (t * 100 div 1000000000) :: u32)"
    "ucast (u * 100 mod 1000000000) = (word_of_int (t * 100 mod 1000000000) :: u32)"
    unfolding i word_unat_eq_iff secs nanos using N by (simp_all add: unat_of_nat take_bit_nat_eq_self)
  have "?N div 1000000000 < 86400 \<longleftrightarrow> t * 100 < NANOS_PER_DAY"
    using assms(2) by (simp add: NANOS_PER_DAY_def div_less_iff_less_mult nat_less_iff)
  moreover have "unat (ucast (u * 100 mod 1000000000) :: u32) < 1000000000" using nanos by simp
  ultimately show ?thesis
    using assms(1) secs w
    by (simp add: time_of_units_def Let_def chrono_time_law_def flip: u_def)
qed



text \<open>Coarser timestamps outside the range of 64-bit nanoseconds, before 1677 or after
  2262, are not refused: all of them become the one value at the end of that range.\<close>

theorem arrow_timestamp_saturates:
  assumes "2 ^ 63 \<le> sint v * 1000000000"
  shows "arrow_timestamp Second (AC_Timestamp Second v) =
    arrow_timestamp Nanosecond (AC_Timestamp Nanosecond (2 ^ 63 - 1))"
proof -
  have "sint (2 ^ 63 - 1 :: i64) = 2 ^ 63 - 1" by (simp add: sint_uint)
  with assms show ?thesis
    by (simp add: arrow_timestamp_def nanos_since_unix_def saturate_def)
qed

theorem arrow_timestamp_saturates_witness:
  "arrow_timestamp Second (AC_Timestamp Second 253402300799) =
    arrow_timestamp Nanosecond (AC_Timestamp Nanosecond (2 ^ 63 - 1))"
  by (rule arrow_timestamp_saturates) (simp add: sint_uint)

text \<open>The time of day of an Arrow column is stored in nanoseconds where the bridge's own
  writer and reader count units of 100 ns: the bridge cannot read back any time from
  00:14:24 on, and reads an earlier one as a hundred times itself.\<close>

theorem arrow_time_misread:
  assumes "chrono_time_law C" and "0 \<le> sint v" and "sint v < NANOS_PER_DAY"
    and "arrow_time64 F Nanosecond (AC_Time64 Nanosecond v) = Inr cell"
  shows "from_sql_naive_time C cell =
    (if sint v * 100 < NANOS_PER_DAY
     then Some (NaiveTime (word_of_int (sint v * 100 div 1000000000)) (word_of_int (sint v * 100 mod 1000000000)))
     else None)"
proof -
  have "cell = CV_Time \<lparr>time_nanoseconds = word_of_int (sint v), st_scale = DEFAULT_VARTIME_SCALE\<rparr>"
    using assms(2-4) by (simp add: arrow_time64_def split: if_splits)
  with nanos_read_as_units [OF assms(1-3)] show ?thesis by (simp add: from_sql_naive_time_def)
qed

theorem arrow_time_misread_witness:
  "from_sql_naive_time sample_chrono
     (CV_Time \<lparr>time_nanoseconds = 43200000000000, st_scale = DEFAULT_VARTIME_SCALE\<rparr>) = None"
proof -
  have s: "sint (43200000000000 :: i64) = 43200000000000" by (simp add: sint_uint)
  have "arrow_time64 sample_arrow_fmt Nanosecond (AC_Time64 Nanosecond 43200000000000) =
      Inr (CV_Time \<lparr>time_nanoseconds = 43200000000000, st_scale = DEFAULT_VARTIME_SCALE\<rparr>)"
    by (simp add: arrow_time64_def s NANOS_PER_DAY_def)
  from arrow_time_misread [OF sample_chrono_laws(2) _ _ this] show ?thesis
    by (simp add: s NANOS_PER_DAY_def)
qed

end
