(* ===== verification/WireLogic.thy ===== *)
theory WireLogic
  imports StreamModel
begin

text \<open>
  A logic of the client's conversations with the driver. A triple relates the connection before
  a computation to the connection after it, for each way it can end: with a value, with an
  error, or interrupted. The locale \<open>wire_protocol\<close> names the conditions under which the
  driver's methods may be called and what they leave; under it every reply loop, every body of
  an operation and every poll of a stream is verified once.
\<close>

section \<open>Triples\<close>

fun ended :: "('a \<Rightarrow> 'c \<Rightarrow> bool) \<Rightarrow> ('c \<Rightarrow> bool) \<Rightarrow> 'a outcome \<Rightarrow> 'c \<Rightarrow> bool" where
  "ended Q R (Ret a) c = Q a c"
| "ended Q R Dropped c = R c"
| "ended Q R Panicked c = R c"

definition hoare :: "('c \<Rightarrow> bool) \<Rightarrow> ('c, 'a) io \<Rightarrow> ('a \<Rightarrow> 'c \<Rightarrow> bool) \<Rightarrow> ('c \<Rightarrow> bool) \<Rightarrow> bool" where
  "hoare P m Q R \<longleftrightarrow>
     (\<forall>w r w'. P (conn w) \<longrightarrow> m w = Some (r, w') \<longrightarrow> ended Q R r (conn w'))"

lemma hoareI:
  "(\<And>w r w'. P (conn w) \<Longrightarrow> m w = Some (r, w') \<Longrightarrow> ended Q R r (conn w')) \<Longrightarrow> hoare P m Q R"
  by (simp add: hoare_def)

lemma hoareD:
  "hoare P m Q R \<Longrightarrow> P (conn w) \<Longrightarrow> m w = Some (r, w') \<Longrightarrow> ended Q R r (conn w')"
  by (simp add: hoare_def)

lemma ended_mono:
  assumes "ended Q R r c" and "\<And>a c. Q a c \<Longrightarrow> Q' a c" and "\<And>c. R c \<Longrightarrow> R' c"
  shows "ended Q' R' r c"
  using assms by (cases r) simp_all

text \<open>The same of one result, the form in which the loops are proved by induction.\<close>

definition meets ::
    "('c \<Rightarrow> bool) \<Rightarrow> ('a \<Rightarrow> 'c \<Rightarrow> bool) \<Rightarrow> ('c \<Rightarrow> bool) \<Rightarrow> 'c world \<Rightarrow> 'a outcome \<times> 'c world \<Rightarrow> bool" where
  "meets P Q R w y \<longleftrightarrow> (P (conn w) \<longrightarrow> ended Q R (fst y) (conn (snd y)))"

lemma hoare_iff: "hoare P m Q R \<longleftrightarrow> (\<forall>w y. m w = Some y \<longrightarrow> meets P Q R w y)"
  by (auto simp: hoare_def meets_def)

text \<open>The triple of a computation that may fail: \<open>G\<close> of a value, \<open>E\<close> of an error.\<close>

definition upon :: "('a \<Rightarrow> 'c \<Rightarrow> bool) \<Rightarrow> ('c \<Rightarrow> bool) \<Rightarrow> 'e + 'a \<Rightarrow> 'c \<Rightarrow> bool" where
  "upon G E r c = (case r of Inl _ \<Rightarrow> E c | Inr a \<Rightarrow> G a c)"

lemma upon_simps [simp]: "upon G E (Inl e) c = E c" "upon G E (Inr a) c = G a c"
  by (simp_all add: upon_def)

abbreviation runs ::
    "('c \<Rightarrow> bool) \<Rightarrow> ('c, 'e + 'a) io \<Rightarrow> ('a \<Rightarrow> 'c \<Rightarrow> bool) \<Rightarrow> ('c \<Rightarrow> bool) \<Rightarrow> ('c \<Rightarrow> bool) \<Rightarrow> bool" where
  "runs P m G E R \<equiv> hoare P m (upon G E) R"

lemma hoare_weaken:
  assumes "hoare P m Q R" and "\<And>c. P' c \<Longrightarrow> P c" and "\<And>r c. Q r c \<Longrightarrow> Q' r c" and "\<And>c. R c \<Longrightarrow> R' c"
  shows "hoare P' m Q' R'"
proof (rule hoareI)
  fix w r w'
  assume "P' (conn w)" and "m w = Some (r, w')"
  with hoareD [OF assms(1)] assms(2) have "ended Q R r (conn w')" by blast
  then show "ended Q' R' r (conn w')" by (rule ended_mono) (fact assms)+
qed

lemma hoare_pre: "hoare P m Q R \<Longrightarrow> (\<And>c. P' c \<Longrightarrow> P c) \<Longrightarrow> hoare P' m Q R"
  by (rule hoare_weaken)

lemma hoare_post: "hoare P m Q R \<Longrightarrow> (\<And>r c. Q r c \<Longrightarrow> Q' r c) \<Longrightarrow> hoare P m Q' R"
  by (rule hoare_weaken)

lemma runs_post:
  "runs P m G E R \<Longrightarrow> (\<And>a c. G a c \<Longrightarrow> G' a c) \<Longrightarrow> (\<And>c. E c \<Longrightarrow> E' c) \<Longrightarrow> runs P m G' E' R"
  by (erule hoare_post) (auto simp: upon_def split: sum.splits)

lemma hoare_ret: "(\<And>c. P c \<Longrightarrow> Q a c) \<Longrightarrow> hoare P (io_ret a) Q R"
  by (simp add: hoare_def)

lemma hoare_value [simp]: "hoare P (\<lambda>w. Some (Ret a, w)) Q R \<longleftrightarrow> (\<forall>c. P c \<longrightarrow> Q a c)"
proof
  assume "hoare P (\<lambda>w. Some (Ret a, w)) Q R"
  then have "P (conn w) \<longrightarrow> Q a (conn w)" for w :: "'a world" by (simp add: hoare_def)
  from this [of "\<lparr>conn = c, budget = None, next_arc = 0\<rparr>" for c] show "\<forall>c. P c \<longrightarrow> Q a c" by simp
qed (simp add: hoare_def)

lemma hoare_ret_iff [simp]: "hoare P (io_ret a) Q R \<longleftrightarrow> (\<forall>c. P c \<longrightarrow> Q a c)"
  using hoare_value [of P a Q R] by (simp add: io_ret_def [abs_def])

lemma hoare_panic: "(\<And>c. P c \<Longrightarrow> R c) \<Longrightarrow> hoare P io_panic Q R"
  by (simp add: hoare_def io_panic_def)

lemma hoare_bind:
  assumes "hoare P m M R" and "\<And>a. hoare (M a) (f a) Q R"
  shows "hoare P (io_bind m f) Q R"
proof (rule hoareI)
  fix w r w'
  assume P: "P (conn w)" and run: "io_bind m f w = Some (r, w')"
  then obtain x w1 where m: "m w = Some (x, w1)" by (auto simp: io_bind_def split: option.splits)
  have x: "ended M R x (conn w1)" by (rule hoareD [OF assms(1) P m])
  show "ended Q R r (conn w')"
  proof (cases x)
    case (Ret a)
    with run m have "f a w1 = Some (r, w')" by (simp add: io_bind_def)
    with x Ret show ?thesis by (auto intro: hoareD [OF assms(2)])
  qed (use run m x in \<open>auto simp: io_bind_def\<close>)
qed

lemma runs_try:
  assumes "runs P m G E R" and "\<And>a. runs (G a) (f a) G' E' R" and "\<And>c. E c \<Longrightarrow> E' c"
  shows "runs P (io_try m f) G' E' R"
  unfolding io_try_def
proof (rule hoare_bind [OF assms(1)])
  fix r
  show "hoare (upon G E r) (case r of Inl e \<Rightarrow> io_ret (Inl e) | Inr x \<Rightarrow> f x) (upon G' E') R"
  proof (cases r)
    case (Inl e)
    with assms(3) show ?thesis by (auto intro: hoare_ret)
  next
    case (Inr a)
    with assms(2) [of a] show ?thesis by (auto intro: hoare_pre)
  qed
qed

lemma hoare_if:
  "(b \<Longrightarrow> hoare P f Q R) \<Longrightarrow> (\<not> b \<Longrightarrow> hoare P g Q R) \<Longrightarrow> hoare P (\<lambda>w. if b then f w else g w) Q R"
  by (cases b) simp_all

lemma hoare_new_arc: "hoare P io_new_arc (\<lambda>_. P) R"
  by (simp add: hoare_def io_new_arc_def)

lemma hoare_new_schema: "hoare P (new_schema D) (\<lambda>_. P) R"
  by (simp add: hoare_def new_schema_def io_bind_def io_new_arc_def)

lemma hoare_sync: "(\<And>c. P c \<Longrightarrow> Q (fst (f c)) (snd (f c))) \<Longrightarrow> hoare P (io_sync f) Q R"
  by (force simp: hoare_def io_sync_def split: prod.splits)

text \<open>An awaited call: what it returns, and what is left when it is abandoned.\<close>

lemma runs_await:
  assumes "\<And>c r c'. P c \<Longrightarrow> f c = (r, c') \<Longrightarrow> upon G E r c'" and "\<And>c. P c \<Longrightarrow> R (drv_abandon D c)"
  shows "runs P (await_tds D f) G E R"
proof -
  have "upon G E (map_err Tds r) c = upon G E r c" for r :: "tds_error + 'b" and c
    by (cases r) simp_all
  then show ?thesis using assms
    by (auto simp: hoare_def await_tds_def io_await_def split: option.splits nat.splits prod.splits)
qed

section \<open>From the connection to the client\<close>

lemma hoare_inner:
  assumes "hoare P m Q R"
  shows "hoare (\<lambda>c. P (inner c)) (with_inner m) (\<lambda>r c. Q r (inner c)) (\<lambda>c. R (inner c))"
proof (rule hoareI)
  fix w r w'
  assume P: "P (inner (conn w))" and "with_inner m w = Some (r, w')"
  then obtain v where v: "m \<lparr>conn = inner (conn w), budget = budget w, next_arc = next_arc w\<rparr> = Some (r, v)"
    and w': "inner (conn w') = conn v"
    by (auto simp: with_inner_Some)
  from hoareD [OF assms _ v] P have "ended Q R r (inner (conn w'))" by (simp add: w')
  then show "ended (\<lambda>r c. Q r (inner c)) (\<lambda>c. R (inner c)) r (conn w')" by (cases r) simp_all
qed

lemma hoare_reading: "(\<And>x. hoare P (f x) Q R) \<Longrightarrow> hoare P (reading g f) Q R"
  by (simp add: hoare_def reading_def)

lemma runs_statement:
  assumes "runs P m G E R" and "\<And>c. P c \<Longrightarrow> E c"
  shows "runs P (with_statement D stmt m) G E R"
proof (rule hoareI)
  fix w r w'
  assume P: "P (conn w)" and "with_statement D stmt m w = Some (r, w')"
  from this(2) show "ended (upon G E) R r (conn w')"
    by (cases rule: with_statement_cases) (use P assms in \<open>auto intro: hoareD\<close>)
qed

lemma runs_map:
  assumes "runs P m (\<lambda>a. G (f a)) E R"
  shows "runs P (io_map f m) G E R"
proof (rule hoareI)
  fix w r w'
  assume P: "P (conn w)" and "io_map f m w = Some (r, w')"
  then obtain x where m: "m w = Some (x, w')" and r: "r = map_outcome (map_ok f) x"
    by (auto simp: io_map_Some)
  from hoareD [OF assms P m] show "ended (upon G E) R r (conn w')"
    by (cases x) (auto simp: r upon_def split: sum.splits)
qed

text \<open>The guard: a dead connection is refused as it is, an interrupted body leaves it marked.\<close>

lemma runs_guarded:
  assumes "runs P body G E R"
    and "\<And>c. A c \<Longrightarrow> \<not> is_dead H c \<Longrightarrow> P c" and "\<And>c. A c \<Longrightarrow> is_dead H c \<Longrightarrow> E c"
    and "\<And>c. R c \<Longrightarrow> R' (mark_dead H c)"
  shows "runs A (guarded H body) G E R'"
proof (rule hoareI)
  fix w r w'
  assume A: "A (conn w)" and run: "guarded H body w = Some (r, w')"
  show "ended (upon G E) R' r (conn w')"
  proof (cases "is_dead H (conn w)")
    case True
    with run A assms(3) show ?thesis by (auto simp: guarded_dead)
  next
    case False
    then obtain v where v: "body w = Some (r, v)"
      and w': "w' = (if \<exists>a. r = Ret a then v else v\<lparr>conn := mark_dead H (conn v)\<rparr>)"
      using run by (auto simp: guarded_alive split: option.splits outcome.splits prod.splits)
    from hoareD [OF assms(1) assms(2) [OF A False] v] assms(4) show ?thesis
      by (cases r) (simp_all add: w')
  qed
qed

text \<open>One poll: what an error leaves is asked of the item it yields.\<close>

lemma hoare_yield_error:
  assumes "runs P m G E R" and "\<And>a. hoare (G a) (f a) Q R" and "\<And>e c. E c \<Longrightarrow> Q (Some (Inl e), S_done) c"
  shows "hoare P (yield_error m f) Q R"
  unfolding yield_error_def
proof (rule hoare_bind [OF assms(1)])
  fix r
  show "hoare (upon G E r) (case r of Inl e \<Rightarrow> io_ret (Some (Inl e), S_done) | Inr x \<Rightarrow> f x) Q R"
  proof (cases r)
    case (Inl e)
    with assms(3) show ?thesis by (auto intro: hoare_ret)
  next
    case (Inr a)
    with assms(2) [of a] show ?thesis by (auto intro: hoare_pre)
  qed
qed

section \<open>The protocol\<close>

text \<open>
  The conditions of a connection between two calls of the driver: \<open>I\<close>, a conversation may
  begin; \<open>S\<close>, the outstanding reply was closed; \<open>B\<close>, a request may be sent; \<open>N\<close>, a reply is
  being read; \<open>X\<close>, the same, but the rows of the result set may be over; \<open>R\<close>, a call was
  abandoned or a panic unwound. The law of each method says where
  it may be called and what it leaves, also when it fails.
\<close>

locale wire_protocol =
  fixes D :: "'c driver" and I S B N X R :: "'c \<Rightarrow> bool"
  assumes close_query: "runs I (await_tds D (drv_close_query D)) (\<lambda>_. S) I R"
    and execute: "runs B (await_tds D (drv_execute D sql)) (\<lambda>_. N) I R"
    and executesql: "runs B (await_tds D (drv_execute_sp_executesql D sql ps)) (\<lambda>_. N) I R"
    and procedure: "runs B (await_tds D (drv_execute_stored_procedure D name pos named)) (\<lambda>_. N) I R"
    and advance_to_rows: "runs X (await_tds D (drv_advance_to_rows D)) (\<lambda>more. if more then N else I) I R"
    and advance: "runs X (await_tds D (drv_advance D)) (\<lambda>r. if r = End then I else N) I R"
    and next_row: "runs N (await_tds D (drv_next_row D)) (\<lambda>r. if r = None then X else N) I R"
    and next_row_into: "runs N (await_next_row_into D L wr) (\<lambda>res. if fst res then N else X) I R"
    and prepare_reset: "S c \<Longrightarrow> B (drv_prepare_reset_connection D False c)"
    and S_B: "S c \<Longrightarrow> B c" and B_I: "B c \<Longrightarrow> I c" 
    and N_X: "N c \<Longrightarrow> X c" and X_I: "X c \<Longrightarrow> I c" and I_R: "I c \<Longrightarrow> R c"
begin

lemma S_I: "S c \<Longrightarrow> I c"
  by (simp add: S_B B_I)

lemma N_I: "N c \<Longrightarrow> I c"
  by (simp add: N_X X_I)

lemma to_rows: "runs N (await_tds D (drv_advance_to_rows D)) (\<lambda>more. if more then N else I) I R"
  by (rule hoare_pre [OF advance_to_rows N_X])

lemma closed: "runs N (await_tds D (drv_close_query D)) (\<lambda>_. I) I R"
  by (rule runs_post [OF hoare_pre [OF close_query N_I]]) (simp_all add: S_I)

lemma positioned: "runs N (positioned D) (\<lambda>on. if on then N else I) I R"
proof (rule hoareI)
  fix w r w'
  assume N: "N (conn w)" and "positioned D w = Some (r, w')"
  then show "ended (upon (\<lambda>on. if on then N else I) I) R r (conn w')"
    by (cases "drv_on_rows D (conn w)") (auto simp: positioned_def dest: hoareD [OF to_rows])
qed

lemma collect_rows: "runs N (collect_rows D L wr rows) (\<lambda>_. X) I R"
  unfolding hoare_iff
proof (intro allI impI)
  fix w y
  assume "collect_rows D L wr rows w = Some y"
  then have "D = D \<longrightarrow> meets N (upon (\<lambda>_. X) I) R w y"
  proof (rule collect_rows.raw_induct
      [where P = "\<lambda>E L wr rows w y. E = D \<longrightarrow> meets N (upon (\<lambda>_. X) I) R w y", rotated])
    fix rec E L wr rows w y
    assume IH: "\<And>E L wr rows w y. rec E L wr rows w = Some y \<Longrightarrow> E = D \<longrightarrow> meets N (upon (\<lambda>_. X) I) R w y"
      and body: "io_try (await_next_row_into E L wr)
        (\<lambda>res w'. if fst res then rec E L (snd (take_row (snd res))) (rows @ [fst (take_row (snd res))]) w'
          else io_ret (Inr rows) w') w = Some y"
    have "runs N (rec D L wr' rows') (\<lambda>_. X) I R" for wr' rows' using IH by (auto simp: hoare_iff)
    then have "runs N (io_try (await_next_row_into D L wr)
        (\<lambda>res w'. if fst res then rec D L (snd (take_row (snd res))) (rows @ [fst (take_row (snd res))]) w'
          else io_ret (Inr rows) w')) (\<lambda>_. X) I R"
      by (intro runs_try [OF next_row_into] hoare_if) (auto intro: hoare_ret)
    with body show "E = D \<longrightarrow> meets N (upon (\<lambda>_. X) I) R w y" unfolding hoare_iff by blast
  qed
  then show "meets N (upon (\<lambda>_. X) I) R w y" by simp
qed

lemma count_rows: "runs N (count_rows D n) (\<lambda>_. X) I R"
  unfolding hoare_iff
proof (intro allI impI)
  fix w y
  assume "count_rows D n w = Some y"
  then have "D = D \<longrightarrow> meets N (upon (\<lambda>_. X) I) R w y"
  proof (rule count_rows.raw_induct
      [where P = "\<lambda>E n w y. E = D \<longrightarrow> meets N (upon (\<lambda>_. X) I) R w y", rotated])
    fix rec E n w y
    assume IH: "\<And>E n w y. rec E n w = Some y \<Longrightarrow> E = D \<longrightarrow> meets N (upon (\<lambda>_. X) I) R w y"
      and body: "io_try (await_tds E (drv_next_row E))
        (\<lambda>r w'. if r \<noteq> None then rec E (n + 1) w' else io_ret (Inr n) w') w = Some y"
    have "runs N (rec D n') (\<lambda>_. X) I R" for n' using IH by (auto simp: hoare_iff)
    then have "runs N (io_try (await_tds D (drv_next_row D))
        (\<lambda>r w'. if r \<noteq> None then rec D (n + 1) w' else io_ret (Inr n) w')) (\<lambda>_. X) I R"
      by (intro runs_try [OF next_row] hoare_if) (auto intro: hoare_ret)
    with body show "E = D \<longrightarrow> meets N (upon (\<lambda>_. X) I) R w y" unfolding hoare_iff by blast
  qed
  then show "meets N (upon (\<lambda>_. X) I) R w y" by simp
qed

lemma drain_to_end: "runs N (drain_to_end D) (\<lambda>_. I) I R"
  unfolding hoare_iff
proof (intro allI impI)
  fix w y
  assume "drain_to_end D w = Some y"
  then have "D = D \<longrightarrow> meets N (upon (\<lambda>_. I) I) R w y"
  proof (rule drain_to_end.raw_induct
      [where P = "\<lambda>E w y. E = D \<longrightarrow> meets N (upon (\<lambda>_. I) I) R w y", rotated])
    fix rec E w y
    assume IH: "\<And>E w y. rec E w = Some y \<Longrightarrow> E = D \<longrightarrow> meets N (upon (\<lambda>_. I) I) R w y"
      and body: "io_try (await_tds E (drv_advance_to_rows E))
        (\<lambda>more w'. if more then rec E w' else io_ret (Inr ()) w') w = Some y"
    have "runs N (rec D) (\<lambda>_. I) I R" using IH by (auto simp: hoare_iff)
    then have "runs N (io_try (await_tds D (drv_advance_to_rows D))
        (\<lambda>more w'. if more then rec D w' else io_ret (Inr ()) w')) (\<lambda>_. I) I R"
      by (intro runs_try [OF to_rows] hoare_if) (auto intro: hoare_ret)
    with body show "E = D \<longrightarrow> meets N (upon (\<lambda>_. I) I) R w y" unfolding hoare_iff by blast
  qed
  then show "meets N (upon (\<lambda>_. I) I) R w y" by simp
qed

lemma collect_sets: "runs N (collect_sets D L sets index) (\<lambda>_. I) I R"
  unfolding hoare_iff
proof (intro allI impI)
  fix w y
  assume "collect_sets D L sets index w = Some y"
  then have "D = D \<longrightarrow> meets N (upon (\<lambda>_. I) I) R w y"
  proof (rule collect_sets.raw_induct
      [where P = "\<lambda>E L sets index w y. E = D \<longrightarrow> meets N (upon (\<lambda>_. I) I) R w y", rotated])
    fix rec E L sets index w y
    assume IH: "\<And>E L sets index w y. rec E L sets index w = Some y \<Longrightarrow> E = D \<longrightarrow> meets N (upon (\<lambda>_. I) I) R w y"
      and body: "io_try (positioned E)
       (\<lambda>on w1.
          if \<not> on then io_ret (Inr \<lparr>result_sets = sets\<rparr>) w1
          else io_bind (new_schema E) (\<lambda>s w2.
            io_try (collect_rows E L (with_result_index s index) [])
              (\<lambda>rows w3. io_try (await_tds E (drv_advance_to_rows E))
                (\<lambda>more w4. if more then rec E L (sets @ [rows]) (index + 1) w4
                           else io_ret (Inr \<lparr>result_sets = sets @ [rows]\<rparr>) w4) w3) w2) w1) w = Some y"
    have rec: "runs N (\<lambda>w. rec D L sets' index' w) (\<lambda>_. I) I R" for sets' index' using IH by (auto simp: hoare_iff)
    have set: "runs N (\<lambda>w2. io_try (collect_rows D L (with_result_index s index) [])
              (\<lambda>rows w3. io_try (await_tds D (drv_advance_to_rows D))
                (\<lambda>more w4. if more then rec D L (sets @ [rows]) (index + 1) w4
                           else io_ret (Inr \<lparr>result_sets = sets @ [rows]\<rparr>) w4) w3) w2) (\<lambda>_. I) I R" for s
      by (intro runs_try [OF collect_rows] runs_try [OF advance_to_rows] hoare_if) (simp_all add: rec)
    have "runs N (io_try (positioned D)
       (\<lambda>on w1.
          if \<not> on then io_ret (Inr \<lparr>result_sets = sets\<rparr>) w1
          else io_bind (new_schema D) (\<lambda>s w2.
            io_try (collect_rows D L (with_result_index s index) [])
              (\<lambda>rows w3. io_try (await_tds D (drv_advance_to_rows D))
                (\<lambda>more w4. if more then rec D L (sets @ [rows]) (index + 1) w4
                           else io_ret (Inr \<lparr>result_sets = sets @ [rows]\<rparr>) w4) w3) w2) w1)) (\<lambda>_. I) I R"
      by (intro runs_try [OF positioned] hoare_if hoare_bind [OF hoare_new_schema]) (use set in simp_all)
    with body show "E = D \<longrightarrow> meets N (upon (\<lambda>_. I) I) R w y" unfolding hoare_iff by blast
  qed
  then show "meets N (upon (\<lambda>_. I) I) R w y" by simp
qed

lemma count_statement:
  "runs (if result = End then I else N) (count_statement D result) (\<lambda>c. if c = None then I else X) I R"
  by (cases result) (auto simp: count_statement_def N_X intro!: runs_try [OF count_rows])

lemma collect_counts:
  "runs (if result = End then I else N) (collect_counts D result cs) (\<lambda>_. I) I R"
  unfolding hoare_iff
proof (intro allI impI)
  let ?P = "\<lambda>result. if result = End then I else N"
  fix w y
  assume "collect_counts D result cs w = Some y"
  then have "D = D \<longrightarrow> meets (?P result) (upon (\<lambda>_. I) I) R w y"
  proof (rule collect_counts.raw_induct
      [where P = "\<lambda>E result cs w y. E = D \<longrightarrow> meets (?P result) (upon (\<lambda>_. I) I) R w y", rotated])
    fix rec E result cs w y
    assume IH: "\<And>E result cs w y. rec E result cs w = Some y \<Longrightarrow> E = D \<longrightarrow> meets (?P result) (upon (\<lambda>_. I) I) R w y"
      and body: "io_try (count_statement E result)
        (\<lambda>c w1. if c = None then io_ret (Inr \<lparr>counts = cs\<rparr>) w1
          else io_try (await_tds E (drv_advance E)) (\<lambda>next w2. rec E next (cs @ the c) w2) w1) w = Some y"
    have rec: "runs (?P next) (\<lambda>w. rec D next cs' w) (\<lambda>_. I) I R" for "next" cs'
      using IH by (auto simp: hoare_iff)
    have "next": "runs X (\<lambda>w1. io_try (await_tds D (drv_advance D)) (\<lambda>next w2. rec D next (cs @ c) w2) w1)
        (\<lambda>_. I) I R" for c
      by (intro runs_try [OF advance]) (simp_all add: rec)
    have "runs (?P result) (io_try (count_statement D result)
        (\<lambda>c w1. if c = None then io_ret (Inr \<lparr>counts = cs\<rparr>) w1
          else io_try (await_tds D (drv_advance D)) (\<lambda>next w2. rec D next (cs @ the c) w2) w1)) (\<lambda>_. I) I R"
      by (intro runs_try [OF count_statement] hoare_if) (use "next" in auto)
    with body show "E = D \<longrightarrow> meets (?P result) (upon (\<lambda>_. I) I) R w y" unfolding hoare_iff by blast
  qed
  then show "meets (?P result) (upon (\<lambda>_. I) I) R w y" by simp
qed

lemma collected:
  "runs N (collect_results D L) (\<lambda>_. I) I R" "runs N (collect_execute_results D result) (\<lambda>_. I) I R"
proof -
  show "runs N (collect_results D L) (\<lambda>_. I) I R"
    using collect_sets by (simp add: collect_results_def [abs_def])
  show "runs N (collect_execute_results D result) (\<lambda>_. I) I R"
    by (simp add: collect_execute_results_def [abs_def])
      (rule hoare_pre [OF collect_counts], simp add: N_I)
qed

text \<open>A request of any kind, after the close or the reset flag; a request and then its reply.\<close>

lemmas requests = execute executesql procedure

lemma closing:
  "(\<And>x. runs S (f x) G E R) \<Longrightarrow> (\<And>c. I c \<Longrightarrow> E c) \<Longrightarrow> runs I (io_try (await_tds D (drv_close_query D)) f) G E R"
  by (rule runs_try [OF close_query])

lemma requesting:
  assumes "runs B m (\<lambda>_. N) I R" and "\<And>x. runs N (f x) (\<lambda>_. I) I R"
  shows "runs S (io_try m f) (\<lambda>_. I) I R"
  by (rule runs_try [OF hoare_pre [OF assms(1) S_B]]) (simp_all add: assms(2))

lemma prepared_prepare: "runs S (prepared_prepare D L sql params unicode session) (\<lambda>_. I) I R"
proof -
  have returned: "runs I (\<lambda>w. io_ret (h (drv_get_return_values D (conn w))) w) (\<lambda>_. I) I R"
    for h :: "column_values list \<Rightarrow> error + prepared_statement"
    by (rule hoareI) (auto simp: upon_def split: sum.splits)
  show ?thesis
    unfolding prepared_prepare_def
    by (auto split: option.splits sum.splits simp del: io_ret_simp
        intro!: hoare_panic requesting [OF procedure] runs_try [OF drain_to_end] returned S_I I_R)
qed

lemma reset_body: "runs I (reset_body D) (\<lambda>_. S) I R"
  unfolding reset_body_def
  by (intro closing hoare_bind [where M = "\<lambda>_. B"] hoare_sync runs_try [OF execute] hoare_pre [OF close_query N_I])
    (simp_all add: prepare_reset)

end

section \<open>Operations\<close>

text \<open>Where a stream stands decides what its next poll may rely on.\<close>

definition poised :: "('c \<Rightarrow> bool) \<Rightarrow> ('c \<Rightarrow> bool) \<Rightarrow> stream_state \<Rightarrow> 'c \<Rightarrow> bool" where
  "poised M J st c = (case st of S_rows _ _ \<Rightarrow> M c | _ \<Rightarrow> J c)"

text \<open>
  Between two operations the connection is in \<open>J\<close>, in the middle of a stream in \<open>M\<close>, past the
  rows of a result set in \<open>F\<close>, and in \<open>J'\<close> after an interruption: what the conditions of the protocol become when the connection may
  also be marked dead, in which case nothing is sent.
\<close>

locale guarded_protocol = wire_protocol D I S B N X R
  for D :: "'c driver" and I S B N X R +
  fixes J M F J' :: "'c \<Rightarrow> bool"
  assumes J_I: "J c \<Longrightarrow> \<not> is_dead (drv_health D) c \<Longrightarrow> I c" and I_J: "I c \<Longrightarrow> J c"
    and M_N: "M c \<Longrightarrow> \<not> is_dead (drv_health D) c \<Longrightarrow> N c" and N_M: "N c \<Longrightarrow> M c"
    and F_X: "F c \<Longrightarrow> \<not> is_dead (drv_health D) c \<Longrightarrow> X c" and X_F: "X c \<Longrightarrow> F c"
    and M_F: "M c \<Longrightarrow> F c" and F_J: "F c \<Longrightarrow> J c" and J_J': "J c \<Longrightarrow> J' c"
    and marked: "R c \<Longrightarrow> J' (mark_dead (drv_health D) c)"
begin

lemma M_J: "M c \<Longrightarrow> J c"
  by (simp add: M_F F_J)

lemma operation:
  assumes "runs I body (\<lambda>_. I) I R"
  shows "runs (\<lambda>c. J (inner c)) (with_inner (guarded (drv_health D) body)) (\<lambda>_ c. J (inner c))
    (\<lambda>c. J (inner c)) (\<lambda>c. J' (inner c))"
proof -
  have "runs I body (\<lambda>_. J) J R" by (rule runs_post [OF assms]) (simp_all add: I_J)
  then have "runs J (guarded (drv_health D) body) (\<lambda>_. J) J J'"
    by (rule runs_guarded) (simp_all add: J_I marked)
  from hoare_inner [OF this] show ?thesis by (rule hoare_post) (simp add: upon_def split: sum.splits)
qed

lemma interrupted: "I c \<Longrightarrow> J' c"
  by (simp add: I_J J_J')

text \<open>The operations but \<open>reset_session\<close>.\<close>

lemma simple_query: "runs (\<lambda>c. J (inner c)) (simple_query D L sql) (\<lambda>_ c. J (inner c)) (\<lambda>c. J (inner c)) (\<lambda>c. J' (inner c))"
  unfolding simple_query_def by (intro operation closing requesting [OF execute] collected) simp

lemma operations:
  "runs (\<lambda>c. J (inner c)) (client_query D L sql params) (\<lambda>_ c. J (inner c)) (\<lambda>c. J (inner c)) (\<lambda>c. J' (inner c))"
  "runs (\<lambda>c. J (inner c)) (client_execute D sql params) (\<lambda>_ c. J (inner c)) (\<lambda>c. J (inner c)) (\<lambda>c. J' (inner c))"
  "runs (\<lambda>c. J (inner c)) (client_prepare D L sql params) (\<lambda>_ c. J (inner c)) (\<lambda>c. J (inner c)) (\<lambda>c. J' (inner c))"
  "runs (\<lambda>c. J (inner c)) (query_prepared D L stmt params) (\<lambda>_ c. J (inner c)) (\<lambda>c. J (inner c)) (\<lambda>c. J' (inner c))"
  "runs (\<lambda>c. J (inner c)) (execute_prepared D stmt params) (\<lambda>_ c. J (inner c)) (\<lambda>c. J (inner c)) (\<lambda>c. J' (inner c))"
  "runs (\<lambda>c. J (inner c)) (unprepare D stmt) (\<lambda>_ c. J (inner c)) (\<lambda>c. J (inner c)) (\<lambda>c. J' (inner c))"
  unfolding client_query_def client_execute_def client_prepare_def query_prepared_def
    execute_prepared_def unprepare_def
  by (auto split: option.splits simp: J_J' B_I I_R
      intro!: simple_query hoare_reading runs_statement operation closing requesting requests collected
        hoare_panic prepared_prepare closed)

lemma ping: "runs (\<lambda>c. J (inner c)) (ping D) (\<lambda>_ c. J (inner c)) (\<lambda>c. J (inner c)) (\<lambda>c. J' (inner c))"
  by (rule hoareI) (auto simp: ping_def upon_def split: sum.splits)

text \<open>A reset that fails or is interrupted marks the connection.\<close>

lemma reset_session:
  "runs (\<lambda>c. J (inner c)) (reset_session D) (\<lambda>_ c. J (inner c)) (\<lambda>c. J' (inner c)) (\<lambda>c. J' (inner c))"
proof (rule hoareI)
  let ?G = "upon (\<lambda>_ c. J (inner c)) (\<lambda>c. J' (inner c))"
  fix w r w'
  assume J: "J (inner (conn w))" and "reset_session D w = Some (r, w')"
  from this(2) show "ended ?G (\<lambda>c. J' (inner c)) r (conn w')"
  proof (cases rule: reset_session_cases)
    case rejected
    with J show ?thesis by (simp add: J_J')
  next
    case (ran v)
    have "I (inner (conn w))" using J_I J ran(1) by (simp add: client_is_connection_dead_def)
    then have "ended (upon (\<lambda>_. S) I) R r (conn v)" by (intro hoareD [OF reset_body _ ran(2)]) simp
    then show ?thesis
      by (cases r) (auto simp: ran(3) upon_def S_I I_J I_R marked split: sum.splits)
  qed
qed

text \<open>Every call of a client.\<close>

lemma call:
  "hoare (\<lambda>c. J (inner c)) (run_call D L call)
     (\<lambda>r c. if call = C_reset \<and> \<not> is_ok r then J' (inner c) else J (inner c)) (\<lambda>c. J' (inner c))"
proof (cases "call = C_reset")
  case True
  have "runs (\<lambda>c. J (inner c)) (run_call D L C_reset) (\<lambda>_ c. J (inner c)) (\<lambda>c. J' (inner c)) (\<lambda>c. J' (inner c))"
    by (simp add: runs_map reset_session)
  then show ?thesis
    unfolding True by (rule hoare_post) (auto simp: upon_def split: sum.splits)
next
  case False
  then have "runs (\<lambda>c. J (inner c)) (run_call D L call) (\<lambda>_ c. J (inner c)) (\<lambda>c. J (inner c)) (\<lambda>c. J' (inner c))"
    by (cases call) (simp_all add: runs_map simple_query operations ping)
  then show ?thesis
    by (rule hoare_post) (auto simp: False upon_def split: sum.splits)
qed

section \<open>Streams\<close>

lemma poised_J: "poised M J st c \<Longrightarrow> J c"
  by (cases st) (simp_all add: poised_def M_J)

lemma advance_stream: "runs F (advance_stream D) (\<lambda>more. if more then M else J) J J'"
proof -
  have "runs X (await_tds D (drv_advance_to_rows D)) (\<lambda>more. if more then M else J) J R"
    by (rule runs_post [OF advance_to_rows]) (auto simp: N_M I_J split: if_splits)
  then show ?thesis unfolding advance_stream_def
    by (rule runs_guarded) (simp_all add: F_X F_J marked)
qed

lemma advance_rows: "runs M (advance_stream D) (\<lambda>more. if more then M else J) J J'"
  by (rule hoare_pre [OF advance_stream M_F])

lemma stream_positioned: "runs M (stream_positioned D) (\<lambda>on. if on then M else J) J J'"
proof (rule hoareI)
  fix w r w'
  assume "M (conn w)" and "stream_positioned D w = Some (r, w')"
  then show "ended (upon (\<lambda>on. if on then M else J) J) J' r (conn w')"
    by (cases "drv_on_rows D (conn w)") (auto simp: stream_positioned_def dest: hoareD [OF advance_rows])
qed

lemma stream_top: "hoare M (stream_top D index) (\<lambda>p. poised M J (snd p)) J'"
  unfolding stream_top_def
proof (rule hoare_yield_error [OF stream_positioned])
  fix on
  show "hoare (if on then M else J)
      (if \<not> on then io_ret (None, S_done)
       else io_bind (new_schema D) (\<lambda>s. io_ret (Some (Inr (ItemMetadata (result_metadata_new s index))),
              S_rows index (with_result_index s index)))) (\<lambda>p. poised M J (snd p)) J'"
    by (auto simp: poised_def intro: hoare_bind [OF hoare_new_schema])
qed (simp add: poised_def)

lemma stream_next_row: "hoare M (stream_next_row D L index wr) (\<lambda>p. poised M J (snd p)) J'"
  unfolding stream_next_row_def
proof (rule hoare_yield_error)
  show "runs M (guarded (drv_health D) (await_next_row_into D L wr)) (\<lambda>res. if fst res then M else F) J J'"
  proof (rule runs_guarded)
    show "runs N (await_next_row_into D L wr) (\<lambda>res. if fst res then M else F) J R"
      by (rule runs_post [OF next_row_into]) (auto simp: N_M X_F I_J split: if_splits)
  qed (simp_all add: M_N M_J marked)
next
  fix res
  show "hoare (if fst res then M else F) (if fst res
              then io_ret (Some (Inr (ItemRow (fst (take_row (snd res))))), S_rows index (snd (take_row (snd res))))
              else yield_error (advance_stream D)
                     (\<lambda>more. if \<not> more then io_ret (None, S_done) else stream_top D (index + 1)))
      (\<lambda>p. poised M J (snd p)) J'"
    by (auto simp: poised_def intro!: hoare_yield_error [OF advance_stream] stream_top [simplified poised_def])
qed (simp add: poised_def)

lemma stream_start: "hoare J (stream_start D sql rpc) (\<lambda>p. poised M J (snd p)) J'"
  unfolding stream_start_def
proof (rule hoare_yield_error [OF _ stream_top])
  have "runs S (case rpc of None \<Rightarrow> await_tds D (drv_execute D sql)
           | Some p \<Rightarrow> await_tds D (drv_execute_sp_executesql D sql p)) (\<lambda>_. N) I R"
    by (auto intro: hoare_pre [OF execute S_B] hoare_pre [OF executesql S_B] split: option.split)
  then have "runs S (io_try (case rpc of None \<Rightarrow> await_tds D (drv_execute D sql)
                         | Some p \<Rightarrow> await_tds D (drv_execute_sp_executesql D sql p)) (\<lambda>_. io_ret (Inr ()))) (\<lambda>_. M) J R"
    by (rule runs_try) (auto simp: N_M I_J)
  then have "runs I (io_try (await_tds D (drv_close_query D))
           (\<lambda>_. io_try (case rpc of None \<Rightarrow> await_tds D (drv_execute D sql)
                         | Some p \<Rightarrow> await_tds D (drv_execute_sp_executesql D sql p)) (\<lambda>_. io_ret (Inr ()))))
      (\<lambda>_. M) J R"
    by (intro closing) (simp_all add: I_J)
  then show "runs J (guarded (drv_health D) (io_try (await_tds D (drv_close_query D))
           (\<lambda>_. io_try (case rpc of None \<Rightarrow> await_tds D (drv_execute D sql)
                         | Some p \<Rightarrow> await_tds D (drv_execute_sp_executesql D sql p)) (\<lambda>_. io_ret (Inr ())))))
      (\<lambda>_. M) J J'"
    by (rule runs_guarded) (simp_all add: J_I marked)
qed (simp add: poised_def)

lemma poll: "hoare (poised M J st) (stream_poll D L st) (\<lambda>p. poised M J (snd p)) J'"
  by (cases st)
    (auto simp: poised_def [where st = "S_start _ _"] poised_def [where st = "S_rows _ _"] poised_def [where st = S_done]
      intro: hoare_pre [OF stream_start] hoare_pre [OF stream_next_row])

end

end
