(* ===== verification/Availability.thy ===== *)
theory Availability
  imports WireLogic
begin

text \<open>
  The other half of the connection's life cycle: what a call that returns leaves behind. The
  client touches the connection through the driver's methods only, so an invariant of the
  driver survives every call and every poll of a stream that returns; a connection its driver
  keeps alive stays available, whatever errors the server answered with and wherever a stream
  was given up between two polls.
\<close>

section \<open>Invariants of the driver\<close>

text \<open>The contract: \<open>P\<close> holds of a connection after a method when it held before.\<close>

locale driver_invariant =
  fixes D :: "'c driver" and P :: "'c \<Rightarrow> bool"
  assumes close_query: "P c \<Longrightarrow> P (snd (drv_close_query D c))"
    and execute: "P c \<Longrightarrow> P (snd (drv_execute D sql c))"
    and executesql: "P c \<Longrightarrow> P (snd (drv_execute_sp_executesql D sql ps c))"
    and procedure: "P c \<Longrightarrow> P (snd (drv_execute_stored_procedure D name pos named c))"
    and advance_to_rows: "P c \<Longrightarrow> P (snd (drv_advance_to_rows D c))"
    and advance: "P c \<Longrightarrow> P (snd (drv_advance D c))"
    and next_row_into: "P c \<Longrightarrow> P (snd (drv_next_row_into D c))"
    and next_row: "P c \<Longrightarrow> P (snd (drv_next_row D c))"
    and prepare_reset: "P c \<Longrightarrow> P (drv_prepare_reset_connection D b c)"

text \<open>An invariant is a protocol whose conditions are all the invariant; nothing is asked of a
  connection that was interrupted.\<close>

lemma runs_invariant:
  assumes "\<And>c. P c \<Longrightarrow> P (snd (f c))"
  shows "runs P (await_tds D f) (\<lambda>_. P) P (\<lambda>_. True)"
  by (rule runs_await) (use assms in \<open>force simp: upon_def split: sum.splits\<close>)+

sublocale driver_invariant \<subseteq> protocol: guarded_protocol D P P P P P "\<lambda>_. True" P P P "\<lambda>_. True"
proof unfold_locales
  show "runs P (await_next_row_into D L wr) (\<lambda>res. if fst res then P else P) P (\<lambda>_. True)" for L wr
  proof (rule hoareI)
    fix w r w'
    assume "P (conn w)" and "await_next_row_into D L wr w = Some (r, w')"
    with next_row_into [of "conn w"] show "ended (upon (\<lambda>res. if fst res then P else P) P) (\<lambda>_. True) r (conn w')"
      by (auto simp: await_next_row_into_def io_await_def upon_def split: option.splits nat.splits prod.splits sum.splits)
  qed
qed (auto intro!: runs_invariant simp: close_query execute executesql procedure advance_to_rows advance
    next_row prepare_reset)

context driver_invariant begin

text \<open>A call that returns leaves the invariant, unless it is a failed reset; so does a poll.\<close>

lemma call_kept:
  assumes "P (inner (conn w))" and "run_call D L call w = Some (Ret r, w')"
    and "call = C_reset \<Longrightarrow> is_ok r"
  shows "P (inner (conn w'))"
  using hoareD [OF protocol.call _ assms(2)] assms(1,3) by (auto split: if_splits)

lemma poll_kept:
  assumes "P (conn v)" and "stream_poll D L st v = Some (Ret r, v')"
  shows "P (conn v')"
proof -
  have "poised P P st (conn v)" using assms(1) by (cases st) (simp_all add: poised_def)
  from hoareD [OF protocol.poll this assms(2)] show ?thesis by (simp add: protocol.poised_J)
qed

end

section \<open>Sequences of calls\<close>

text \<open>A caller that does one thing after the other and lets everything it polls return: calls,
  and streams of queries that it polls a number of times, each poll with its own limit of
  awaits, and then drops.\<close>

datatype session_action =
    A_call client_call
  | A_stream string "dyn_to_sql list" "nat option list"

fun run_polls ::
    "'c driver \<Rightarrow> tds_lib \<Rightarrow> stream_state \<Rightarrow> nat option list \<Rightarrow> 'c world
       \<Rightarrow> ((error + query_item) option list \<times> 'c world) option" where
  "run_polls D L st [] v = Some ([], v)"
| "run_polls D L st (b # bs) v =
     (case stream_poll D L st (v\<lparr>budget := b\<rparr>) of
        Some (Ret (item, st'), v1) \<Rightarrow> map_option (\<lambda>(items, v'). (item # items, v')) (run_polls D L st' bs v1)
      | _ \<Rightarrow> None)"

datatype action_result = R_call "error + call_value" | R_stream "(error + query_item) option list"

fun run_action ::
    "'c driver \<Rightarrow> tds_lib \<Rightarrow> session_action \<Rightarrow> 'c client world \<Rightarrow> (action_result \<times> 'c client world) option" where
  "run_action D L (A_call call) w =
     (case run_call D L call w of Some (Ret r, w') \<Rightarrow> Some (R_call r, w') | _ \<Rightarrow> None)"
| "run_action D L (A_stream sql params bs) w =
     (case query_compat sql params (send_string_parameters_as_unicode (conn w)) of
        None \<Rightarrow> None
      | Some q \<Rightarrow>
          map_option (\<lambda>(items, v).
              (R_stream items, w\<lparr>conn := (conn w)\<lparr>inner := conn v\<rparr>, next_arc := next_arc v\<rparr>))
            (run_polls D L (qs_inner q) bs
               \<lparr>conn = inner (conn w), budget = budget w, next_arc = next_arc w\<rparr>))"

fun run_actions ::
    "'c driver \<Rightarrow> tds_lib \<Rightarrow> session_action list \<Rightarrow> 'c client world
       \<Rightarrow> (action_result list \<times> 'c client world) option" where
  "run_actions D L [] w = Some ([], w)"
| "run_actions D L (act # acts) w =
     (case run_action D L act w of
        Some (r, w1) \<Rightarrow> map_option (\<lambda>(rs, w'). (r # rs, w')) (run_actions D L acts w1)
      | None \<Rightarrow> None)"

text \<open>A driver that never finds its connection dead by itself.\<close>

definition keeps_alive :: "'c driver \<Rightarrow> bool" where
  "keeps_alive D \<longleftrightarrow>
     (\<forall>c. \<not> is_dead (drv_health D) c \<longrightarrow>
        \<not> is_dead (drv_health D) (snd (drv_close_query D c)) \<and>
        (\<forall>sql. \<not> is_dead (drv_health D) (snd (drv_execute D sql c))) \<and>
        (\<forall>sql ps. \<not> is_dead (drv_health D) (snd (drv_execute_sp_executesql D sql ps c))) \<and>
        (\<forall>name pos named. \<not> is_dead (drv_health D) (snd (drv_execute_stored_procedure D name pos named c))) \<and>
        \<not> is_dead (drv_health D) (snd (drv_advance_to_rows D c)) \<and>
        \<not> is_dead (drv_health D) (snd (drv_advance D c)) \<and>
        \<not> is_dead (drv_health D) (snd (drv_next_row_into D c)) \<and>
        \<not> is_dead (drv_health D) (snd (drv_next_row D c)) \<and>
        (\<forall>b. \<not> is_dead (drv_health D) (drv_prepare_reset_connection D b c)))"

lemma keeps_alive_invariant: "keeps_alive D \<Longrightarrow> driver_invariant D (\<lambda>c. \<not> is_dead (drv_health D) c)"
  by unfold_locales (simp_all add: keeps_alive_def)

lemma replay_keeps_alive: "keeps_alive (replay_driver L)"
  by (auto simp: keeps_alive_def replay_driver_def replay_request_def split: list.splits prod.splits sum.splits option.splits)

interpretation replay_alive: driver_invariant "replay_driver L" "\<lambda>c. \<not> is_dead (drv_health (replay_driver L)) c" for L
  by (rule keeps_alive_invariant [OF replay_keeps_alive])

lemma polls_stay_alive:
  assumes "keeps_alive D" and "\<not> is_dead (drv_health D) (conn v)"
    and "run_polls D L st bs v = Some (items, v')"
  shows "\<not> is_dead (drv_health D) (conn v')"
  using assms(2,3)
proof (induction bs arbitrary: st v items)
  case (Cons b bs)
  then obtain x v1 items' where poll: "stream_poll D L st (v\<lparr>budget := b\<rparr>) = Some (Ret x, v1)"
    and rest: "run_polls D L (snd x) bs v1 = Some (items', v')"
    by (auto split: option.splits outcome.splits)
  have "\<not> is_dead (drv_health D) (conn v1)"
    using driver_invariant.poll_kept [OF keeps_alive_invariant [OF assms(1)] _ poll] Cons.prems(1) by simp
  from Cons.IH [OF this rest] show ?case .
qed simp

lemma action_stays_alive:
  assumes "keeps_alive D" and "\<not> client_is_connection_dead D (conn w)"
    and run: "run_action D L act w = Some (r, w')"
    and "act = A_call C_reset \<Longrightarrow> \<exists>v. r = R_call (Inr v)"
  shows "\<not> client_is_connection_dead D (conn w')"
proof (cases act)
  case (A_call call)
  with run obtain x where r: "run_call D L call w = Some (Ret x, w')" "r = R_call x"
    by (auto split: option.splits outcome.splits)
  have "call = C_reset \<Longrightarrow> is_ok x" using assms(4) A_call r(2) by auto
  then show ?thesis
    using driver_invariant.call_kept [OF keeps_alive_invariant [OF assms(1)] _ r(1)] assms(2)
    by (simp add: client_is_connection_dead_def)
next
  case (A_stream sql params bs)
  let ?v = "\<lparr>conn = inner (conn w), budget = budget w, next_arc = next_arc w\<rparr>"
  obtain q where q: "query_compat sql params (send_string_parameters_as_unicode (conn w)) = Some q"
    using run A_stream by (auto split: option.splits)
  obtain items v where v: "run_polls D L (qs_inner q) bs ?v = Some (items, v)"
    using run A_stream q by (auto split: option.splits)
  have w': "w' = w\<lparr>conn := (conn w)\<lparr>inner := conn v\<rparr>, next_arc := next_arc v\<rparr>"
    using run A_stream q v by simp
  from polls_stay_alive [OF assms(1) _ v] assms(2) show ?thesis
    by (simp add: w' client_is_connection_dead_def)
qed

lemma actions_stay_alive:
  assumes "keeps_alive D" and "\<not> client_is_connection_dead D (conn w)"
    and "run_actions D L acts w = Some (rs, w')"
    and "\<And>r. (A_call C_reset, r) \<in> set (zip acts rs) \<Longrightarrow> \<exists>v. r = R_call (Inr v)"
  shows "\<not> client_is_connection_dead D (conn w')"
  using assms(2-4)
proof (induction acts arbitrary: w rs)
  case (Cons act acts)
  then obtain r w1 rs' where r: "run_action D L act w = Some (r, w1)"
    and rest: "run_actions D L acts w1 = Some (rs', w')" and rs: "rs = r # rs'"
    by (auto split: option.splits)
  have "act = A_call C_reset \<Longrightarrow> \<exists>v. r = R_call (Inr v)" using Cons.prems(3) rs by simp
  with action_stays_alive [OF assms(1) Cons.prems(1) r] have "\<not> client_is_connection_dead D (conn w1)" by blast
  then show ?case using rest Cons.prems(3) by (rule Cons.IH) (simp add: rs)
qed simp

text \<open>C7: a client stays available. With a driver that does not lose its connection, whatever a
  caller does in sequence, calls that are all let return, successfully or with any error the
  server answers, and streams that are polled any number of times and then dropped between
  two polls, with rows unread or not, leaves a usable client, provided no \<open>reset_session\<close>
  among the calls failed: errors of queries, statements and preparations and abandoned
  streams never cost the connection.\<close>

theorem returning_calls_stay_available:
  assumes "keeps_alive D" and "\<not> client_is_connection_dead D (conn w)"
    and "run_actions D L acts w = Some (rs, w')"
    and "\<And>r. (A_call C_reset, r) \<in> set (zip acts rs) \<Longrightarrow> \<exists>v. r = R_call (Inr v)"
  shows "client_ensure_usable D (conn w') = Inr ()"
proof -
  have "\<not> client_is_connection_dead D (conn w')" by (rule actions_stay_alive [OF assms])
  then show ?thesis by (simp add: client_ensure_usable_def ensure_usable_def client_is_connection_dead_def)
qed

theorem returning_calls_stay_available_witness:
  "case run_actions (replay_driver sample_lib) sample_lib
       [A_call (C_simple_query ''x''), A_stream ''y'' [] [None], A_call C_reset]
       (sample_world None [[R_error (ProtocolError ''e'')], [R_rows [] [[W_null 0]] None], [R_norows None]]) of
     Some (rs, w') \<Rightarrow>
       length rs = 3 \<and> hd rs = R_call (Inl (Tds (ProtocolError ''e''))) \<and> last rs = R_call (Inr V_unit) \<and>
       client_ensure_usable (replay_driver sample_lib) (conn w') = Inr ()
   | None \<Rightarrow> False"
proof -
  let ?D = "replay_driver sample_lib"
  let ?w = "sample_world None [[R_error (ProtocolError ''e'')], [R_rows [] [[W_null 0]] None], [R_norows None]]"
  obtain items w' where w': "run_actions ?D sample_lib [A_call (C_simple_query ''x''), A_stream ''y'' [] [None], A_call C_reset] ?w =
      Some ([R_call (Inl (Tds (ProtocolError ''e''))), R_stream items, R_call (Inr V_unit)], w')"
    by (simp add: io_map_def simple_query_def reset_session_def client_ensure_usable_def io_new_arc_def io_sync_def
        query_compat_def query_stream_new_def stream_start_def yield_error_def stream_top_def stream_positioned_def
        new_schema_def
        sample_defs session_reset_scope_def reset_body_def replay_driver_def replay_request_def)
  have "\<not> client_is_connection_dead ?D (conn ?w)"
    by (simp add: client_is_connection_dead_def replay_driver_def sample_defs)
  from returning_calls_stay_available [OF replay_keeps_alive this w'] w' show ?thesis by simp
qed

end
