(* ===== verification/PrepareFlow.thy ===== *)
theory PrepareFlow
  imports Availability
begin

text \<open>
  A prepared statement from its preparation to its execution: what \<open>prepare\<close> makes of the
  server's reply to \<open>sp_prepare\<close>, and that executing the statement sends the handle the
  server gave.
\<close>

section \<open>Draining a reply without rows\<close>

text \<open>The reply to \<open>sp_prepare\<close>: statements without rows, possibly ended by an error.\<close>

definition rowless :: "u64 option list \<Rightarrow> tds_error option \<Rightarrow> reply list" where
  "rowless ns err = map R_norows ns @ (case err of None \<Rightarrow> [] | Some e \<Rightarrow> [R_error e])"

lemma script_to_rows_rowless:
  "fst (script_to_rows (rowless ns err)) = (case err of None \<Rightarrow> Inr False | Some e \<Rightarrow> Inl e)"
  by (induction ns) (auto simp: rowless_def split: option.splits)

lemma drain_rowless:
  assumes "follows_script D L S" and "budget w = None"
    and "S (conn w) = Some cur" and "cursor_rest cur = Some (rowless ns err)"
  obtains c where "drain_to_end D w =
    Some (Ret (case err of None \<Rightarrow> Inr () | Some e \<Rightarrow> Inl (Tds e)), w\<lparr>conn := c\<rparr>)"
proof -
  obtain c where "drv_advance_to_rows D (conn w) = (fst (script_to_rows (rowless ns err)), c)"
    using script_advance_to_rows [OF assms(1,3,4)] by blast
  from await_tds_unlimited [where f = "drv_advance_to_rows D", OF assms(2) this]
  have "drain_to_end D w = Some (Ret (case err of None \<Rightarrow> Inr () | Some e \<Rightarrow> Inl (Tds e)), w\<lparr>conn := c\<rparr>)"
    by (subst drain_to_end.simps) (simp add: io_try_def io_bind_def script_to_rows_rowless split: option.splits)
  with that show thesis .
qed

text \<open>Accepting the request consumes the first statement of its reply.\<close>

lemma script_advance_rowless:
  "case script_advance (rowless ns err) of
     (Inl e, cur) \<Rightarrow> ns = [] \<and> err = Some e
   | (Inr r, cur) \<Rightarrow> cursor_rest cur = Some (rowless (tl ns) err)"
  by (cases ns) (auto simp: rowless_def split: option.splits)

lemma prepared_prepare_script:
  assumes S: "follows_script D L S" and b: "budget w = None"
    and d: "parameter_declaration L types unicode = Some (Inr decl)"
    and req: "drv_execute_stored_procedure D ''sp_prepare'' (Some (prepare_parameters L decl sql)) None (conn w)
      = (fst (script_advance (rowless ns err)), c2)"
    and S2: "is_ok (fst (script_advance (rowless ns err))) \<longrightarrow> S c2 = Some (snd (script_advance (rowless ns err)))"
  obtains c where "prepared_prepare D L sql types unicode session w =
    Some (Ret (case err of
        None \<Rightarrow> prepared_from_returns (drv_get_return_values D c) sql session
      | Some e \<Rightarrow> Inl (Tds e)), w\<lparr>conn := c\<rparr>)"
proof -
  obtain r cur where sa: "script_advance (rowless ns err) = (r, cur)" by fastforce
  note aw = await_tds_unlimited [where f = "drv_execute_stored_procedure D ''sp_prepare''
        (Some (prepare_parameters L decl sql)) None", OF b req]
  show thesis
  proof (cases r)
    case (Inl e)
    with script_advance_rowless [of ns err] aw sa that [of c2] d show ?thesis
      by (simp add: prepared_prepare_def io_try_def io_bind_def)
  next
    case (Inr res)
    from script_advance_rowless [of ns err] sa Inr have rest: "cursor_rest cur = Some (rowless (tl ns) err)" by simp
    have w2: "budget (w\<lparr>conn := c2\<rparr>) = None" "S (conn (w\<lparr>conn := c2\<rparr>)) = Some cur"
      using b S2 sa Inr by simp_all
    obtain c where "drain_to_end D (w\<lparr>conn := c2\<rparr>) =
        Some (Ret (case err of None \<Rightarrow> Inr () | Some e \<Rightarrow> Inl (Tds e)), w\<lparr>conn := c2, conn := c\<rparr>)"
      by (rule drain_rowless [OF S w2 rest])
    with Inr aw sa d that [of c] show ?thesis
      by (cases err) (simp_all add: prepared_prepare_def io_try_def io_bind_def)
  qed
qed

lemma client_prepare_script:
  assumes S: "follows_script D L S" and b: "budget w = None"
    and d: "parameter_declaration L types (send_string_parameters_as_unicode (conn w)) = Some (Inr decl)"
    and a: "answers D S (drv_execute_stored_procedure D ''sp_prepare''
        (Some (prepare_parameters L decl sql)) None) (inner (conn w)) (rowless ns err)"
  obtains c where "client_prepare D L sql types w =
    Some (Ret (case err of
        None \<Rightarrow> prepared_from_returns (drv_get_return_values D c) sql (prepared_session (conn w))
      | Some e \<Rightarrow> Inl (Tds e)), w\<lparr>conn := (conn w)\<lparr>inner := c\<rparr>\<rparr>)"
proof -
  let ?v = "\<lparr>conn = inner (conn w), budget = budget w, next_arc = next_arc w\<rparr>"
  from a obtain c1 c2 where alive: "\<not> is_dead (drv_health D) (inner (conn w))"
    and c1: "drv_close_query D (inner (conn w)) = (Inr (), c1)"
    and c2: "drv_execute_stored_procedure D ''sp_prepare'' (Some (prepare_parameters L decl sql)) None c1
        = (fst (script_advance (rowless ns err)), c2)"
    and S2: "is_ok (fst (script_advance (rowless ns err))) \<longrightarrow> S c2 = Some (snd (script_advance (rowless ns err)))"
    unfolding answers_def by blast
  have aw: "await_tds D (drv_close_query D) ?v = Some (Ret (Inr ()), ?v\<lparr>conn := c1\<rparr>)"
    using await_tds_unlimited [where f = "drv_close_query D" and w = ?v and D = D] b c1 by simp
  have c2': "drv_execute_stored_procedure D ''sp_prepare'' (Some (prepare_parameters L decl sql)) None
      (conn (?v\<lparr>conn := c1\<rparr>)) = (fst (script_advance (rowless ns err)), c2)"
    using c2 by simp
  have b1: "budget (?v\<lparr>conn := c1\<rparr>) = None" using b by simp
  obtain c where "prepared_prepare D L sql types (send_string_parameters_as_unicode (conn w)) (prepared_session (conn w))
      (?v\<lparr>conn := c1\<rparr>) = Some (Ret (case err of
        None \<Rightarrow> prepared_from_returns (drv_get_return_values D c) sql (prepared_session (conn w))
      | Some e \<Rightarrow> Inl (Tds e)), ?v\<lparr>conn := c1, conn := c\<rparr>)"
    by (rule prepared_prepare_script [OF S b1 d c2' S2])
  with alive aw that [of c] show thesis
    by (simp add: client_prepare_def reading_def with_inner_def guarded_alive io_try_def io_bind_def)
qed

section \<open>From the handle to the execution\<close>

text \<open>The handle among the output parameters of \<open>sp_prepare\<close>.\<close>

definition output_handle :: "column_values list \<Rightarrow> tds_error + i32" where
  "output_handle vs =
     (if length vs \<noteq> 1 then Inl (ProtocolError ''sp_prepare did not return exactly one output parameter'')
      else case hd vs of
        CV_Int h \<Rightarrow> Inr h
      | _ \<Rightarrow> Inl (ProtocolError ''sp_prepare did not return an integer handle''))"

lemma prepared_from_output:
  "prepared_from_returns vs sql session =
     map_err Tds (map_ok (\<lambda>h. \<lparr>ps_handle = h, ps_sql = sql, ps_session = session\<rparr>) (output_handle vs))"
  by (auto simp: prepared_from_returns_def output_handle_def prepared_new_def
      split: list.splits column_values.splits)

text \<open>Preparing leaves the client usable, whatever the server answered.\<close>

lemma prepare_leaves_usable:
  assumes "keeps_alive D" and "\<not> is_dead (drv_health D) (inner (conn w))"
    and "client_prepare D L sql types w = Some (Ret r, w')"
  shows "client_ensure_usable D (conn w') = Inr ()"
proof -
  have "run_call D L (C_prepare sql types) w = Some (Ret (map_ok V_statement r), w')"
    using assms(3) by (simp add: io_map_def)
  from driver_invariant.call_kept [OF keeps_alive_invariant [OF assms(1)] assms(2) this]
  show ?thesis by (simp add: client_ensure_usable_def ensure_usable_def client_is_connection_dead_def)
qed

text \<open>C9: preparing a statement and executing it. When the server accepts \<open>sp_prepare\<close> with the
  declaration of the parameter types and the text, \<open>prepare\<close> returns the statement whose
  handle is the one integer the server output, in the client's session, and fails with the
  server's error or, for any other output, with the protocol error that says what is wrong
  with it. Whether it succeeds or fails, with a driver that does not lose its connection the
  client passes the check that every later operation starts with. Executing the returned
  statement on a connection that answers then sends \<open>sp_execute\<close> with exactly that handle
  and returns the reply to it.\<close>

theorem prepare_then_query:
  assumes "follows_script D L S" and "budget w = None"
    and "parameter_declaration L types (send_string_parameters_as_unicode (conn w)) = Some (Inr decl)"
    and "answers D S (drv_execute_stored_procedure D ''sp_prepare''
        (Some (prepare_parameters L decl sql)) None) (inner (conn w)) (rowless ns err)"
  shows "\<exists>c. let w' = w\<lparr>conn := (conn w)\<lparr>inner := c\<rparr>\<rparr> in
    client_prepare D L sql types w = Some (Ret (case err of
        Some e \<Rightarrow> Inl (Tds e)
      | None \<Rightarrow> map_err Tds (map_ok (\<lambda>h. \<lparr>ps_handle = h, ps_sql = sql, ps_session = prepared_session (conn w)\<rparr>)
            (output_handle (drv_get_return_values D c)))), w') \<and>
    (keeps_alive D \<longrightarrow> client_ensure_usable D (conn w') = Inr ()) \<and>
    (\<forall>h params rpc rs. drv_get_return_values D c = [CV_Int h] \<longrightarrow>
       prepared_params params (send_string_parameters_as_unicode (conn w)) = Some rpc \<longrightarrow>
       answers D S (drv_execute_stored_procedure D ''sp_execute''
           (Some [\<lparr>rp_name = None, rp_flags = FLAGS_NONE, rp_value = ST_Int (Some h)\<rparr>]) rpc) c rs \<longrightarrow>
       (\<exists>w''. query_prepared D L \<lparr>ps_handle = h, ps_sql = sql, ps_session = prepared_session (conn w)\<rparr> params w' =
          Some (Ret (map_err Tds (map_ok (\<lambda>ss. \<lparr>result_sets = ss\<rparr>) (reply_sets L (next_arc w) 0 rs))), w'')))"
proof -
  obtain c where c: "client_prepare D L sql types w =
    Some (Ret (case err of
        None \<Rightarrow> prepared_from_returns (drv_get_return_values D c) sql (prepared_session (conn w))
      | Some e \<Rightarrow> Inl (Tds e)), w\<lparr>conn := (conn w)\<lparr>inner := c\<rparr>\<rparr>)"
    by (rule client_prepare_script [OF assms])
  let ?w = "w\<lparr>conn := (conn w)\<lparr>inner := c\<rparr>\<rparr>"
  have query: "\<exists>w''. query_prepared D L \<lparr>ps_handle = h, ps_sql = sql, ps_session = prepared_session (conn w)\<rparr> params ?w =
      Some (Ret (map_err Tds (map_ok (\<lambda>ss. \<lparr>result_sets = ss\<rparr>) (reply_sets L (next_arc w) 0 rs))), w'')"
    if "prepared_params params (send_string_parameters_as_unicode (conn w)) = Some rpc"
      "answers D S (drv_execute_stored_procedure D ''sp_execute''
           (Some [\<lparr>rp_name = None, rp_flags = FLAGS_NONE, rp_value = ST_Int (Some h)\<rparr>]) rpc) c rs"
    for h params rpc rs
    using prepared_script [OF assms(1), of ?w "\<lparr>ps_handle = h, ps_sql = sql, ps_session = prepared_session (conn w)\<rparr>"
        params rpc rs] assms(2) that by simp
  from c have "client_prepare D L sql types w = Some (Ret (case err of
        Some e \<Rightarrow> Inl (Tds e)
      | None \<Rightarrow> map_err Tds (map_ok (\<lambda>h. \<lparr>ps_handle = h, ps_sql = sql, ps_session = prepared_session (conn w)\<rparr>)
            (output_handle (drv_get_return_values D c)))), ?w)"
    by (simp add: prepared_from_output split: option.splits)
  moreover have "client_ensure_usable D (conn ?w) = Inr ()" if "keeps_alive D"
    using prepare_leaves_usable [OF that _ c] assms(4) by (simp add: answers_def)
  ultimately show ?thesis using query unfolding Let_def by blast
qed

theorem prepare_then_query_witness:
  "let D = replay_driver sample_lib; st = \<lparr>ps_handle = 5, ps_sql = ''SELECT 1'', ps_session = 0\<rparr>;
       c0 = (replay_start [[], []])\<lparr>rp_returns := [CV_Int 5]\<rparr>;
       w = \<lparr>conn = \<lparr>inner = c0, send_string_parameters_as_unicode = True, prepared_session = 0\<rparr>,
            budget = None, next_arc = 1\<rparr>
   in \<exists>w' w''. client_prepare D sample_lib ''SELECT 1'' [] w = Some (Ret (Inr st), w') \<and>
        client_ensure_usable D (conn w') = Inr () \<and>
        query_prepared D sample_lib st [] w' = Some (Ret (Inr \<lparr>result_sets = []\<rparr>), w'')"
proof -
  let ?D = "replay_driver sample_lib"
  define w :: "replay client world" where
    "w = \<lparr>conn = \<lparr>inner = (replay_start [[], []])\<lparr>rp_returns := [CV_Int 5]\<rparr>,
      send_string_parameters_as_unicode = True, prepared_session = 0\<rparr>, budget = None, next_arc = 1\<rparr>"
  have w: "budget w = None" "prepared_session (conn w) = 0" "send_string_parameters_as_unicode (conn w)"
    by (simp_all add: w_def)
  have decl: "parameter_declaration sample_lib [] (send_string_parameters_as_unicode (conn w)) = Some (Inr [])"
    by (simp add: parameter_declaration_def)
  have ans: "answers ?D live_cursor (drv_execute_stored_procedure ?D ''sp_prepare''
      (Some (prepare_parameters sample_lib [] ''SELECT 1'')) None) (inner (conn w)) (rowless [] None)"
    by (simp add: w_def answers_def rowless_def replay_start_def replay_driver_def replay_request_def live_cursor_def)
  have drain: "drain_to_end ?D v = Some (Ret (Inr ()), v)"
    if "budget v = None" "rp_cursor (conn v) = Between []" for v
    using that by (subst drain_to_end.simps)
      (cases v, simp add: io_try_def io_bind_def await_tds_def replay_driver_def)
  have after: "\<exists>r c'. client_prepare ?D sample_lib ''SELECT 1'' [] w = Some (r, w\<lparr>conn := (conn w)\<lparr>inner := c'\<rparr>\<rparr>) \<and>
      rp_returns c' = [CV_Int 5] \<and> \<not> rp_dead c' \<and> rp_answers c' = [[]]"
    using drain
    by (simp add: w_def client_prepare_def reading_def prepared_prepare_def with_inner_def guarded_alive
        parameter_declaration_def
        io_try_def io_bind_def await_tds_def replay_driver_def replay_request_def replay_start_def)
  from prepare_then_query [OF replay_follows_script w(1) decl ans] obtain c where
    c: "client_prepare ?D sample_lib ''SELECT 1'' [] w =
        Some (Ret (map_err Tds (map_ok (\<lambda>h. \<lparr>ps_handle = h, ps_sql = ''SELECT 1'', ps_session = prepared_session (conn w)\<rparr>)
            (output_handle (drv_get_return_values ?D c)))), w\<lparr>conn := (conn w)\<lparr>inner := c\<rparr>\<rparr>)"
    and usable: "client_ensure_usable ?D (conn (w\<lparr>conn := (conn w)\<lparr>inner := c\<rparr>\<rparr>)) = Inr ()"
    and query: "\<And>h params rpc rs. drv_get_return_values ?D c = [CV_Int h] \<Longrightarrow>
       prepared_params params (send_string_parameters_as_unicode (conn w)) = Some rpc \<Longrightarrow>
       answers ?D live_cursor (drv_execute_stored_procedure ?D ''sp_execute''
           (Some [\<lparr>rp_name = None, rp_flags = FLAGS_NONE, rp_value = ST_Int (Some h)\<rparr>]) rpc) c rs \<Longrightarrow>
       \<exists>w''. query_prepared ?D sample_lib \<lparr>ps_handle = h, ps_sql = ''SELECT 1'', ps_session = prepared_session (conn w)\<rparr>
            params (w\<lparr>conn := (conn w)\<lparr>inner := c\<rparr>\<rparr>) =
          Some (Ret (map_err Tds (map_ok (\<lambda>ss. \<lparr>result_sets = ss\<rparr>) (reply_sets sample_lib (next_arc w) 0 rs))), w'')"
    unfolding Let_def option.case using replay_keeps_alive [of sample_lib] by blast
  from after c have "w\<lparr>conn := (conn w)\<lparr>inner := c\<rparr>\<rparr> = w\<lparr>conn := (conn w)\<lparr>inner := c'\<rparr>\<rparr> \<Longrightarrow> c = c'" for c'
    by (simp add: w_def)
  with after c have state: "rp_returns c = [CV_Int 5]" "\<not> rp_dead c" "rp_answers c = [[]]" by auto
  have returns: "drv_get_return_values ?D c = [CV_Int 5]" by (simp add: replay_driver_def state)
  have "answers ?D live_cursor (drv_execute_stored_procedure ?D ''sp_execute''
      (Some [\<lparr>rp_name = None, rp_flags = FLAGS_NONE, rp_value = ST_Int (Some 5)\<rparr>]) None) c []"
    by (simp add: answers_def replay_driver_def replay_request_def live_cursor_def state)
  from query [OF returns _ this, of "[]"] w(2) have "\<exists>w''. query_prepared ?D sample_lib
      \<lparr>ps_handle = 5, ps_sql = ''SELECT 1'', ps_session = 0\<rparr> [] (w\<lparr>conn := (conn w)\<lparr>inner := c\<rparr>\<rparr>) =
      Some (Ret (Inr \<lparr>result_sets = []\<rparr>), w'')"
    by (simp add: prepared_params_def)
  moreover have "client_prepare ?D sample_lib ''SELECT 1'' [] w =
      Some (Ret (Inr \<lparr>ps_handle = 5, ps_sql = ''SELECT 1'', ps_session = 0\<rparr>), w\<lparr>conn := (conn w)\<lparr>inner := c\<rparr>\<rparr>)"
    using c w(2) by (simp add: returns output_handle_def)
  moreover note usable
  ultimately show ?thesis unfolding Let_def w_def by blast
qed

end
