(* ===== verification/QueryFlow.thy ===== *)
theory QueryFlow
  imports StreamModel
begin

text \<open>
  The bound \<open>Query\<close> of \<open>compat.rs\<close> from its parameters to its results: starting it looks at
  the columns first, so it reports an early error itself, and the stream it hands out delivers
  what \<open>Client::query\<close> returns for the same text and parameters.
\<close>

text \<open>A finished generator stays finished.\<close>

definition ends_done :: "('c, (error + query_item) option \<times> stream_state) io \<Rightarrow> bool" where
  "ends_done m \<longleftrightarrow> (\<forall>w st w'. m w = Some (Ret (None, st), w') \<longrightarrow> st = S_done)"

lemma ends_doneD: "ends_done m \<Longrightarrow> m w = Some (Ret (None, st), w') \<Longrightarrow> st = S_done"
  unfolding ends_done_def by blast

lemma ends_done_if: "ends_done f \<Longrightarrow> ends_done g \<Longrightarrow> ends_done (if b then f else g)"
  by simp

lemma ends_done_ret [simp]: "ends_done (io_ret (None, S_done))" "ends_done (io_ret (Some x, st))"
  by (simp_all add: ends_done_def)

lemma ends_done_yield_error:
  assumes "\<And>a. ends_done (f a)"
  shows "ends_done (yield_error m f)"
proof -
  have "st = S_done" if run: "yield_error m f w = Some (Ret (None, st), w')" for w st w'
  proof -
    obtain x w1 where "(case x of Inl e \<Rightarrow> io_ret (Some (Inl e), S_done) | Inr a \<Rightarrow> f a) w1 = Some (Ret (None, st), w')"
      using run unfolding yield_error_def io_bind_Ret_conv by blast
    then show ?thesis by (cases x) (auto dest: ends_doneD [OF assms])
  qed
  then show ?thesis by (simp add: ends_done_def)
qed

lemma ends_done_stream_top: "ends_done (stream_top D index)"
proof -
  have "ends_done (io_bind (new_schema D) (\<lambda>s. io_ret (Some (f s), g s)))" for f g
    by (auto simp: ends_done_def io_bind_Ret_conv)
  then show ?thesis unfolding stream_top_def by (intro ends_done_yield_error ends_done_if ends_done_ret)
qed

lemma ends_done_poll: "ends_done (stream_poll D L st)"
proof (cases st)
  case (S_start sql rpc)
  then show ?thesis by (simp add: stream_start_def ends_done_yield_error ends_done_stream_top)
next
  case (S_rows index wr)
  show ?thesis
    unfolding S_rows stream_poll.simps(2) stream_next_row_def
    by (intro ends_done_yield_error ends_done_if ends_done_stream_top ends_done_ret)
next
  case S_done
  then show ?thesis by simp
qed

text \<open>What a stream still delivers when its columns were looked at.\<close>

lemma columns_lookahead_stream:
  assumes "delivers (stream_poll D L) s w xs"
  obtains r q w' where "qs_get_columns (stream_poll D L) (query_stream_new s) w = Some (Ret (r, q), w')"
    and "case xs of
       Inl e # ys \<Rightarrow> r = Inl e
     | _ \<Rightarrow> is_ok r \<and> delivers (qs_poll (stream_poll D L)) q w' xs"
proof (cases xs)
  case Nil
  with assms obtain s' w' where fin: "stream_poll D L s w = Some (Ret (None, s'), w')"
    by (auto elim: delivers_NilE)
  from ends_doneD [OF ends_done_poll fin] have [simp]: "s' = S_done" .
  let ?q = "(query_stream_new s)\<lparr>qs_inner := S_done\<rparr>"
  have "delivers (qs_poll (stream_poll D L)) ?q w' []"
    by (rule delivers.delivers_end [where s' = ?q])
      (simp add: qs_poll_def query_stream_new_def io_bind_def note_columns_def)
  moreover have "qs_get_columns (stream_poll D L) (query_stream_new s) w = Some (Ret (Inr None, ?q), w')"
    using fin by (simp add: qs_get_columns_def query_stream_new_def io_bind_def qs_columns_result_def Let_def)
  ultimately show thesis using Nil by (intro that [of "Inr None" ?q w']) simp_all
next
  case (Cons x ys)
  with columns_lookahead [OF assms] that show thesis by (cases x) (auto split: sum.splits)
qed

text \<open>C10: a bound query is the plain query. \<open>Query::query\<close> runs the text with the parameters in
  the order they were bound, each as the SQL value of its compat value; collecting the stream
  it hands out gives the result sets, or the error, that \<open>Client::query\<close> returns for the
  same text and parameters, although starting it already consumed the first item to look at
  the columns; and when that item is the server's error, starting it fails with the error
  \<open>Client::query\<close> returns.\<close>

theorem bound_query_equals_query:
  assumes "follows_script D L S" and "stays_alive D S" and "budget w = None"
    and "q = fold query_bind ps (query_new sql)"
    and "build_params_with_string_encoding (map (\<lambda>p. Some (column_data_to_sql L p)) ps)
           (send_string_parameters_as_unicode (conn w)) = Some rpc"
    and "answers D S (if ps = [] then drv_execute D sql else drv_execute_sp_executesql D sql rpc)
           (inner (conn w)) rs"
  shows "\<exists>r w1. query_query D L q w = Some (Ret r, w1) \<and>
    (\<exists>res w2. client_query D L sql (map (\<lambda>p. Some (column_data_to_sql L p)) ps) w = Some (Ret res, w2) \<and>
      (case r of
        Inl e \<Rightarrow> res = Inl e
      | Inr stream \<Rightarrow> \<exists>sets w3. with_inner (qs_into_results (stream_poll D L) stream) w1 = Some (Ret sets, w3) \<and>
          res = map_ok (\<lambda>ss. \<lparr>result_sets = ss\<rparr>) sets))"
proof -
  let ?params = "map (\<lambda>p. Some (column_data_to_sql L p)) ps"
  let ?w = "\<lparr>conn = inner (conn w), budget = budget w, next_arc = next_arc w\<rparr>"
  let ?sets = "reply_sets L (next_arc w) 0 rs"
  have "q_sql (fold query_bind ps q0) = q_sql q0 \<and> q_params (fold query_bind ps q0) = q_params q0 @ ps" for q0
    by (induction ps arbitrary: q0) (simp_all add: query_bind_def)
  then have q: "q_sql q = sql" "query_dyn_params L q = ?params"
    by (simp_all add: assms(4) query_new_def query_dyn_params_def)
  obtain x where stream: "query_compat sql ?params (send_string_parameters_as_unicode (conn w)) =
      Some (query_stream_new (S_start sql x))"
    and x: "answers D S (case x of None \<Rightarrow> drv_execute D sql | Some p \<Rightarrow> drv_execute_sp_executesql D sql p)
              (conn ?w) rs"
    using assms(5,6) by (cases "ps = []") (auto simp: query_compat_def)
  from fresh_stream_delivers [OF assms(1,2) _ x] assms(3)
  have del: "delivers (stream_poll D L) (S_start sql x) ?w (reply_items L (next_arc w) 0 rs)" by simp
  obtain r st v where cols: "qs_get_columns (stream_poll D L) (query_stream_new (S_start sql x)) ?w = Some (Ret (r, st), v)"
    and rest: "case reply_items L (next_arc w) 0 rs of
       Inl e # ys \<Rightarrow> r = Inl e
     | _ \<Rightarrow> is_ok r \<and> delivers (qs_poll (stream_poll D L)) st v (reply_items L (next_arc w) 0 rs)"
    by (rule columns_lookahead_stream [OF del])
  let ?w1 = "w\<lparr>conn := (conn w)\<lparr>inner := conn v\<rparr>, budget := budget v, next_arc := next_arc v\<rparr>"
  have run: "query_query D L q w = Some (Ret (case r of Inl e \<Rightarrow> Inl e | Inr _ \<Rightarrow> Inr st), ?w1)"
    by (simp add: query_query_def reading_def q stream with_inner_def io_bind_def cols)
  have "answers D S (if ?params = [] then drv_execute D sql else drv_execute_sp_executesql D sql rpc)
      (inner (conn w)) rs"
    using assms(6) by simp
  from client_query_script [OF assms(1,3,5) this] obtain w2 where
    client: "client_query D L sql ?params w =
      Some (Ret (map_err Tds (map_ok (\<lambda>ss. \<lparr>result_sets = ss\<rparr>) ?sets)), w2)" by blast
  have results: "results_of [] (reply_items L (next_arc w) 0 rs) = map_err Tds ?sets"
    by (cases ?sets) (simp_all add: results_of_reply_items)
  show ?thesis
  proof (cases r)
    case (Inl e)
    with rest have "?sets = Inl e' \<Longrightarrow> e = Tds e'" and "\<exists>e'. ?sets = Inl e'" for e'
      using results by (cases "reply_items L (next_arc w) 0 rs"; cases ?sets; auto split: sum.splits)+
    with Inl run client show ?thesis by auto
  next
    case (Inr c)
    with rest have "delivers (qs_poll (stream_poll D L)) st v (reply_items L (next_arc w) 0 rs)"
      by (auto split: list.splits sum.splits)
    from qs_collect_delivers [OF this, of "[]"] results
    obtain v' where "qs_collect (stream_poll D L) st [] v = Some (Ret (map_err Tds ?sets), v')" by auto
    then have "\<exists>w3. with_inner (qs_into_results (stream_poll D L) st) ?w1 = Some (Ret (map_err Tds ?sets), w3)"
      by (intro with_inner_Ret) (cases v, simp add: qs_into_results_def)
    moreover have "map_err Tds (map_ok (\<lambda>ss. \<lparr>result_sets = ss\<rparr>) ?sets) =
        map_ok (\<lambda>ss. \<lparr>result_sets = ss\<rparr>) (map_err Tds ?sets)"
      by (cases ?sets) simp_all
    ultimately show ?thesis using run client Inr by auto
  qed
qed

theorem bound_query_equals_query_witness:
  "\<exists>r w1. query_query (replay_driver sample_lib) sample_lib (query_bind (CD_I32 (Some 4)) (query_new ''SELECT @P1''))
      (sample_world None [[R_rows [] [[W_null 0]] None, R_error (ProtocolError ''e'')]]) = Some (Ret (Inr r), w1) \<and>
    (\<exists>w3. with_inner (qs_into_results (stream_poll (replay_driver sample_lib) sample_lib) r) w1 =
      Some (Ret (Inl (Tds (ProtocolError ''e''))), w3))"
proof -
  let ?D = "replay_driver sample_lib"
  let ?rs = "[R_rows [] [[W_null 0]] None, R_error (ProtocolError ''e'')]"
  let ?w = "sample_world None [?rs]"
  let ?q = "query_bind (CD_I32 (Some 4)) (query_new ''SELECT @P1'')"
  have q: "?q = fold query_bind [CD_I32 (Some 4)] (query_new ''SELECT @P1'')" by simp
  obtain rpc where rpc: "build_params_with_string_encoding (map (\<lambda>p. Some (column_data_to_sql sample_lib p)) [CD_I32 (Some 4)])
      (send_string_parameters_as_unicode (conn ?w)) = Some rpc"
    by (simp add: build_params_with_string_encoding_def)
  have b: "budget ?w = None" by (simp add: sample_world_def)
  have ans: "answers ?D live_cursor (if [CD_I32 (Some 4)] = [] then drv_execute ?D ''SELECT @P1''
      else drv_execute_sp_executesql ?D ''SELECT @P1'' rpc) (inner (conn ?w)) ?rs"
    by (simp add: answers_def sample_world_def sample_client_def replay_start_def replay_driver_def
        replay_request_def live_cursor_def)
  have client: "\<exists>w2. client_query ?D sample_lib ''SELECT @P1'' (map (\<lambda>p. Some (column_data_to_sql sample_lib p)) [CD_I32 (Some 4)]) ?w =
      Some (Ret (Inl (Tds (ProtocolError ''e''))), w2)"
    using client_query_script [OF replay_follows_script b rpc, where sql = "''SELECT @P1''" and rs = ?rs] ans by simp
  have ok: "\<exists>s w1. query_query ?D sample_lib ?q ?w = Some (Ret (Inr s), w1)"
    using rpc
    by (simp add: query_query_def reading_def query_compat_def query_dyn_params_def query_bind_def query_new_def
        query_stream_new_def qs_get_columns_def stream_start_def yield_error_def stream_top_def stream_positioned_def
        new_schema_def io_new_arc_def Let_def sample_defs replay_driver_def replay_request_def)
  have err: "Inl e = map_ok f x \<longleftrightarrow> x = Inl e" for e :: error and f :: "row list list \<Rightarrow> query_result" and x
    by (cases x) auto
  from bound_query_equals_query [OF replay_follows_script replay_stays_alive b q rpc ans] client ok
  show ?thesis by (auto simp: Let_def err)
qed

end
