(* ===== verification/BulkFlow.thy ===== *)
theory BulkFlow
  imports ArrowModel
begin

text \<open>
  A bulk load from its rows to the values that reach the driver's bulk copy: what the rows of
  an incremental request (\<open>bulk.rs\<close>) and of Arrow batches (\<open>bulk_arrow.rs\<close>) write, which rows
  the driver is handed, and what the load returns. The driver's bulk copy is an arbitrary
  function of its parameters, the rows and the connection; nothing is assumed of it.
\<close>

section \<open>Handing rows over\<close>

lemma bulk_send_result:
  assumes "budget w = None" and "\<not> is_dead (drv_health D) (conn w)"
  shows "bulk_send D engine b rows w =
    Some (Ret (map_err Tds (fst (engine (bulk_copy_of b) rows (conn w)))),
      w\<lparr>conn := snd (engine (bulk_copy_of b) rows (conn w))\<rparr>)"
proof -
  obtain r c' where run: "engine (bulk_copy_of b) rows (conn w) = (r, c')" by fastforce
  with await_tds_unlimited [where f = "engine (bulk_copy_of b) rows", OF assms(1) run] assms(2) show ?thesis
    by (simp add: bulk_send_def guarded_alive)
qed

section \<open>What a row writes\<close>

text \<open>A writer that records each value with its column index, and refuses every index from
  \<open>stop\<close> on with the error \<open>e\<close>.\<close>

definition packet_writer ::
    "nat \<Rightarrow> tds_error \<Rightarrow> nat \<Rightarrow> column_values \<Rightarrow> (nat \<times> column_values) list
       \<Rightarrow> (tds_error + unit) \<times> (nat \<times> column_values) list" where
  "packet_writer stop e i v written =
     (if i < stop then (Inr (), written @ [(i, v)]) else (Inl e, written))"

lemma packet_writer_takes:
  "i < stop \<Longrightarrow> packet_writer stop e i v w = (Inr (), w @ [(i, v)])"
  "\<not> i < stop \<Longrightarrow> packet_writer stop e i v w = (Inl e, w)"
  by (simp_all add: packet_writer_def)

text \<open>What a row of the given cells should do with it from column \<open>k\<close> on, when the writer takes
  \<open>n\<close> values: number the converted values in order, stop at the first value that is refused
  or does not convert, and report that error.\<close>

definition packet_result ::
    "tds_lib \<Rightarrow> nat \<Rightarrow> tds_error \<Rightarrow> (error + column_values) list \<Rightarrow> nat
       \<Rightarrow> (tds_error + unit) \<times> nat \<times> (nat \<times> column_values) list" where
  "packet_result L n e convs k =
     (let vs = map projr (takeWhile is_ok convs) in
      if n < length vs then (Inl e, k + n, enumerate k (take n vs))
      else ((case dropWhile is_ok convs of [] \<Rightarrow> Inr () | c # _ \<Rightarrow> Inl (UsageError (error_display L (projl c)))),
            k + length vs, enumerate k vs))"

text \<open>The contract of \<open>write_to_packet\<close>, for a row whose cells convert to the results
  \<open>convs\<close>: one step per cell, or the end.\<close>

locale packet_row =
  fixes L :: tds_lib
    and convs :: "'r list \<Rightarrow> (error + column_values) list"
    and put_row :: "(nat \<Rightarrow> column_values \<Rightarrow> (nat \<times> column_values) list \<Rightarrow> (tds_error + unit) \<times> (nat \<times> column_values) list)
       \<Rightarrow> 'r list \<Rightarrow> nat \<Rightarrow> (nat \<times> column_values) list \<Rightarrow> (tds_error + unit) \<times> nat \<times> (nat \<times> column_values) list"
  assumes write_end: "put_row wcv [] k w = (Inr (), k, w)" "convs [] = []"
    and write_step: "\<exists>c. convs (r # rs) = c # convs rs \<and>
      put_row wcv (r # rs) k w =
        (case c of
           Inl e \<Rightarrow> (Inl (UsageError (error_display L e)), k, w)
         | Inr v \<Rightarrow> (case wcv k v w of (Inl e, w') \<Rightarrow> (Inl e, k, w') | (Inr _, w') \<Rightarrow> put_row wcv rs (Suc k) w'))"
begin

lemma written:
  "put_row (packet_writer (k + n) e) rs k w =
     map_prod id (map_prod id (\<lambda>new. w @ new)) (packet_result L n e (convs rs) k)"
proof (induction rs arbitrary: k n w)
  case Nil
  show ?case by (simp add: write_end packet_result_def)
next
  case (Cons r rs)
  obtain c where c: "convs (r # rs) = c # convs rs" and step: "put_row (packet_writer (k + n) e) (r # rs) k w =
        (case c of
           Inl e \<Rightarrow> (Inl (UsageError (error_display L e)), k, w)
         | Inr v \<Rightarrow> (case packet_writer (k + n) e k v w of
             (Inl e, w') \<Rightarrow> (Inl e, k, w')
           | (Inr _, w') \<Rightarrow> put_row (packet_writer (k + n) e) rs (Suc k) w'))"
    using write_step by blast
  show ?case
  proof (cases c)
    case (Inl e)
    with c step show ?thesis by (simp add: packet_result_def)
  next
    case (Inr v)
    show ?thesis
    proof (cases n)
      case 0
      with Inr c step show ?thesis by (simp add: packet_result_def packet_writer_takes)
    next
      case (Suc m)
      with Cons.IH [of "Suc k" m "w @ [(k, v)]"] Inr c step show ?thesis
        by (simp add: packet_result_def packet_writer_takes Let_def split: list.split)
    qed
  qed
qed

lemma written_fresh:
  "put_row (packet_writer (k + n) e) rs k [] = packet_result L n e (convs rs) k"
  by (cases "packet_result L n e (convs rs) k") (simp add: written)

end


interpretation arrow_packet: packet_row L "map (\<lambda>a. arrow_value_to_column_value L F a idx)"
    "\<lambda>wcv arrays. arrow_write_columns L F wcv arrays idx" for L F idx
  by unfold_locales (simp_all split: sum.split prod.split)

section \<open>The incremental request\<close>




section \<open>Arrow batches\<close>

text \<open>A cell and the value the bridge's own readers find in what it was converted to.\<close>

fun reads_as :: "tds_lib \<Rightarrow> chrono_lib \<Rightarrow> arrow_cell \<Rightarrow> column_values \<Rightarrow> bool" where
  "reads_as L C (AC_Boolean b) v \<longleftrightarrow> from_sql_bool v = Some b"
| "reads_as L C (AC_Int8 i) v \<longleftrightarrow> map_option sint (from_sql_i16 v) = Some (sint i)"
| "reads_as L C (AC_Int16 i) v \<longleftrightarrow> from_sql_i16 v = Some i"
| "reads_as L C (AC_Int32 i) v \<longleftrightarrow> from_sql_i32 v = Some i"
| "reads_as L C (AC_Int64 i) v \<longleftrightarrow> from_sql_i64 v = Some i"
| "reads_as L C (AC_UInt8 i) v \<longleftrightarrow> from_sql_u8 v = Some i"
| "reads_as L C (AC_UInt16 i) v \<longleftrightarrow> map_option sint (from_sql_i32 v) = Some (uint i)"
| "reads_as L C (AC_UInt32 i) v \<longleftrightarrow> map_option sint (from_sql_i64 v) = Some (uint i)"
| "reads_as L C (AC_Float32 x) v \<longleftrightarrow> from_sql_f32 v = Some x"
| "reads_as L C (AC_Float64 x) v \<longleftrightarrow> from_sql_f64 v = Some x"
| "reads_as L C (AC_Utf8 s) v \<longleftrightarrow> from_sql_string L v = Some s"
| "reads_as L C (AC_LargeUtf8 s) v \<longleftrightarrow> from_sql_string L v = Some s"
| "reads_as L C (AC_Binary b) v \<longleftrightarrow> from_sql_bytes v = Some b"
| "reads_as L C (AC_LargeBinary b) v \<longleftrightarrow> from_sql_bytes v = Some b"
| "reads_as L C (AC_FixedSizeBinary b) v \<longleftrightarrow> from_sql_bytes v = Some b"
| "reads_as L C (AC_Date32 d) v \<longleftrightarrow>
     from_sql_naive_date C v = Some (NaiveDate (word_of_int (sint d + 719163)))"
| "reads_as L C _ v \<longleftrightarrow> False"

text \<open>The cells it covers: those of the array's type, all types but times, timestamps and decimals,
  and dates of SQL Server's range.\<close>

fun plain_cell :: "arrow_type \<Rightarrow> arrow_cell \<Rightarrow> bool" where
  "plain_cell t (AC_Boolean _) \<longleftrightarrow> t = A_Boolean"
| "plain_cell t (AC_Int8 _) \<longleftrightarrow> t = A_Int8"
| "plain_cell t (AC_Int16 _) \<longleftrightarrow> t = A_Int16"
| "plain_cell t (AC_Int32 _) \<longleftrightarrow> t = A_Int32"
| "plain_cell t (AC_Int64 _) \<longleftrightarrow> t = A_Int64"
| "plain_cell t (AC_UInt8 _) \<longleftrightarrow> t = A_UInt8"
| "plain_cell t (AC_UInt16 _) \<longleftrightarrow> t = A_UInt16"
| "plain_cell t (AC_UInt32 _) \<longleftrightarrow> t = A_UInt32"
| "plain_cell t (AC_Float32 _) \<longleftrightarrow> t = A_Float32"
| "plain_cell t (AC_Float64 _) \<longleftrightarrow> t = A_Float64"
| "plain_cell t (AC_Utf8 _) \<longleftrightarrow> t = A_Utf8"
| "plain_cell t (AC_LargeUtf8 _) \<longleftrightarrow> t = A_LargeUtf8"
| "plain_cell t (AC_Binary _) \<longleftrightarrow> t = A_Binary"
| "plain_cell t (AC_LargeBinary _) \<longleftrightarrow> t = A_LargeBinary"
| "plain_cell t (AC_FixedSizeBinary _) \<longleftrightarrow> (case t of A_FixedSizeBinary _ \<Rightarrow> True | _ \<Rightarrow> False)"
| "plain_cell t (AC_Date32 d) \<longleftrightarrow>
     t = A_Date32 \<and> 0 \<le> sint d + 719162 \<and> sint d + 719162 \<le> 3652058"
| "plain_cell t _ \<longleftrightarrow> False"

lemma arrow_date32_reads:
  assumes "date_create_law L" and "chrono_days_law C" and "arrow_date32 L d = Inr v"
  shows "from_sql_naive_date C v = Some (NaiveDate (word_of_int (sint d + 719163)))"
proof -
  let ?n = "sint d + 719162"
  have n: "0 \<le> ?n" "fits_signed 32 ?n" and v: "map_ok CV_Date (map_err Tds (date_create L (word_of_int ?n))) = Inr v"
    using assms(3) by (auto simp: arrow_date32_def ARROW_EPOCH_OFFSET_DAYS_def Let_def split: if_splits)
  define k :: u32 where "k = word_of_int ?n"
  have k: "uint k = ?n"
    unfolding k_def by (rule uint_of_fitting) (use n in \<open>simp add: fits_signed_def fits_unsigned_def\<close>)
  from v have ok: "unat k \<le> 3652058" "v = CV_Date (SqlDate k)"
    using assms(1) [unfolded date_create_law_def, rule_format, of k] unfolding k_def [symmetric]
    by (auto split: if_splits)
  then have le: "?n \<le> 3652058" using k by (simp add: unat_eq_nat_uint)
  have w: "(ucast k + 1 :: i32) = word_of_int (?n + 1)"
    by (simp add: k_def ucast_eq k [unfolded k_def])
  have "sint (word_of_int (?n + 1) :: i32) = ?n + 1"
    by (rule sint_of_fitting) (use n le in \<open>simp add: fits_signed_def\<close>)
  with n le assms(2) have "from_num_days_from_ce_opt C (word_of_int (?n + 1)) = Some (NaiveDate (word_of_int (?n + 1)))"
    unfolding chrono_days_law_def by simp
  moreover have "?n + 1 = sint d + 719163" by simp
  ultimately have "from_num_days_from_ce_opt C (ucast k + 1) = Some (NaiveDate (word_of_int (sint d + 719163)))"
    unfolding w by (simp only:)
  then show ?thesis by (simp only: from_sql_naive_date_def ok column_values.case sql_date.sel)
qed

lemma arrow_date32_converts:
  assumes "date_create_law L" and "0 \<le> sint d + 719162" and "sint d + 719162 \<le> 3652058"
  shows "\<exists>v. arrow_date32 L d = Inr v"
proof -
  let ?n = "sint d + 719162"
  have "uint (word_of_int ?n :: u32) = ?n"
    by (rule uint_of_fitting) (use assms(2,3) in \<open>simp add: fits_unsigned_def\<close>)
  then have "unat (word_of_int ?n :: u32) \<le> 3652058" using assms(2,3) by (simp add: unat_eq_nat_uint)
  then have "date_create L (word_of_int ?n) = Inr (SqlDate (word_of_int ?n))"
    using assms(1) unfolding date_create_law_def by metis
  moreover have "fits_signed 32 ?n" using assms(2,3) by (simp add: fits_signed_def)
  ultimately show ?thesis using assms(2) by (simp add: arrow_date32_def ARROW_EPOCH_OFFSET_DAYS_def)
qed

lemma arrow_value_reads:
  assumes laws: "string_codec_law L" "date_create_law L" "chrono_days_law C" and "plain_cell t cell"
  shows "\<exists>v. arrow_value L F t cell = Inr v \<and> reads_as L C cell v"
proof (cases cell)
  case (AC_Date32 d)
  with assms(4) arrow_date32_converts [OF laws(2), of d] obtain v where "arrow_date32 L d = Inr v" by auto
  with arrow_date32_reads [OF laws(2,3) this] AC_Date32 assms(4) show ?thesis by (simp add: arrow_value_def)
next
  case (AC_FixedSizeBinary x)
  with assms(4) show ?thesis by (cases t) (simp_all add: arrow_value_def)
qed (use assms in \<open>simp_all add: arrow_value_def string_codec_law_def sint_ucast_wider sint_scast_wider\<close>)

definition plain_batch :: "record_batch \<Rightarrow> bool" where
  "plain_batch bt \<longleftrightarrow> (\<forall>a\<in>set (rb_columns bt). length (aa_cells a) = rb_num_rows bt \<and>
     (\<forall>c\<in>set (aa_cells a). case c of Some x \<Rightarrow> plain_cell (aa_type a) x | None \<Rightarrow> False))"

lemma plain_batch_cell:
  assumes "plain_batch bt" and "a \<in> set (rb_columns bt)" and "i < rb_num_rows bt"
  shows "i < length (aa_cells a) \<and> (\<exists>x. aa_cells a ! i = Some x \<and> plain_cell (aa_type a) x)"
proof -
  have len: "i < length (aa_cells a)" using assms by (simp add: plain_batch_def)
  have "case aa_cells a ! i of Some x \<Rightarrow> plain_cell (aa_type a) x | None \<Rightarrow> False"
    using assms(1,2) nth_mem [OF len] unfolding plain_batch_def by blast
  with len show ?thesis by (simp split: option.splits)
qed

text \<open>A whole row of such cells.\<close>

lemma arrow_row_reads:
  assumes laws: "string_codec_law L" "date_create_law L" "chrono_days_law C"
    and cells: "\<And>a. a \<in> set arrays \<Longrightarrow> i < length (aa_cells a) \<and> (\<exists>x. aa_cells a ! i = Some x \<and> plain_cell (aa_type a) x)"
  shows "\<exists>vs. map (\<lambda>a. arrow_value_to_column_value L F a i) arrays = map Inr vs \<and>
    list_all2 (\<lambda>a v. reads_as L C (the (aa_cells a ! i)) v) arrays vs"
  using cells
proof (induction arrays)
  case (Cons a arrays)
  from Cons.prems [of a] obtain x where x: "i < length (aa_cells a)" "aa_cells a ! i = Some x" "plain_cell (aa_type a) x"
    by auto
  with arrow_value_reads [OF laws x(3), of F] obtain v where
    v: "arrow_value_to_column_value L F a i = Inr v" "reads_as L C x v"
    by (auto simp: arrow_value_to_column_value_def)
  from Cons obtain vs where "map (\<lambda>a. arrow_value_to_column_value L F a i) arrays = map Inr vs"
    "list_all2 (\<lambda>a v. reads_as L C (the (aa_cells a ! i)) v) arrays vs" by auto
  with v x(2) show ?case by (intro exI [of _ "v # vs"]) simp
qed simp

text \<open>C22: what a bulk load of Arrow batches hands to the driver. On a usable client whose caller
  polls to the end, the driver's bulk copy is started once, with one row for every row index
  of every batch, batch after batch and in index order, and its answer is the load's. When
  every cell of a batch is present and is a boolean, integer, float, text or binary value or a
  date of SQL Server's range in an array of its type, each row of the batch converts and writes
  itself, from column \<open>k\<close> on, as one value per column of the batch numbered \<open>k\<close>, \<open>k + 1\<close> and so
  on (up to the first one the writer refuses), and each value is one that the bridge's own
  reader of the type reads back as the cell in that column and row. No claim is made of null
  cells.\<close>

theorem arrow_batches_delivered:
  assumes "budget w = None" and "\<not> is_dead (drv_health D) (conn w)"
    and "string_codec_law L" and "date_create_law L" and "chrono_days_law C"
  shows "(let rows = concat (map (\<lambda>bt. map (\<lambda>i. \<lparr>ab_batch = bt, ab_row_idx = i\<rparr>) [0..<rb_num_rows bt]) batches);
              answer = engine (bulk_copy_of b) rows (conn w)
          in send_arrow_batches D engine b batches w =
               Some (Ret (map_err Tds (fst answer)), w\<lparr>conn := snd answer\<rparr>)) \<and>
    (\<forall>bt\<in>set batches. \<forall>i<rb_num_rows bt. plain_batch bt \<longrightarrow> (\<exists>vs.
       list_all2 (\<lambda>a v. reads_as L C (the (aa_cells a ! i)) v) (rb_columns bt) vs \<and>
       (\<forall>k n e. arrow_write_to_packet L F (packet_writer (k + n) e) \<lparr>ab_batch = bt, ab_row_idx = i\<rparr> k [] =
          (if n < length vs then (Inl e, k + n, enumerate k (take n vs))
           else (Inr (), k + length vs, enumerate k vs)))))"
proof (intro conjI ballI allI impI)
  show "let rows = concat (map (\<lambda>bt. map (\<lambda>i. \<lparr>ab_batch = bt, ab_row_idx = i\<rparr>) [0..<rb_num_rows bt]) batches);
              answer = engine (bulk_copy_of b) rows (conn w)
          in send_arrow_batches D engine b batches w =
               Some (Ret (map_err Tds (fst answer)), w\<lparr>conn := snd answer\<rparr>)"
    by (simp add: send_arrow_batches_def arrow_rows_def Let_def bulk_send_result [OF assms(1,2)])
  fix bt i
  assume i: "i < rb_num_rows bt" and plain: "plain_batch bt"
  note cells = plain_batch_cell [OF plain _ i]
  obtain vs where vs: "map (\<lambda>a. arrow_value_to_column_value L F a i) (rb_columns bt) = map Inr vs"
    and reads: "list_all2 (\<lambda>a v. reads_as L C (the (aa_cells a ! i)) v) (rb_columns bt) vs"
    using arrow_row_reads [OF assms(3-5) cells] by blast
  have ok: "takeWhile is_ok (map Inr us) = map Inr us" "dropWhile is_ok (map Inr us) = []"
    for us :: "column_values list" by (induction us) simp_all
  have "arrow_write_to_packet L F (packet_writer (k + n) e) \<lparr>ab_batch = bt, ab_row_idx = i\<rparr> k [] =
          (if n < length vs then (Inl e, k + n, enumerate k (take n vs))
           else (Inr (), k + length vs, enumerate k vs))" for k n e
    by (simp add: arrow_write_to_packet_def arrow_packet.written_fresh vs packet_result_def Let_def ok comp_def)
  with reads show "\<exists>vs. list_all2 (\<lambda>a v. reads_as L C (the (aa_cells a ! i)) v) (rb_columns bt) vs \<and>
       (\<forall>k n e. arrow_write_to_packet L F (packet_writer (k + n) e) \<lparr>ab_batch = bt, ab_row_idx = i\<rparr> k [] =
          (if n < length vs then (Inl e, k + n, enumerate k (take n vs))
           else (Inr (), k + length vs, enumerate k vs)))"
    by blast
qed

theorem arrow_batches_delivered_witness:
  "let batch = \<lparr>rb_columns = [\<lparr>aa_type = A_Int8, aa_cells = [Some (AC_Int8 (- 5)), Some (AC_Int8 7)]\<rparr>], rb_num_rows = 2\<rparr>;
       engine = (\<lambda>bc rows c. (Inr \<lparr>bcr_rows_affected = word_of_nat (length rows)\<rparr>, c))
   in (\<exists>w'. send_arrow_batches (replay_driver sample_lib) engine
        (bulk_insert_new sample_bulk_options ''t'') [batch] \<lparr>conn = replay_start [], budget = None, next_arc = 0\<rparr> =
      Some (Ret (Inr \<lparr>bcr_rows_affected = 2\<rparr>), w')) \<and>
      (\<exists>v. arrow_write_to_packet sample_lib sample_arrow_fmt (packet_writer (5 + 1) (ProtocolError ''full'')) \<lparr>ab_batch = batch, ab_row_idx = 1\<rparr> 5 [] =
        (Inr (), 6, [(5, v)]) \<and> reads_as sample_lib sample_chrono (AC_Int8 7) v)"
proof -
  let ?batch = "\<lparr>rb_columns = [\<lparr>aa_type = A_Int8, aa_cells = [Some (AC_Int8 (- 5)), Some (AC_Int8 7)]\<rparr>], rb_num_rows = 2\<rparr>"
  let ?engine = "\<lambda>bc rows c. (Inr \<lparr>bcr_rows_affected = word_of_nat (length rows)\<rparr>, c)"
  let ?w = "\<lparr>conn = replay_start [], budget = None, next_arc = 0\<rparr>"
  have w: "budget ?w = None" "\<not> is_dead (drv_health (replay_driver sample_lib)) (conn ?w)"
    by (simp_all add: replay_driver_def replay_start_def)
  have laws: "string_codec_law sample_lib" "date_create_law sample_lib" by simp_all
  note C22 = arrow_batches_delivered [OF w laws sample_chrono_laws(1), of "[?batch]" ?engine
      "bulk_insert_new sample_bulk_options ''t''" sample_arrow_fmt]
  have "plain_batch ?batch" by (simp add: plain_batch_def)
  with C22 [THEN conjunct2, rule_format, of ?batch 1] obtain vs where
    vs: "list_all2 (\<lambda>a v. reads_as sample_lib sample_chrono (the (aa_cells a ! 1)) v) (rb_columns ?batch) vs"
    and "\<And>k n e. arrow_write_to_packet sample_lib sample_arrow_fmt (packet_writer (k + n) e) \<lparr>ab_batch = ?batch, ab_row_idx = 1\<rparr> k [] =
          (if n < length vs then (Inl e, k + n, enumerate k (take n vs))
           else (Inr (), k + length vs, enumerate k vs))"
    by auto
  note row = this(2) [of 5 1 "ProtocolError ''full''"]
  from vs obtain v where v: "vs = [v]" "reads_as sample_lib sample_chrono (AC_Int8 7) v"
    by (auto simp: list_all2_Cons1 simp del: reads_as.simps)
  then have "\<exists>v. arrow_write_to_packet sample_lib sample_arrow_fmt (packet_writer (5 + 1) (ProtocolError ''full'')) \<lparr>ab_batch = ?batch, ab_row_idx = 1\<rparr> 5 [] =
        (Inr (), 6, [(5, v)]) \<and> reads_as sample_lib sample_chrono (AC_Int8 7) v"
    unfolding row by (intro exI [of _ v]) (simp del: reads_as.simps)
  with C22 [THEN conjunct1] show ?thesis by (simp add: Let_def del: reads_as.simps)
qed

end
