(* ===== verification/Sessions.thy ===== *)
theory Sessions
  imports PoolModel "HOL-Library.Multiset"
begin

text \<open>
  Several clients of one process, interleaved in any order: connecting, any client operation
  with any result (errors, cancellations and panics included), anything done to the driver's
  connection behind the client's back (\<open>inner_mut\<close>, streams, bulk copies), dropping prepared
  statements and disconnecting. The relation is over the operations of \<open>ClientModel\<close> as they
  are. A session identity is the address of an \<open>Arc\<close>, and an address is used again as soon as
  no client and no statement holds it; the state adds, as history, the statements each client
  prepared since it connected and since its last reset.
\<close>

section \<open>What an operation does to the session\<close>

definition keeps_session :: "('c client, 'a) io \<Rightarrow> bool" where
  "keeps_session m \<longleftrightarrow>
     (\<forall>w r w'. m w = Some (r, w') \<longrightarrow> prepared_session (conn w') = prepared_session (conn w))"

lemma keeps_session_with_inner: "keeps_session (with_inner m)"
  by (auto simp: keeps_session_def with_inner_Some)

lemma keeps_session_statement: "keeps_session m \<Longrightarrow> keeps_session (with_statement D stmt m)"
  unfolding keeps_session_def by (auto elim!: with_statement_cases)

lemma keeps_session_reading: "(\<And>x. keeps_session (f x)) \<Longrightarrow> keeps_session (reading g f)"
  by (simp add: keeps_session_def reading_def)

lemma keeps_session_panic: "keeps_session io_panic"
  by (simp add: keeps_session_def io_panic_def)

lemma keeps_session_ops:
  "keeps_session (simple_query D L sql)" "keeps_session (client_query D L sql params)"
  "keeps_session (client_execute D sql params)" "keeps_session (client_prepare D L sql params)"
  "keeps_session (query_prepared D L stmt params)" "keeps_session (execute_prepared D stmt params)"
  "keeps_session (unprepare D stmt)" "keeps_session (ping D)"
  unfolding simple_query_def client_query_def client_execute_def client_prepare_def query_prepared_def
    execute_prepared_def unprepare_def
  by (auto split: option.splits
      intro!: keeps_session_reading keeps_session_statement keeps_session_with_inner keeps_session_panic)
    (simp add: ping_def [abs_def] keeps_session_def)

lemma keeps_session_map: "keeps_session m \<Longrightarrow> keeps_session (io_map f m)"
  unfolding keeps_session_def by (metis io_map_Some)

lemma run_call_keeps_session: "call \<noteq> C_reset \<Longrightarrow> keeps_session (run_call D L call)"
  by (cases call) (simp_all add: keeps_session_map keeps_session_ops)

text \<open>The reset allocates the new identity first, and frees no address by running.\<close>

lemma reset_body_arcs:
  assumes "reset_body D w = Some (r, w')"
  shows "next_arc w' = next_arc w"
proof -
  have tds: "next_arc w' = next_arc w" if "await_tds D f w = Some (r, w')" for f w r w'
    using that by (auto simp: await_tds_def io_await_def split: option.splits nat.splits prod.splits)
  from assms show ?thesis
    by (auto simp: reset_body_def io_try_def io_bind_def io_sync_def dest!: tds
        split: option.splits outcome.splits sum.splits prod.splits)
qed

text \<open>A reset is a call of \<open>reset_session\<close> on a client that is usable, whether it completes, fails
  or is interrupted. Every other call keeps the session, a reset takes the address it
  allocates.\<close>

definition resets :: "'c driver \<Rightarrow> client_call \<Rightarrow> 'c client \<Rightarrow> bool" where
  "resets D call c \<longleftrightarrow> call = C_reset \<and> \<not> client_is_connection_dead D c"

lemma run_call_session:
  assumes "run_call D L call w = Some (r, w')"
  obtains (kept) "\<not> resets D call (conn w)" "prepared_session (conn w') = prepared_session (conn w)"
  | (fresh) "resets D call (conn w)" "prepared_session (conn w') \<in> {next_arc w..<next_arc w'}"
proof (cases "call = C_reset")
  case True
  with assms obtain r' where "reset_session D w = Some (r', w')" by (auto simp: io_map_Some)
  then show thesis
  proof (cases rule: reset_session_cases)
    case rejected
    then show thesis by (intro kept) (simp_all add: resets_def)
  next
    case (ran v)
    with True reset_body_arcs [OF ran(2)] show thesis by (intro fresh) (simp_all add: resets_def)
  qed
next
  case False
  with run_call_keeps_session [of call D L] assms show thesis
    by (intro kept) (simp_all add: keeps_session_def resets_def)
qed

lemma prepare_session:
  assumes "client_prepare D L sql params w = Some (Ret (Inr stmt), w')"
  shows "ps_session stmt = prepared_session (conn w)"
proof -
  have returns: "prepared_from_returns vs sql session = Inr stmt \<Longrightarrow> ps_session stmt = session" for vs session
    by (auto simp: prepared_from_returns_def prepared_new_def split: list.splits column_values.splits)
  have inner: "prepared_prepare D L sql params u session v = Some (Ret (Inr stmt), v') \<Longrightarrow> ps_session stmt = session"
    for u session v v'
    by (auto simp: prepared_prepare_def io_try_Inr_conv io_panic_def split: option.splits sum.splits
        dest!: returns)
  from assms show ?thesis
    by (auto simp: client_prepare_def reading_def with_inner_Some io_try_Inr_conv elim!: guarded_cases dest!: inner)
qed

section \<open>The system\<close>

record 'c system =
  sys_clients :: "nat \<Rightarrow> 'c client option"
  sys_statements :: "prepared_statement multiset"
  sys_issued :: "nat \<Rightarrow> prepared_statement set"

text \<open>The addresses that are held: \<open>Arc::new\<close> returns any other.\<close>

definition live_sessions :: "'c system \<Rightarrow> nat set" where
  "live_sessions s =
     {prepared_session c |i c. sys_clients s i = Some c} \<union> ps_session ` set_mset (sys_statements s)"

lemma live_sessionsI:
  "sys_clients s i = Some c \<Longrightarrow> prepared_session c \<in> live_sessions s"
  "st \<in># sys_statements s \<Longrightarrow> ps_session st \<in> live_sessions s"
  by (auto simp: live_sessions_def)

text \<open>Client \<open>i\<close> becomes \<open>c\<close> and \<open>X\<close> are the statements it returned; \<open>H\<close> is the part of the
  client's history that still counts: all of it, or nothing after a connect or a reset. The
  history is kept from the calls alone and never looks at a session address.\<close>

definition sys_put ::
    "'c system \<Rightarrow> nat \<Rightarrow> 'c client \<Rightarrow> prepared_statement set \<Rightarrow> prepared_statement multiset \<Rightarrow> 'c system" where
  "sys_put s i c H X = s\<lparr>
     sys_clients := (sys_clients s)(i \<mapsto> c),
     sys_statements := sys_statements s + X,
     sys_issued := (sys_issued s)(i := H \<union> set_mset X)\<rparr>"

definition sys_remove :: "'c system \<Rightarrow> nat \<Rightarrow> 'c system" where
  "sys_remove s i = s\<lparr>sys_clients := (sys_clients s)(i := None), sys_issued := (sys_issued s)(i := {})\<rparr>"

lemma sys_put_simps [simp]:
  "sys_clients (sys_put s i c H X) = (sys_clients s)(i \<mapsto> c)"
  "sys_statements (sys_put s i c H X) = sys_statements s + X"
  "sys_issued (sys_put s i c H X) i = H \<union> set_mset X"
  "sys_clients (sys_remove s i) = (sys_clients s)(i := None)"
  "sys_statements (sys_remove s i) = sys_statements s"
  "j \<noteq> i \<Longrightarrow> sys_issued (sys_put s i c H X) j = sys_issued s j"
  "j \<noteq> i \<Longrightarrow> sys_issued (sys_remove s i) j = sys_issued s j"
  "sys_issued (sys_remove s i) i = {}"
  by (simp_all add: sys_put_def sys_remove_def)

fun issued_by :: "(error + call_value) outcome \<Rightarrow> prepared_statement multiset" where
  "issued_by (Ret (Inr (V_statement st))) = {#st#}"
| "issued_by _ = {#}"

lemma issued_by_iff: "st \<in># issued_by r \<longleftrightarrow> r = Ret (Inr (V_statement st))"
  by (cases r rule: issued_by.cases) auto

inductive sys_step :: "'c driver \<Rightarrow> tds_lib \<Rightarrow> 'c system \<Rightarrow> 'c system \<Rightarrow> bool"
  for D L where
  step_connect: "sys_clients s i = None \<Longrightarrow> prepared_session c \<notin> live_sessions s \<Longrightarrow>
     sys_step D L s (sys_put s i c {} {#})"
| step_call: "sys_clients s i = Some c \<Longrightarrow>
     run_call D L call \<lparr>conn = c, budget = b, next_arc = n\<rparr> = Some (r, w') \<Longrightarrow>
     {n..<next_arc w'} \<inter> live_sessions s = {} \<Longrightarrow>
     sys_step D L s (sys_put s i (conn w') (if resets D call c then {} else sys_issued s i) (issued_by r))"
| step_inner: "sys_clients s i = Some c \<Longrightarrow> 
     sys_step D L s (sys_put s i (snd (inner_mut (f :: 'c \<Rightarrow> unit \<times> 'c) c)) (sys_issued s i) {#})"
| step_drop_statement: "st \<in># sys_statements s \<Longrightarrow>
     sys_step D L s (s\<lparr>sys_statements := sys_statements s - {#st#}\<rparr>)"
| step_disconnect: "sys_clients s i = Some c \<Longrightarrow> sys_step D L s (sys_remove s i)"

inductive reachable :: "'c driver \<Rightarrow> tds_lib \<Rightarrow> 'c system \<Rightarrow> bool" for D L where
  reachable_init: "reachable D L \<lparr>sys_clients = (\<lambda>_. None), sys_statements = {#}, sys_issued = (\<lambda>_. {})\<rparr>"
| reachable_step: "reachable D L s \<Longrightarrow> sys_step D L s s' \<Longrightarrow> reachable D L s'"

text \<open>Whatever runs over the driver's connection only, a poll of a stream or a bulk copy among
  it, is a step of the third kind.\<close>

lemma with_inner_is_inner_step:
  assumes "sys_clients s i = Some c" and "with_inner m \<lparr>conn = c, budget = b, next_arc = n\<rparr> = Some (r, w')"
  shows "sys_step D L s (sys_put s i (conn w') (sys_issued s i) {#})"
proof -
  from assms(2) have "\<exists>x. conn w' = c\<lparr>inner := x\<rparr>"
    unfolding with_inner_Some by (elim exE conjE) (simp, blast)
  then obtain x where "conn w' = c\<lparr>inner := x\<rparr>" by blast
  then have "conn w' = snd (inner_mut (\<lambda>_. ((), x)) c)" by (simp add: inner_mut_def)
  with step_inner [OF assms(1)] show ?thesis by metis
qed

section \<open>The invariant\<close>

text \<open>No two clients share a session; the statements of a client's session are those it issued.\<close>

definition sessions_distinct :: "'c system \<Rightarrow> bool" where
  "sessions_distinct s \<longleftrightarrow>
     (\<forall>i j c d. sys_clients s i = Some c \<longrightarrow> sys_clients s j = Some d \<longrightarrow>
        prepared_session c = prepared_session d \<longrightarrow> i = j)"

definition sessions_issued :: "'c system \<Rightarrow> bool" where
  "sessions_issued s \<longleftrightarrow>
     (\<forall>i c st. sys_clients s i = Some c \<longrightarrow> st \<in># sys_statements s \<longrightarrow>
        ps_session st = prepared_session c \<longrightarrow> st \<in> sys_issued s i) \<and>
     (\<forall>i c st. sys_clients s i = Some c \<longrightarrow> st \<in> sys_issued s i \<longrightarrow> ps_session st = prepared_session c)"

definition sys_inv :: "'c system \<Rightarrow> bool" where
  "sys_inv s \<longleftrightarrow> sessions_distinct s \<and> sessions_issued s"

lemma sys_invI:
  assumes "\<And>i j c d. sys_clients s i = Some c \<Longrightarrow> sys_clients s j = Some d \<Longrightarrow>
      prepared_session c = prepared_session d \<Longrightarrow> i = j"
    and "\<And>i c st. sys_clients s i = Some c \<Longrightarrow> st \<in># sys_statements s \<Longrightarrow>
      ps_session st = prepared_session c \<Longrightarrow> st \<in> sys_issued s i"
    and "\<And>i c st. sys_clients s i = Some c \<Longrightarrow> st \<in> sys_issued s i \<Longrightarrow> ps_session st = prepared_session c"
  shows "sys_inv s"
  using assms unfolding sys_inv_def sessions_distinct_def sessions_issued_def by blast

lemma sys_invD:
  assumes "sys_inv s"
  shows "sys_clients s i = Some c \<Longrightarrow> sys_clients s j = Some d \<Longrightarrow> prepared_session c = prepared_session d \<Longrightarrow> i = j"
    "sys_clients s i = Some c \<Longrightarrow> st \<in># sys_statements s \<Longrightarrow> ps_session st = prepared_session c \<Longrightarrow>
       st \<in> sys_issued s i"
    "sys_clients s i = Some c \<Longrightarrow> st \<in> sys_issued s i \<Longrightarrow> ps_session st = prepared_session c"
  using assms unfolding sys_inv_def sessions_distinct_def sessions_issued_def by blast+

lemma sys_inv_put:
  assumes inv: "sys_inv s"
    and session: "map_option prepared_session (sys_clients s i) = Some (prepared_session c) \<and> H = sys_issued s i \<or>
      prepared_session c \<notin> live_sessions s \<and> H = {}"
    and X: "\<And>st. st \<in># X \<Longrightarrow> ps_session st = prepared_session c"
  shows "sys_inv (sys_put s i c H X)"
proof -
  have other: "prepared_session d \<noteq> prepared_session c" if "sys_clients s j = Some d" "j \<noteq> i" for j d
  proof
    assume same: "prepared_session d = prepared_session c"
    with session live_sessionsI(1) [OF that(1)]
    obtain c0 where "sys_clients s i = Some c0" "prepared_session c0 = prepared_session d" by auto
    with sys_invD(1) [OF inv that(1), of i c0] that(2) show False by simp
  qed
  show ?thesis
  proof (rule sys_invI)
    fix j k d e
    assume de: "sys_clients (sys_put s i c H X) j = Some d" "sys_clients (sys_put s i c H X) k = Some e"
      "prepared_session d = prepared_session e"
    consider "j = i" "k = i" | "j = i" "k \<noteq> i" | "j \<noteq> i" "k = i" | "j \<noteq> i" "k \<noteq> i" by blast
    then show "j = k"
    proof cases
      case 4
      with de sys_invD(1) [OF inv, of j d k e] show ?thesis by simp
    qed (use de other [of j d] other [of k e] in auto)
  next
    fix j d st
    assume d: "sys_clients (sys_put s i c H X) j = Some d" and st: "st \<in># sys_statements (sys_put s i c H X)"
      "ps_session st = prepared_session d"
    show "st \<in> sys_issued (sys_put s i c H X) j"
    proof (cases "j = i")
      case False
      with d have old: "sys_clients s j = Some d" by simp
      have "st \<notin># X" using X st(2) other [OF old False] by metis
      with st old False sys_invD(2) [OF inv old] show ?thesis by simp
    next
      case True
      with d have [simp]: "d = c" by simp
      show ?thesis
      proof (cases "st \<in># X")
        case False
        with st have old: "st \<in># sys_statements s" "ps_session st = prepared_session c" by simp_all
        from live_sessionsI(2) [OF old(1)] old(2) session
        obtain c0 where c0: "sys_clients s i = Some c0" "prepared_session c0 = prepared_session c"
          and "H = sys_issued s i" by auto
        with old sys_invD(2) [OF inv c0(1)] True show ?thesis by (simp add: sys_put_def)
      qed (simp add: True sys_put_def)
    qed
  next
    fix j d st
    assume "sys_clients (sys_put s i c H X) j = Some d" "st \<in> sys_issued (sys_put s i c H X) j"
    with X session sys_invD(3) [OF inv, of j] show "ps_session st = prepared_session d"
      by (cases "j = i") (auto simp: sys_put_def split: if_splits)
  qed
qed

lemma sys_inv_remove:
  assumes inv: "sys_inv s"
  shows "sys_inv (sys_remove s i)"
proof (rule sys_invI)
  have left: "sys_clients s j = Some d" if "sys_clients (sys_remove s i) j = Some d" for j d
    using that by (simp split: if_splits)
  fix j k d e
  assume "sys_clients (sys_remove s i) j = Some d" "sys_clients (sys_remove s i) k = Some e"
    "prepared_session d = prepared_session e"
  with left sys_invD(1) [OF inv] show "j = k" by metis
next
  fix j d st
  assume "sys_clients (sys_remove s i) j = Some d" and "st \<in># sys_statements (sys_remove s i)"
    and "ps_session st = prepared_session d"
  with sys_invD(2) [OF inv, of j d st] show "st \<in> sys_issued (sys_remove s i) j"
    by (cases "j = i") simp_all
next
  fix j d st
  assume "sys_clients (sys_remove s i) j = Some d" and "st \<in> sys_issued (sys_remove s i) j"
  with sys_invD(3) [OF inv, of j d st] show "ps_session st = prepared_session d"
    by (cases "j = i") simp_all
qed

lemma sys_inv_drop: "sys_inv s \<Longrightarrow> sys_inv (s\<lparr>sys_statements := sys_statements s - X\<rparr>)"
  unfolding sys_inv_def sessions_distinct_def sessions_issued_def
  by simp (meson in_diffD)

lemma run_call_statement:
  assumes "run_call D L call w = Some (Ret (Inr (V_statement st)), w')"
  shows "ps_session st = prepared_session (conn w) \<and> prepared_session (conn w') = prepared_session (conn w)"
proof -
  have r: "map_outcome (map_ok f) r' = Ret (Inr v) \<longleftrightarrow> (\<exists>x. r' = Ret (Inr x) \<and> v = f x)"
    for f :: "'z \<Rightarrow> call_value" and r' :: "(error + 'z) outcome" and v
    by (cases r') auto
  from assms obtain sql ps where "call = C_prepare sql ps" "client_prepare D L sql ps w = Some (Ret (Inr st), w')"
    by (cases call) (auto simp: io_map_Some r eq_commute [of "Ret _"])
  with prepare_session keeps_session_ops(4) show ?thesis unfolding keeps_session_def by blast
qed

lemma sys_inv_step:
  assumes "sys_inv s" and "sys_step D L s s'"
  shows "sys_inv s'"
  using assms(2)
proof cases
  case (step_connect i c)
  with assms(1) show ?thesis by (auto intro!: sys_inv_put)
next
  case (step_call i c call b n r w')
  have st: "\<And>st. st \<in># issued_by r \<Longrightarrow> ps_session st = prepared_session (conn w')"
    using run_call_statement step_call(3) unfolding issued_by_iff by fastforce
  let ?H = "if resets D call c then {} else sys_issued s i"
  from step_call(3) have "map_option prepared_session (sys_clients s i) = Some (prepared_session (conn w')) \<and>
        ?H = sys_issued s i \<or>
      prepared_session (conn w') \<notin> live_sessions s \<and> ?H = {}"
    by (cases rule: run_call_session) (use step_call in auto)
  with sys_inv_put [OF assms(1) _ st] show ?thesis unfolding step_call(1) by blast
next
  case (step_inner i c f)
  then have "map_option prepared_session (sys_clients s i) = Some (prepared_session (snd (inner_mut f c)))"
    by (simp add: inner_mut_def split: prod.splits)
  with assms(1) show ?thesis unfolding step_inner(1) by (intro sys_inv_put) auto
qed (use assms(1) in \<open>auto intro: sys_inv_remove sys_inv_drop\<close>)

lemma reachable_inv: "reachable D L s \<Longrightarrow> sys_inv s"
proof (induction rule: reachable.induct)
  case reachable_init
  show ?case by (simp add: sys_inv_def sessions_distinct_def sessions_issued_def)
next
  case (reachable_step s s')
  then show ?case using sys_inv_step by blast
qed

text \<open>A stale statement: the three operations refuse it before anything is sent.\<close>

lemma stale_statement_refused:
  assumes "\<not> client_is_connection_dead D c" and "ps_session st \<noteq> prepared_session c"
    and "call \<in> {C_query_prepared st params, C_execute_prepared st params, C_unprepare st}"
  shows "run_call D L call \<lparr>conn = c, budget = b, next_arc = n\<rparr> =
    Some (Ret (Inl InvalidPreparedStatement), \<lparr>conn = c, budget = b, next_arc = n\<rparr>)"
proof -
  have "client_ensure_usable D c = Inr ()"
    using assms(1) by (simp add: client_ensure_usable_def ensure_usable_def client_is_connection_dead_def)
  with assms(2,3) show ?thesis
    by (auto simp: validate_session_def query_prepared_def execute_prepared_def unprepare_def
        with_statement_def io_map_def)
qed

text \<open>C5: a client accepts exactly the prepared statements that this very client prepared
  since it connected and since its last call of \<open>reset_session\<close> (on a usable client, completed
  or not), although the address that identifies a session
  is used again once nobody holds it: in every state that any interleaving of connections,
  calls, errors, cancellations, panics, resets, uses of the driver's connection behind the
  client's back, dropped statements and disconnections of any number of clients reaches, a
  statement passes the session check precisely when this client issued it since then; with any other statement \<open>query_prepared\<close>, \<open>execute_prepared\<close> and \<open>unprepare\<close> fail
  with \<open>InvalidPreparedStatement\<close> and do not touch the connection.\<close>

theorem prepared_statement_valid_only_in_its_session:
  assumes "reachable D L s" and "sys_clients s i = Some c" and "st \<in># sys_statements s"
    and "\<not> client_is_connection_dead D c"
    and "call \<in> {C_query_prepared st params, C_execute_prepared st params, C_unprepare st}"
  shows "if st \<in> sys_issued s i
    then validate_session st (prepared_session c) = Inr ()
    else run_call D L call \<lparr>conn = c, budget = b, next_arc = n\<rparr> =
      Some (Ret (Inl InvalidPreparedStatement), \<lparr>conn = c, budget = b, next_arc = n\<rparr>)"
proof -
  have "ps_session st = prepared_session c \<longleftrightarrow> st \<in> sys_issued s i"
    using reachable_inv [OF assms(1)] assms(2,3) unfolding sys_inv_def sessions_issued_def by blast
  with stale_statement_refused [OF assms(4) _ assms(5)] show ?thesis
    by (auto simp: validate_session_def)
qed

text \<open>A run for the witnesses: a client connects, prepares a statement, and is left with it.\<close>

definition fresh_client :: "nat \<Rightarrow> replay client" where
  "fresh_client p =
     \<lparr>inner = \<lparr>rp_dead = False, rp_answers = [[], [], []], rp_cursor = Between [], rp_log = [], rp_returns = [CV_Int 5]\<rparr>,
      send_string_parameters_as_unicode = True, prepared_session = p\<rparr>"

definition sample_statement :: "nat \<Rightarrow> prepared_statement" where
  "sample_statement p = \<lparr>ps_handle = 5, ps_sql = ''SELECT 1'', ps_session = p\<rparr>"

lemma sample_prepare:
  obtains w' where "run_call (replay_driver sample_lib) sample_lib (C_prepare ''SELECT 1'' [])
      \<lparr>conn = fresh_client p, budget = None, next_arc = n\<rparr>
      = Some (Ret (Inr (V_statement (sample_statement p))), w')"
    and "prepared_session (conn w') = p" and "next_arc w' = n"
    and "\<not> client_is_connection_dead (replay_driver sample_lib) (conn w')"
    and "rp_answers (inner (conn w')) = [[], []]" and "rp_cursor (inner (conn w')) = Between []"
proof -
  let ?D = "replay_driver sample_lib"
  have drain: "drain_to_end ?D w = Some (Ret (Inr ()), w)"
    if "budget w = None" "rp_cursor (conn w) = Between []" for w
    using that by (subst drain_to_end.simps)
      (cases w, simp add: io_try_def io_bind_def await_tds_def replay_driver_def)
  have "\<exists>w'. run_call ?D sample_lib (C_prepare ''SELECT 1'' []) \<lparr>conn = fresh_client p, budget = None, next_arc = n\<rparr>
      = Some (Ret (Inr (V_statement (sample_statement p))), w') \<and> prepared_session (conn w') = p \<and> next_arc w' = n \<and>
      \<not> client_is_connection_dead ?D (conn w') \<and>
      rp_answers (inner (conn w')) = [[], []] \<and> rp_cursor (inner (conn w')) = Between []"
    using drain
    by (simp add: io_map_def client_prepare_def reading_def prepared_prepare_def parameter_declaration_def
        with_inner_def guarded_alive io_try_def io_bind_def await_tds_def replay_driver_def replay_request_def
        prepared_from_returns_def prepared_new_def client_is_connection_dead_def fresh_client_def sample_statement_def)
  then show thesis using that by blast
qed

theorem prepared_statement_valid_only_in_its_session_witness:
  "\<exists>s c st. reachable (replay_driver sample_lib) sample_lib s \<and> sys_clients s 0 = Some c \<and>
     st \<in># sys_statements s \<and> validate_session st (prepared_session c) = Inr ()"
proof -
  let ?D = "replay_driver sample_lib" and ?L = sample_lib
  let ?s0 = "\<lparr>sys_clients = (\<lambda>_. None), sys_statements = {#}, sys_issued = (\<lambda>_. {})\<rparr> :: replay system"
  let ?s1 = "sys_put ?s0 0 (fresh_client 3) {} {#}"
  have "sys_step ?D ?L ?s0 ?s1" by (rule step_connect) (simp_all add: live_sessions_def)
  with reachable_init have r1: "reachable ?D ?L ?s1" by (rule reachable_step)
  obtain w' where w': "run_call ?D ?L (C_prepare ''SELECT 1'' []) \<lparr>conn = fresh_client 3, budget = None, next_arc = 7\<rparr>
      = Some (Ret (Inr (V_statement (sample_statement 3))), w')" "prepared_session (conn w') = 3" "next_arc w' = 7"
      "\<not> client_is_connection_dead ?D (conn w')"
    by (rule sample_prepare [of 3 7])
  let ?s2 = "sys_put ?s1 0 (conn w') (sys_issued ?s1 0) {#sample_statement 3#}"
  have "sys_step ?D ?L ?s1 ?s2"
    using step_call [of ?s1 0 _ ?D ?L, OF _ w'(1)] w'(3) by (simp add: resets_def)
  with r1 have r2: "reachable ?D ?L ?s2" by (rule reachable_step)
  have "sys_clients ?s2 0 = Some (conn w')" "sample_statement 3 \<in># sys_statements ?s2" by simp_all
  moreover have "sample_statement 3 \<in> sys_issued ?s2 0" by (simp add: sys_put_def)
  ultimately show ?thesis
    using prepared_statement_valid_only_in_its_session [OF r2 _ _ w'(4), where call = "C_unprepare (sample_statement 3)"] r2
    by (metis insertCI)
qed

end
