(* ===== verification/PoolSystem.thy ===== *)
theory PoolSystem
  imports Sessions
begin

text \<open>
  The manager of \<open>pool.rs\<close> under the pool library: connections are created, checked out after
  a successful \<open>recycle\<close>, dropped after a failed one, used by their borrowers and returned, in
  any order. The library decides which idle connection it recycles and when it creates a new
  one; that it hands on a connection only after \<open>recycle\<close> returned \<open>Ok\<close> is its documented
  behaviour. The clients are those of \<open>Sessions\<close>, which this relation refines.
\<close>

section \<open>The pool\<close>

record 'c pool =
  pool_sys :: "'c system"
  pool_idle :: "nat set"
  pool_lent :: "nat set"
  pool_lease :: "nat \<Rightarrow> prepared_statement set"

text \<open>What \<open>Client::connect\<close> uses of the driver: the provider of connections, the default
  context and the two versions.\<close>

record 'c provider =
  prov_create_client :: "client_context \<Rightarrow> string \<Rightarrow> tds_error + 'c"
  prov_default_ctx :: client_context
  prov_cargo_version :: nat
  prov_bridge_version :: string

abbreviation provide :: "'c provider \<Rightarrow> nat \<Rightarrow> tds_manager \<Rightarrow> error + 'c client" where
  "provide V \<equiv> manager_create (prov_create_client V) (prov_default_ctx V) (prov_cargo_version V)
                 (prov_bridge_version V)"

text \<open>The lease of a borrower: the statements it was given since its checkout. A connection
  whose recycling failed is dropped, as is one that the pool or the borrower closes.\<close>

definition hand_out :: "'c pool \<Rightarrow> nat \<Rightarrow> 'c client \<Rightarrow> prepared_statement set \<Rightarrow> 'c pool" where
  "hand_out p i c H = p\<lparr>
     pool_sys := sys_put (pool_sys p) i c H {#},
     pool_idle := pool_idle p - {i}, pool_lent := insert i (pool_lent p),
     pool_lease := (pool_lease p)(i := {})\<rparr>"

definition discard :: "'c pool \<Rightarrow> nat \<Rightarrow> 'c pool" where
  "discard p i = p\<lparr>
     pool_sys := sys_remove (pool_sys p) i,
     pool_idle := pool_idle p - {i}, pool_lent := pool_lent p - {i}\<rparr>"

inductive pool_step :: "'c provider \<Rightarrow> 'c driver \<Rightarrow> tds_lib \<Rightarrow> tds_manager \<Rightarrow> 'c pool \<Rightarrow> 'c pool \<Rightarrow> bool"
  for V D L mgr where
  pool_create: "sys_clients (pool_sys p) i = None \<Longrightarrow> a \<notin> live_sessions (pool_sys p) \<Longrightarrow>
     provide V a mgr = Inr c \<Longrightarrow>
     pool_step V D L mgr p (hand_out p i c {})"
| pool_checkout: "i \<in> pool_idle p \<Longrightarrow> sys_clients (pool_sys p) i = Some c \<Longrightarrow>
     recycle D mgr \<lparr>conn = c, budget = b, next_arc = n\<rparr> = Some (Ret (Inr ()), w') \<Longrightarrow>
     {n..<next_arc w'} \<inter> live_sessions (pool_sys p) = {} \<Longrightarrow>
     pool_step V D L mgr p (hand_out p i (conn w')
       (if mgr_recycling_method mgr = Reset then {} else sys_issued (pool_sys p) i))"
| pool_discard: "i \<in> pool_idle p \<union> pool_lent p \<Longrightarrow>
     pool_step V D L mgr p (discard p i)"
| pool_call: "i \<in> pool_lent p \<Longrightarrow> sys_clients (pool_sys p) i = Some c \<Longrightarrow>
     run_call D L call \<lparr>conn = c, budget = b, next_arc = n\<rparr> = Some (r, w') \<Longrightarrow>
     {n..<next_arc w'} \<inter> live_sessions (pool_sys p) = {} \<Longrightarrow>
     pool_step V D L mgr p
       (p\<lparr>pool_sys := sys_put (pool_sys p) i (conn w')
            (if resets D call c then {} else sys_issued (pool_sys p) i) (issued_by r),
          pool_lease := (pool_lease p)(i := pool_lease p i \<union> set_mset (issued_by r))\<rparr>)"
| pool_inner: "i \<in> pool_lent p \<Longrightarrow> sys_clients (pool_sys p) i = Some c \<Longrightarrow>
     pool_step V D L mgr p
       (p\<lparr>pool_sys := sys_put (pool_sys p) i (snd (inner_mut (f :: 'c \<Rightarrow> unit \<times> 'c) c))
            (sys_issued (pool_sys p) i) {#}\<rparr>)"
| pool_drop_statement: "st \<in># sys_statements (pool_sys p) \<Longrightarrow>
     pool_step V D L mgr p
       (p\<lparr>pool_sys := (pool_sys p)\<lparr>sys_statements := sys_statements (pool_sys p) - {#st#}\<rparr>\<rparr>)"
| pool_return: "i \<in> pool_lent p \<Longrightarrow>
     pool_step V D L mgr p
       (p\<lparr>pool_idle := insert i (pool_idle p), pool_lent := pool_lent p - {i}\<rparr>)"

definition pool_start :: "'c pool" where
  "pool_start =
     \<lparr>pool_sys = \<lparr>sys_clients = (\<lambda>_. None), sys_statements = {#}, sys_issued = (\<lambda>_. {})\<rparr>,
      pool_idle = {}, pool_lent = {}, pool_lease = (\<lambda>_. {})\<rparr>"

inductive pool_reachable ::
    "'c provider \<Rightarrow> 'c driver \<Rightarrow> tds_lib \<Rightarrow> tds_manager \<Rightarrow> 'c pool \<Rightarrow> bool"
  for V D L mgr where
  pool_reach_start: "pool_reachable V D L mgr pool_start"
| pool_reach_step: "pool_reachable V D L mgr p \<Longrightarrow>
     pool_step V D L mgr p p' \<Longrightarrow>
     pool_reachable V D L mgr p'"

section \<open>Refinement of the clients\<close>

lemma created_session:
  "provide V a mgr = Inr c \<Longrightarrow>
   prepared_session c = a \<and>
   send_string_parameters_as_unicode c = string_parameters_as_unicode (mgr_config mgr)"
  by (auto simp: manager_create_def client_connect_def Let_def split: sum.splits)

text \<open>The recycling of an idle connection is one of the client's own calls.\<close>

definition recycle_call :: "tds_manager \<Rightarrow> client_call" where
  "recycle_call mgr = (case mgr_recycling_method mgr of Reset \<Rightarrow> C_reset | Ping \<Rightarrow> C_ping)"

lemma recycle_run_call: "run_call D L (recycle_call mgr) w = io_map (\<lambda>_. V_unit) (recycle D mgr) w"
proof (cases "client_ensure_usable D (conn w)")
  case (Inl e)
  then show ?thesis
    by (cases "mgr_recycling_method mgr")
      (simp_all add: recycle_call_def recycle_def io_map_def reset_session_def ping_def)
next
  case (Inr u)
  then show ?thesis
    by (cases "mgr_recycling_method mgr") (simp_all add: recycle_call_def recycle_def io_map_def)
qed

lemma recycled_run_call:
  assumes "recycle D mgr w = Some (Ret (Inr ()), w')"
  shows "run_call D L (recycle_call mgr) w = Some (Ret (Inr V_unit), w')"
  unfolding recycle_run_call io_map_def by (simp add: assms)

lemma recycled_resets:
  assumes "recycle D mgr w = Some (Ret (Inr ()), w')"
  shows "resets D (recycle_call mgr) (conn w) \<longleftrightarrow> mgr_recycling_method mgr = Reset"
proof -
  have "client_ensure_usable D (conn w) = Inr ()"
    using assms by (cases "client_ensure_usable D (conn w)") (simp_all add: recycle_def)
  then have "\<not> client_is_connection_dead D (conn w)"
    by (auto simp: client_ensure_usable_def ensure_usable_def client_is_connection_dead_def)
  then show ?thesis by (cases "mgr_recycling_method mgr") (simp_all add: resets_def recycle_call_def)
qed

lemma pool_step_refines:
  assumes "pool_step V D L mgr p p'"
    and "pool_idle p \<union> pool_lent p = dom (sys_clients (pool_sys p))"
  shows "(sys_step D L)\<^sup>*\<^sup>* (pool_sys p) (pool_sys p')"
  using assms(1)
proof cases
  case (pool_create i a c)
  with created_session [OF pool_create(4)] show ?thesis
    by (auto simp: hand_out_def intro: step_connect)
next
  case (pool_checkout i c b n w')
  from step_call [OF pool_checkout(3) recycled_run_call [OF pool_checkout(4)] pool_checkout(5)]
    recycled_resets [OF pool_checkout(4)]
  show ?thesis unfolding pool_checkout(1) by (simp add: hand_out_def r_into_rtranclp)
next
  case (pool_discard i)
  then have "i \<in> dom (sys_clients (pool_sys p))" using assms(2) by auto
  then show ?thesis unfolding pool_discard(1) by (auto simp: discard_def intro: step_disconnect)
next
  case (pool_call i c call b n r w')
  from step_call [OF pool_call(3-5)] show ?thesis unfolding pool_call(1) by auto
next
  case (pool_inner i c f)
  from step_inner [OF pool_inner(3)] show ?thesis unfolding pool_inner(1) by auto
next
  case (pool_drop_statement st)
  from step_drop_statement [OF pool_drop_statement(2)] show ?thesis unfolding pool_drop_statement(1) by auto
next
  case (pool_return i)
  then show ?thesis by simp
qed

lemma reachable_steps: "(sys_step D L)\<^sup>*\<^sup>* s s' \<Longrightarrow> reachable D L s \<Longrightarrow> reachable D L s'"
  by (induction rule: rtranclp_induct) (auto intro: reachable_step)

section \<open>The invariant\<close>

definition pool_inv :: "tds_manager \<Rightarrow> 'c pool \<Rightarrow> bool" where
  "pool_inv mgr p \<longleftrightarrow>
     pool_idle p \<inter> pool_lent p = {} \<and>
     pool_idle p \<union> pool_lent p = dom (sys_clients (pool_sys p)) \<and>
     (mgr_recycling_method mgr = Reset \<longrightarrow>
        (\<forall>i\<in>pool_lent p. sys_issued (pool_sys p) i \<subseteq> pool_lease p i))"

lemma pool_inv_step:
  assumes inv: "pool_inv mgr p" and "pool_step V D L mgr p p'"
  shows "pool_inv mgr p'"
  using assms(2)
proof cases
  case (pool_create i a c)
  with inv have "i \<notin> pool_idle p" "i \<notin> pool_lent p" by (auto simp: pool_inv_def)
  with inv pool_create show ?thesis by (auto simp: pool_inv_def hand_out_def sys_put_def)
next
  case (pool_checkout i c b n w')
  let ?s = "sys_put (pool_sys p) i (conn w')
    (if mgr_recycling_method mgr = Reset then {} else sys_issued (pool_sys p) i) {#}"
  have lease: "sys_issued ?s j \<subseteq> ((pool_lease p)(i := {})) j"
    if "mgr_recycling_method mgr = Reset" "j \<in> insert i (pool_lent p)" for j
  proof (cases "j = i")
    case True
    with that(1) show ?thesis by simp
  next
    case False
    with inv that show ?thesis by (simp add: pool_inv_def)
  qed
  from inv pool_checkout(2) have "pool_idle p - {i} \<union> insert i (pool_lent p) = dom (sys_clients ?s)"
    "(pool_idle p - {i}) \<inter> insert i (pool_lent p) = {}"
    unfolding pool_inv_def by auto
  with lease show ?thesis unfolding pool_checkout(1) pool_inv_def hand_out_def by simp
next
  case (pool_discard i)
  with inv show ?thesis by (auto simp: pool_inv_def discard_def)
next
  case (pool_call i c call b n r w')
  with inv show ?thesis by (auto simp: pool_inv_def sys_put_def)
next
  case (pool_inner i c f)
  with inv show ?thesis by (auto simp: pool_inv_def sys_put_def)
next
  case (pool_drop_statement st)
  with inv show ?thesis by (simp add: pool_inv_def)
next
  case (pool_return i)
  with inv show ?thesis by (auto simp: pool_inv_def)
qed

lemma pool_reachable_inv: "pool_reachable V D L mgr p \<Longrightarrow> pool_inv mgr p"
proof (induction rule: pool_reachable.induct)
  case pool_reach_start
  show ?case by (simp add: pool_inv_def pool_start_def)
next
  case (pool_reach_step p p')
  then show ?case using pool_inv_step by blast
qed

lemma pool_reachable_sys: "pool_reachable V D L mgr p \<Longrightarrow> reachable D L (pool_sys p)"
proof (induction rule: pool_reachable.induct)
  case pool_reach_start
  show ?case by (simp add: pool_start_def reachable_init)
next
  case (pool_reach_step p p')
  have "pool_idle p \<union> pool_lent p = dom (sys_clients (pool_sys p))"
    using pool_reachable_inv [OF pool_reach_step(1)] by (simp add: pool_inv_def)
  from reachable_steps [OF pool_step_refines [OF pool_reach_step(2) this] pool_reach_step(3)]
  show ?case .
qed

text \<open>C6: under the default recycling a borrower of a pooled connection reaches no prepared
  statement but those it was given since its own checkout: in every state of a pool of any
  number of connections, whatever earlier borrowers prepared, kept or dropped, and however
  their calls ended, querying, executing or closing any other statement that is still held
  somewhere fails with \<open>InvalidPreparedStatement\<close> and sends nothing.\<close>

theorem borrower_reaches_own_statements_only:
  assumes "pool_reachable V D L mgr p" and "mgr_recycling_method mgr = Reset"
    and "i \<in> pool_lent p" and "sys_clients (pool_sys p) i = Some c"
    and "st \<in># sys_statements (pool_sys p)" and "st \<notin> pool_lease p i"
    and "\<not> client_is_connection_dead D c"
    and "call \<in> {C_query_prepared st params, C_execute_prepared st params, C_unprepare st}"
  shows "run_call D L call \<lparr>conn = c, budget = b, next_arc = n\<rparr> =
    Some (Ret (Inl InvalidPreparedStatement), \<lparr>conn = c, budget = b, next_arc = n\<rparr>)"
proof (rule stale_statement_refused [OF assms(7) _ assms(8)])
  from pool_reachable_inv [OF assms(1)] assms(2,3,6) have "st \<notin> sys_issued (pool_sys p) i"
    by (auto simp: pool_inv_def)
  with sys_invD(2) [OF reachable_inv [OF pool_reachable_sys [OF assms(1)]] assms(4,5)]
  show "ps_session st \<noteq> prepared_session c" by blast
qed

section \<open>Two checkouts of one connection\<close>

definition sample_provider :: "replay provider" where
  "sample_provider = \<lparr>prov_create_client = (\<lambda>ctx ds. Inr (inner (fresh_client 0))),
     prov_default_ctx = sample_context, prov_cargo_version = 1, prov_bridge_version = ''0.1''\<rparr>"

text \<open>A borrower prepares a statement and returns the connection; another one checks it out.\<close>

lemma two_checkouts:
  assumes mgr: "mgr = with_recycling_method m (manager_new config_new)"
  obtains p c where "pool_reachable sample_provider (replay_driver sample_lib) sample_lib mgr p"
    and "pool_lent p = {0}" and "sys_clients (pool_sys p) 0 = Some c"
    and "sys_statements (pool_sys p) = {#sample_statement 3#}" and "pool_lease p 0 = {}"
    and "\<not> client_is_connection_dead (replay_driver sample_lib) c"
    and "prepared_session c = (case m of Reset \<Rightarrow> 7 | Ping \<Rightarrow> 3)"
proof -
  let ?D = "replay_driver sample_lib" and ?L = sample_lib
  let ?reach = "pool_reachable sample_provider ?D ?L mgr"
  let ?p1 = "hand_out pool_start 0 (fresh_client 3) {}"
  have "provide sample_provider 3 mgr = Inr (fresh_client 3)"
    by (simp add: mgr with_recycling_method_def manager_new_def manager_create_def client_connect_def sample_provider_def
        fresh_client_def config_new_def string_parameters_as_unicode_def)
  then have "pool_step sample_provider ?D ?L mgr pool_start ?p1"
    by (intro pool_create) (simp_all add: pool_start_def live_sessions_def)
  with pool_reach_start have r1: "?reach ?p1" by (rule pool_reach_step)
  have p1: "sys_clients (pool_sys ?p1) 0 = Some (fresh_client 3)" "0 \<in> pool_lent ?p1"
    "live_sessions (pool_sys ?p1) = {3}"
    by (auto simp: hand_out_def pool_start_def live_sessions_def fresh_client_def)
  obtain w where w: "run_call ?D ?L (C_prepare ''SELECT 1'' []) \<lparr>conn = fresh_client 3, budget = None, next_arc = 7\<rparr>
      = Some (Ret (Inr (V_statement (sample_statement 3))), w)" "prepared_session (conn w) = 3" "next_arc w = 7"
      "\<not> client_is_connection_dead ?D (conn w)" "rp_answers (inner (conn w)) = [[], []]"
      "rp_cursor (inner (conn w)) = Between []"
    by (rule sample_prepare [of 3 7])
  let ?p2 = "?p1\<lparr>pool_sys := sys_put (pool_sys ?p1) 0 (conn w) (sys_issued (pool_sys ?p1) 0) {#sample_statement 3#},
                 pool_lease := (pool_lease ?p1)(0 := {sample_statement 3})\<rparr>"
  have "pool_step sample_provider ?D ?L mgr ?p1 ?p2"
    using pool_call [OF p1(2) p1(1) w(1), where V = sample_provider and mgr = mgr] w(3)
    by (simp add: hand_out_def pool_start_def resets_def)
  with r1 have r2: "?reach ?p2" by (rule pool_reach_step)
  let ?p3 = "?p2\<lparr>pool_idle := insert 0 (pool_idle ?p2), pool_lent := pool_lent ?p2 - {0}\<rparr>"
  have "pool_step sample_provider ?D ?L mgr ?p2 ?p3"
    using p1(2) by (intro pool_return) simp
  with r2 have r3: "?reach ?p3" by (rule pool_reach_step)
  have p3: "0 \<in> pool_idle ?p3" "sys_clients (pool_sys ?p3) 0 = Some (conn w)"
    "live_sessions (pool_sys ?p3) = {3}"
    using w(2) by (auto simp: hand_out_def pool_start_def live_sessions_def fresh_client_def sample_statement_def)
  have "\<exists>v. recycle ?D mgr \<lparr>conn = conn w, budget = None, next_arc = 7\<rparr> = Some (Ret (Inr ()), v) \<and>
      \<not> client_is_connection_dead ?D (conn v) \<and> {7..<next_arc v} \<inter> {3} = {} \<and>
      prepared_session (conn v) = (case m of Reset \<Rightarrow> 7 | Ping \<Rightarrow> 3)"
    using w
    by (cases m) (simp_all add: mgr with_recycling_method_def manager_new_def recycle_def ping_def
        reset_session_def client_ensure_usable_def ensure_usable_def client_is_connection_dead_def
        io_new_arc_def io_sync_def io_bind_def io_try_def with_inner_def
        session_reset_scope_def reset_body_def await_tds_def replay_driver_def replay_request_def)
  then obtain v where v: "recycle ?D mgr \<lparr>conn = conn w, budget = None, next_arc = 7\<rparr> = Some (Ret (Inr ()), v)"
      "\<not> client_is_connection_dead ?D (conn v)" "{7..<next_arc v} \<inter> {3} = {}"
      "prepared_session (conn v) = (case m of Reset \<Rightarrow> 7 | Ping \<Rightarrow> 3)" by blast
  let ?p4 = "hand_out ?p3 0 (conn v) (if mgr_recycling_method mgr = Reset then {} else sys_issued (pool_sys ?p3) 0)"
  have "pool_step sample_provider ?D ?L mgr ?p3 ?p4"
    using pool_checkout [OF p3(1,2) v(1)] v(3) p3(3) by simp
  with r3 have "?reach ?p4" by (rule pool_reach_step)
  moreover have "pool_lent ?p4 = {0}" "sys_clients (pool_sys ?p4) 0 = Some (conn v)"
    "sys_statements (pool_sys ?p4) = {#sample_statement 3#}" "pool_lease ?p4 0 = {}"
    by (auto simp: hand_out_def pool_start_def)
  ultimately show thesis using v(2,4) that by blast
qed

theorem borrower_reaches_own_statements_only_witness:
  "\<exists>p c. pool_reachable sample_provider (replay_driver sample_lib) sample_lib (manager_new config_new) p \<and>
     sample_statement 3 \<in># sys_statements (pool_sys p) \<and> sys_clients (pool_sys p) 0 = Some c \<and>
     run_call (replay_driver sample_lib) sample_lib (C_unprepare (sample_statement 3))
       \<lparr>conn = c, budget = None, next_arc = 9\<rparr> =
     Some (Ret (Inl InvalidPreparedStatement), \<lparr>conn = c, budget = None, next_arc = 9\<rparr>)"
proof -
  have mgr: "manager_new config_new = with_recycling_method Reset (manager_new config_new)"
    by (simp add: manager_new_def with_recycling_method_def)
  obtain p c where p: "pool_reachable sample_provider (replay_driver sample_lib) sample_lib (manager_new config_new) p"
    "pool_lent p = {0}" "sys_clients (pool_sys p) 0 = Some c"
    "sys_statements (pool_sys p) = {#sample_statement 3#}" "pool_lease p 0 = {}"
    "\<not> client_is_connection_dead (replay_driver sample_lib) c"
    by (rule two_checkouts [OF mgr])
  from borrower_reaches_own_statements_only [OF p(1) _ _ p(3) _ _ p(6), of "sample_statement 3" "C_unprepare (sample_statement 3)" "[]" None 9]
    p show ?thesis
    by (intro exI [of _ p] exI [of _ c]) (simp add: manager_new_def)
qed

text \<open>With \<open>Ping\<close> it does: the handle an earlier borrower prepared passes the check of the next.\<close>

lemma ping_hands_on_statements:
  obtains p c where
    "pool_reachable sample_provider (replay_driver sample_lib) sample_lib
       (with_recycling_method Ping (manager_new config_new)) p"
    and "0 \<in> pool_lent p" and "sys_clients (pool_sys p) 0 = Some c"
    and "sample_statement 3 \<in># sys_statements (pool_sys p)" and "sample_statement 3 \<notin> pool_lease p 0"
    and "validate_session (sample_statement 3) (prepared_session c) = Inr ()"
proof -
  obtain p c where "pool_reachable sample_provider (replay_driver sample_lib) sample_lib
       (with_recycling_method Ping (manager_new config_new)) p"
    "pool_lent p = {0}" "sys_clients (pool_sys p) 0 = Some c"
    "sys_statements (pool_sys p) = {#sample_statement 3#}" "pool_lease p 0 = {}"
    "prepared_session c = 3"
    by (rule two_checkouts [OF refl, of Ping]) auto
  then show thesis by (intro that [of p c]) (simp_all add: validate_session_def sample_statement_def)
qed

end
