(* ===== verification/WireProtocol.thy ===== *)
theory WireProtocol
  imports WireLogic
begin

text \<open>
  The order in which the client calls the driver. A driver is observed by a log of what it was
  asked to do and how that ended; the protocol says which event may follow which. Every call of
  a client and every poll of a stream, however it ends, keeps the log orderly, so a request is
  never sent into an unread reply and nothing is asked of a reply that is over. Bulk copies and
  \<open>inner_mut\<close> are outside: the first are one call of the driver, the second lends the
  connection to the caller.
\<close>

section \<open>Events\<close>

datatype progress = More | Rows_end | Reply_end | Failed

text \<open>\<open>Ev_close\<close> and \<open>Ev_request\<close> say whether the call succeeded, \<open>Ev_rows\<close> is a row asked for,
  \<open>Ev_advance\<close> a move to the next statement or result set, \<open>Ev_flag\<close> the reset flag set, and
  \<open>Ev_abandoned\<close> a call of any kind that the caller stopped awaiting.\<close>

datatype wire_event =
    Ev_close bool
  | Ev_flag
  | Ev_request bool
  | Ev_rows progress
  | Ev_advance progress
  | Ev_abandoned

text \<open>Whether an event may follow the log of the earlier ones, the last first.\<close>

fun reading_reply :: "wire_event list \<Rightarrow> bool" where
  "reading_reply (Ev_request ok # _) = ok"
| "reading_reply (Ev_rows p # _) = (p = More)"
| "reading_reply (Ev_advance p # _) = (p = More)"
| "reading_reply _ = False"

definition reply_open :: "wire_event list \<Rightarrow> bool" where
  "reply_open es \<longleftrightarrow> reading_reply es \<or> (es \<noteq> [] \<and> hd es = Ev_rows Rows_end)"

definition reply_closed :: "wire_event list \<Rightarrow> bool" where
  "reply_closed es \<longleftrightarrow> es \<noteq> [] \<and> hd es = Ev_close True"

definition may_request :: "wire_event list \<Rightarrow> bool" where
  "may_request es \<longleftrightarrow> reply_closed es \<or> (es \<noteq> [] \<and> hd es = Ev_flag)"

definition abandoned :: "wire_event list \<Rightarrow> bool" where
  "abandoned es \<longleftrightarrow> es \<noteq> [] \<and> hd es = Ev_abandoned"

fun may_follow :: "wire_event \<Rightarrow> wire_event list \<Rightarrow> bool" where
  "may_follow (Ev_close _) es = (\<not> abandoned es)"
| "may_follow Ev_flag es = reply_closed es"
| "may_follow (Ev_request _) es = may_request es"
| "may_follow (Ev_rows _) es = reading_reply es"
| "may_follow (Ev_advance _) es = reply_open es"
| "may_follow Ev_abandoned es = (\<not> abandoned es)"

primrec orderly :: "wire_event list \<Rightarrow> bool" where
  "orderly [] = True"
| "orderly (e # es) = (may_follow e es \<and> orderly es)"

section \<open>The observed driver\<close>

record 'c wire =
  wire_conn :: 'c
  wire_log :: "wire_event list"

definition logging :: "('a \<Rightarrow> wire_event) \<Rightarrow> ('c \<Rightarrow> 'a \<times> 'c) \<Rightarrow> 'c wire \<Rightarrow> 'a \<times> 'c wire" where
  "logging ev f v = (case f (wire_conn v) of
     (a, c) \<Rightarrow> (a, \<lparr>wire_conn = c, wire_log = ev a # wire_log v\<rparr>))"

fun rows_progress :: "tds_error + bool \<Rightarrow> progress" where
  "rows_progress (Inl _) = Failed"
| "rows_progress (Inr b) = (if b then More else Rows_end)"

fun advance_progress :: "tds_error + bool \<Rightarrow> progress" where
  "advance_progress (Inl _) = Failed"
| "advance_progress (Inr b) = (if b then More else Reply_end)"

definition observed :: "'c driver \<Rightarrow> 'c wire driver" where
  "observed D = \<lparr>
     drv_health = \<lparr>is_dead = is_dead (drv_health D) \<circ> wire_conn,
                   mark_dead = (\<lambda>v. v\<lparr>wire_conn := mark_dead (drv_health D) (wire_conn v)\<rparr>)\<rparr>,
     drv_abandon = (\<lambda>v. \<lparr>wire_conn = drv_abandon D (wire_conn v), wire_log = Ev_abandoned # wire_log v\<rparr>),
     drv_close_query = logging (Ev_close \<circ> is_ok) (drv_close_query D),
     drv_execute = (\<lambda>sql. logging (Ev_request \<circ> is_ok) (drv_execute D sql)),
     drv_execute_sp_executesql = (\<lambda>sql ps. logging (Ev_request \<circ> is_ok) (drv_execute_sp_executesql D sql ps)),
     drv_execute_stored_procedure =
       (\<lambda>name pos named. logging (Ev_request \<circ> is_ok) (drv_execute_stored_procedure D name pos named)),
     drv_on_rows = drv_on_rows D \<circ> wire_conn,
     drv_advance_to_rows = logging (Ev_advance \<circ> advance_progress) (drv_advance_to_rows D),
     drv_advance = logging (Ev_advance \<circ> advance_progress \<circ> map_ok (\<lambda>r. r \<noteq> End)) (drv_advance D),
     drv_get_metadata = drv_get_metadata D \<circ> wire_conn,
     drv_next_row_into = logging (Ev_rows \<circ> rows_progress \<circ> fst) (drv_next_row_into D),
     drv_next_row = logging (Ev_rows \<circ> rows_progress \<circ> map_ok (\<lambda>r. r \<noteq> None)) (drv_next_row D),
     drv_get_return_values = drv_get_return_values D \<circ> wire_conn,
     drv_prepare_reset_connection = (\<lambda>b v.
       \<lparr>wire_conn = drv_prepare_reset_connection D b (wire_conn v), wire_log = Ev_flag # wire_log v\<rparr>)\<rparr>"

lemma observed_methods [simp]:
  "is_dead (drv_health (observed D)) v = is_dead (drv_health D) (wire_conn v)"
  "mark_dead (drv_health (observed D)) v = v\<lparr>wire_conn := mark_dead (drv_health D) (wire_conn v)\<rparr>"
  "drv_abandon (observed D) v = \<lparr>wire_conn = drv_abandon D (wire_conn v), wire_log = Ev_abandoned # wire_log v\<rparr>"
  "drv_close_query (observed D) = logging (Ev_close \<circ> is_ok) (drv_close_query D)"
  "drv_execute (observed D) sql = logging (Ev_request \<circ> is_ok) (drv_execute D sql)"
  "drv_execute_sp_executesql (observed D) sql ps = logging (Ev_request \<circ> is_ok) (drv_execute_sp_executesql D sql ps)"
  "drv_execute_stored_procedure (observed D) name pos named =
     logging (Ev_request \<circ> is_ok) (drv_execute_stored_procedure D name pos named)"
  "drv_on_rows (observed D) v = drv_on_rows D (wire_conn v)"
  "drv_advance_to_rows (observed D) = logging (Ev_advance \<circ> advance_progress) (drv_advance_to_rows D)"
  "drv_advance (observed D) = logging (Ev_advance \<circ> advance_progress \<circ> map_ok (\<lambda>r. r \<noteq> End)) (drv_advance D)"
  "drv_get_metadata (observed D) v = drv_get_metadata D (wire_conn v)"
  "drv_next_row_into (observed D) = logging (Ev_rows \<circ> rows_progress \<circ> fst) (drv_next_row_into D)"
  "drv_next_row (observed D) = logging (Ev_rows \<circ> rows_progress \<circ> map_ok (\<lambda>r. r \<noteq> None)) (drv_next_row D)"
  "drv_get_return_values (observed D) v = drv_get_return_values D (wire_conn v)"
  "drv_prepare_reset_connection (observed D) b v =
     \<lparr>wire_conn = drv_prepare_reset_connection D b (wire_conn v), wire_log = Ev_flag # wire_log v\<rparr>"
  by (simp_all add: observed_def)

section \<open>The protocol of the observed driver\<close>

definition in_order :: "(wire_event list \<Rightarrow> bool) \<Rightarrow> 'c wire \<Rightarrow> bool" where
  "in_order p v \<longleftrightarrow> orderly (wire_log v) \<and> p (wire_log v)"

abbreviation idle :: "wire_event list \<Rightarrow> bool" where
  "idle es \<equiv> \<not> abandoned es"

text \<open>The same of a connection that may be dead, on which nothing more is sent.\<close>

definition unless_dead :: "'c driver \<Rightarrow> (wire_event list \<Rightarrow> bool) \<Rightarrow> 'c wire \<Rightarrow> bool" where
  "unless_dead D p v \<longleftrightarrow>
     orderly (wire_log v) \<and> (is_dead (drv_health D) (wire_conn v) \<or> p (wire_log v))"

lemmas wire_defs = in_order_def unless_dead_def may_request_def reply_closed_def reply_open_def abandoned_def

lemma reading_reply_idle: "reading_reply es \<Longrightarrow> \<not> abandoned es"
  by (cases es rule: reading_reply.cases) (simp_all add: abandoned_def)

text \<open>A logged call keeps the order when its event may follow.\<close>

lemma runs_logging:
  fixes f :: "'c \<Rightarrow> (tds_error + 'a) \<times> 'c"
  assumes "\<And>es a. orderly es \<Longrightarrow> p es \<Longrightarrow> may_follow (ev (Inr a)) es \<and> g a (ev (Inr a) # es)"
    and "\<And>es e. orderly es \<Longrightarrow> p es \<Longrightarrow> may_follow (ev (Inl e)) es \<and> idle (ev (Inl e) # es)"
    and "\<And>es. p es \<Longrightarrow> \<not> abandoned es"
  shows "runs (in_order p) (await_tds (observed D) (logging ev f)) (\<lambda>a. in_order (g a)) (in_order idle)
     (in_order (\<lambda>_. True))"
proof (rule runs_await)
  fix v v' :: "'c wire" and r
  assume "in_order p v" and "logging ev f v = (r, v')"
  with assms(1,2) show "upon (\<lambda>a. in_order (g a)) (in_order idle) r v'"
    by (cases r) (auto simp: logging_def in_order_def split: prod.splits)
next
  fix v :: "'c wire"
  assume "in_order p v"
  with assms(3) show "in_order (\<lambda>_. True) (drv_abandon (observed D) v)"
    by (simp add: in_order_def)
qed

lemma runs_logged_row:
  "runs (in_order reading_reply) (await_next_row_into (observed D) L wr)
     (\<lambda>res. if fst res then in_order reading_reply else in_order reply_open) (in_order idle) (in_order (\<lambda>_. True))"
proof (rule hoareI)
  fix w r w'
  assume "in_order reading_reply (conn w)" and "await_next_row_into (observed D) L wr w = Some (r, w')"
  then show "ended (upon (\<lambda>res. if fst res then in_order reading_reply else in_order reply_open) (in_order idle))
      (in_order (\<lambda>_. True)) r (conn w')"
    by (auto simp: await_next_row_into_def io_await_def logging_def upon_def wire_defs
        dest: reading_reply_idle split: option.splits nat.splits prod.splits sum.splits)
qed

text \<open>The methods of the observed driver obey the laws of the protocol.\<close>

lemma runs_logged_request:
  "runs (in_order may_request) (await_tds (observed D) (logging (Ev_request \<circ> is_ok) f)) (\<lambda>_. in_order reading_reply)
     (in_order idle) (in_order (\<lambda>_. True))"
  by (rule runs_logging) (auto simp: wire_defs)

lemma runs_logged_reply:
  "runs (in_order reply_open) (await_tds (observed D) (logging (Ev_advance \<circ> advance_progress) g))
     (\<lambda>more. in_order (if more then reading_reply else idle)) (in_order idle) (in_order (\<lambda>_. True))"
  "runs (in_order reply_open)
     (await_tds (observed D) (logging (Ev_advance \<circ> advance_progress \<circ> map_ok (\<lambda>r. r \<noteq> End)) h))
     (\<lambda>r. in_order (if r = End then idle else reading_reply)) (in_order idle) (in_order (\<lambda>_. True))"
  "runs (in_order reading_reply)
     (await_tds (observed D) (logging (Ev_rows \<circ> rows_progress \<circ> map_ok (\<lambda>r. r \<noteq> None)) k))
     (\<lambda>r. in_order (if r = None then reply_open else reading_reply)) (in_order idle) (in_order (\<lambda>_. True))"
  by (rule runs_logging; auto simp: wire_defs dest: reading_reply_idle)+

lemma observed_protocol:
  assumes "health_law D"
  shows "guarded_protocol (observed D) (in_order idle) (in_order reply_closed) (in_order may_request)
    (in_order reading_reply) (in_order reply_open) (in_order (\<lambda>_. True))
    (unless_dead D idle) (unless_dead D reading_reply) (unless_dead D reply_open) (unless_dead D idle)"
proof unfold_locales
  show "runs (in_order idle) (await_tds (observed D) (drv_close_query (observed D)))
      (\<lambda>_. in_order reply_closed) (in_order idle) (in_order (\<lambda>_. True))"
    unfolding observed_methods by (rule runs_logging) (auto simp: wire_defs)
qed (use assms runs_logged_request runs_logged_row runs_logged_reply in
    \<open>auto simp: if_distrib [of in_order] if_distribR health_law_def wire_defs dest: reading_reply_idle\<close>)

interpretation replay_wire: guarded_protocol "observed (replay_driver L)"
    "in_order idle" "in_order reply_closed" "in_order may_request" "in_order reading_reply" "in_order reply_open"
    "in_order (\<lambda>_. True)" "unless_dead (replay_driver L) idle" "unless_dead (replay_driver L) reading_reply"
    "unless_dead (replay_driver L) reply_open" "unless_dead (replay_driver L) idle" for L
  by (rule observed_protocol [OF replay_health_law])

section \<open>Anything a caller does\<close>

text \<open>A caller that makes one call after the other, each with its own limit of awaits, or opens
  a stream and polls it, each poll with its own limit, until it drops the stream. Nothing is
  asked to succeed: futures are dropped, streams given up in the middle, calls fail or panic,
  and the caller goes on with the next.\<close>

datatype client_use =
    Use_call client_call "nat option"
  | Use_stream string "dyn_to_sql list" "nat option list"

fun poll_stream :: "'c driver \<Rightarrow> tds_lib \<Rightarrow> stream_state \<Rightarrow> nat option list \<Rightarrow> 'c world \<Rightarrow> 'c world option" where
  "poll_stream D L st [] v = Some v"
| "poll_stream D L st (b # bs) v =
     (case stream_poll D L st (v\<lparr>budget := b\<rparr>) of
        None \<Rightarrow> None
      | Some (Ret (_, st'), v1) \<Rightarrow> poll_stream D L st' bs v1
      | Some (_, v1) \<Rightarrow> Some v1)"

fun run_use :: "'c driver \<Rightarrow> tds_lib \<Rightarrow> client_use \<Rightarrow> 'c client world \<Rightarrow> 'c client world option" where
  "run_use D L (Use_call call b) w = map_option snd (run_call D L call (w\<lparr>budget := b\<rparr>))"
| "run_use D L (Use_stream sql params bs) w =
     (case query_compat sql params (send_string_parameters_as_unicode (conn w)) of
        None \<Rightarrow> Some w
      | Some q \<Rightarrow>
          map_option (\<lambda>v. w\<lparr>conn := (conn w)\<lparr>inner := conn v\<rparr>, next_arc := next_arc v\<rparr>)
            (poll_stream D L (qs_inner q) bs
               \<lparr>conn = inner (conn w), budget = budget w, next_arc = next_arc w\<rparr>))"

fun run_uses :: "'c driver \<Rightarrow> tds_lib \<Rightarrow> client_use list \<Rightarrow> 'c client world \<Rightarrow> 'c client world option" where
  "run_uses D L [] w = Some w"
| "run_uses D L (u # us) w = (case run_use D L u w of None \<Rightarrow> None | Some w1 \<Rightarrow> run_uses D L us w1)"

lemma polls_in_order:
  assumes "health_law D" and "poised (unless_dead D reading_reply) (unless_dead D idle) st (conn v)"
    and "poll_stream (observed D) L st bs v = Some v'"
  shows "unless_dead D idle (conn v')"
  using assms(2,3)
proof (induction bs arbitrary: st v)
  case Nil
  then show ?case by (simp add: guarded_protocol.poised_J [OF observed_protocol [OF assms(1)]])
next
  case (Cons b bs)
  from Cons.prems(2) obtain r v1 where r: "stream_poll (observed D) L st (v\<lparr>budget := b\<rparr>) = Some (r, v1)"
    by (auto split: option.splits)
  have "ended (\<lambda>p. poised (unless_dead D reading_reply) (unless_dead D idle) (snd p)) (unless_dead D idle) r (conn v1)"
    using Cons.prems(1) by (intro hoareD [OF guarded_protocol.poll [OF observed_protocol [OF assms(1)]] _ r]) simp
  then show ?case using Cons.prems(2) r Cons.IH by (cases r) auto
qed

lemma use_in_order:
  assumes "health_law D" and "unless_dead D idle (inner (conn w))"
    and "run_use (observed D) L u w = Some w'"
  shows "unless_dead D idle (inner (conn w'))"
proof (cases u)
  case (Use_call call b)
  with assms(3) obtain r where r: "run_call (observed D) L call (w\<lparr>budget := b\<rparr>) = Some (r, w')" by auto
  from hoareD [OF guarded_protocol.call [OF observed_protocol [OF assms(1)]] _ r] assms(2)
  show ?thesis by (cases r) (auto split: if_splits)
next
  case (Use_stream sql params bs)
  let ?v = "\<lparr>conn = inner (conn w), budget = budget w, next_arc = next_arc w\<rparr>"
  have "unless_dead D idle (conn v)" if "poll_stream (observed D) L (S_start sql rpc) bs ?v = Some v" for rpc v
    using assms(2) by (intro polls_in_order [OF assms(1) _ that]) (simp add: poised_def)
  with Use_stream assms(2,3) show ?thesis
    by (auto simp: query_compat_def query_stream_new_def split: option.splits if_splits)
qed

lemma uses_in_order:
  assumes "health_law D" and "unless_dead D idle (inner (conn w))"
    and "run_uses (observed D) L us w = Some w'"
  shows "unless_dead D idle (inner (conn w'))"
  using assms(2,3)
proof (induction us arbitrary: w)
  case (Cons u us)
  then obtain w1 where "run_use (observed D) L u w = Some w1" "run_uses (observed D) L us w1 = Some w'"
    by (auto split: option.splits)
  with use_in_order [OF assms(1) Cons.prems(1)] show ?case by (intro Cons.IH) simp_all
qed simp

definition observed_world :: "reply list list \<Rightarrow> replay wire client world" where
  "observed_world replies =
     \<lparr>conn = \<lparr>inner = \<lparr>wire_conn = replay_start replies, wire_log = []\<rparr>,
              send_string_parameters_as_unicode = True, prepared_session = 0\<rparr>,
      budget = None, next_arc = 1\<rparr>"

text \<open>C8: the client never breaks the order of the wire. On a connection on which nothing was
  done yet, whatever a caller does in sequence (any calls and streams, with awaits cut short
  anywhere, with any failures, whichever replies the driver delivers), every request directly
  follows a successful \<open>close_query\<close> or the reset flag set after one, rows and result sets are
  read only from a reply whose last step succeeded and promised more, no row is asked for after
  the last one of its set, and nothing is sent after a call was abandoned.\<close>

theorem requests_follow_protocol:
  assumes "health_law D" and "wire_log (inner (conn w)) = []"
    and "run_uses (observed D) L us w = Some w'"
  shows "orderly (wire_log (inner (conn w')))"
proof -
  have "unless_dead D idle (inner (conn w))" using assms(2) by (simp add: wire_defs)
  from uses_in_order [OF assms(1) this assms(3)] show ?thesis by (simp add: unless_dead_def)
qed

theorem requests_follow_protocol_witness:
  "case run_uses (observed (replay_driver sample_lib)) sample_lib
       [Use_stream ''y'' [] [None, None], Use_call C_reset None, Use_call (C_simple_query ''x'') (Some 1)]
       (observed_world [[R_rows [] [[W_null 0]] None], [R_norows None]]) of
     Some w' \<Rightarrow>
       wire_log (inner (conn w')) = [Ev_abandoned, Ev_close True, Ev_close True, Ev_request True, Ev_flag,
         Ev_close True, Ev_rows More, Ev_request True, Ev_close True] \<and>
       orderly (wire_log (inner (conn w')))
   | None \<Rightarrow> False"
proof -
  let ?D = "replay_driver sample_lib"
  let ?w = "(observed_world [[R_rows [] [[W_null 0]] None], [R_norows None]])"
  obtain w' where w': "run_uses (observed ?D) sample_lib
       [Use_stream ''y'' [] [None, None], Use_call C_reset None, Use_call (C_simple_query ''x'') (Some 1)] ?w = Some w'"
    "wire_log (inner (conn w')) = [Ev_abandoned, Ev_close True, Ev_close True, Ev_request True, Ev_flag,
         Ev_close True, Ev_rows More, Ev_request True, Ev_close True]"
    by (simp add: io_map_def simple_query_def reset_session_def client_ensure_usable_def io_new_arc_def io_sync_def
        query_compat_def query_stream_new_def stream_start_def yield_error_def stream_top_def stream_positioned_def
        stream_next_row_def new_schema_def logging_def await_next_row_into_def
        sample_defs observed_world_def session_reset_scope_def reset_body_def replay_driver_def replay_request_def)
  have "wire_log (inner (conn ?w)) = []" by (simp add: observed_world_def)
  from requests_follow_protocol [OF replay_health_law this w'(1)] w' show ?thesis by simp
qed

end
