(* ===== verification/Floats.thy ===== *)
theory Floats
  imports Complex_Main NativeConv
begin

text \<open>
  The numeric casts of Rust that produce floats: an exact ratio is rounded to the nearest
  representable number, ties to even, overflow to infinity. Floats are bit patterns with
  \<open>m\<close> mantissa bits and \<open>w\<close> exponent bits (23 and 8 for \<open>f32\<close>, 52 and 11 for \<open>f64\<close>).
\<close>

section \<open>Rounding\<close>

definition round_half_even :: "nat \<Rightarrow> nat \<Rightarrow> nat" where
  "round_half_even n d =
     (let q = n div d; r = n mod d
      in if 2 * r < d \<or> (2 * r = d \<and> even q) then q else Suc q)"

lemma round_half_even_1 [simp]: "round_half_even n (Suc 0) = n"
  by (simp add: round_half_even_def)

text \<open>The exponent of the leading bit of \<open>n / d\<close>.\<close>

definition ratio_exponent :: "nat \<Rightarrow> nat \<Rightarrow> int" where
  "ratio_exponent n d =
     (if d \<le> n then int (ilog2 (n div d)) else - int (Suc (ilog2 ((d - 1) div n))))"

text \<open>
  The bits of \<open>n / d\<close> without the sign. The rounded mantissa of a normal number has its
  leading bit at position \<open>m\<close>, which adds one to the exponent field; a mantissa rounded up
  to the next power of two carries into it.
\<close>

definition float_bits :: "nat \<Rightarrow> nat \<Rightarrow> nat \<Rightarrow> nat \<Rightarrow> nat" where
  "float_bits m w n d =
     (if n = 0 then 0
      else let bias = 2 ^ (w - 1) - 1;
               e = max (ratio_exponent n d) (1 - int bias);
               s = int m - e;
               r = (if 0 \<le> s then round_half_even (n * 2 ^ nat s) d
                    else round_half_even n (d * 2 ^ nat (- s)))
           in min (nat (e + int bias - 1) * 2 ^ m + r) ((2 ^ w - 1) * 2 ^ m))"

definition ratio_as_f64 :: "int \<Rightarrow> nat \<Rightarrow> f64" where
  "ratio_as_f64 v d = word_of_nat ((if v < 0 then 2 ^ 63 else 0) + float_bits 52 11 (nat \<bar>v\<bar>) d)"

definition int_as_f64 :: "int \<Rightarrow> f64" where
  "int_as_f64 v = ratio_as_f64 v 1"

definition int_as_f32 :: "int \<Rightarrow> f32" where
  "int_as_f32 v = word_of_nat ((if v < 0 then 2 ^ 31 else 0) + float_bits 23 8 (nat \<bar>v\<bar>) 1)"

text \<open>\<open>f64 as f32\<close>; a NaN stays a NaN and is quiet.\<close>

definition f64_as_f32 :: "f64 \<Rightarrow> f32" where
  "f64_as_f32 x =
     (let n = unat x; s = n div 2 ^ 63; e = n div 2 ^ 52 mod 2 ^ 11; m = n mod 2 ^ 52;
          k = max e 1; mant = (if e = 0 then m else 2 ^ 52 + m)
      in word_of_nat (s * 2 ^ 31 +
           (if e = 2047 \<and> m = 0 then 255 * 2 ^ 23
            else if e = 2047 then 255 * 2 ^ 23 + 2 ^ 22 + (m div 2 ^ 29) mod 2 ^ 22
            else if 1075 \<le> k then float_bits 23 8 (mant * 2 ^ (k - 1075)) 1
            else float_bits 23 8 mant (2 ^ (1075 - k)))))"

section \<open>Integers as floats\<close>

text \<open>The number a bit pattern denotes; \<open>None\<close> for infinities and NaNs.\<close>

definition f64_value :: "f64 \<Rightarrow> rat option" where
  "f64_value x =
     (let n = unat x; e = n div 2 ^ 52 mod 2 ^ 11; m = n mod 2 ^ 52;
          k = max e 1; mant = (if e = 0 then m else 2 ^ 52 + m)
      in if e = 2047 then None
         else Some ((if n < 2 ^ 63 then 1 else - 1) * of_nat mant * 2 ^ k / 2 ^ 1075))"

lemma ilog2_bounds: "0 < n \<Longrightarrow> 2 ^ ilog2 n \<le> n \<and> n < 2 ^ Suc (ilog2 n)"
proof (induction n rule: ilog2.induct)
  case (1 n)
  show ?case
  proof (cases "n < 2")
    case True
    with 1 show ?thesis by (subst ilog2.simps, subst (2) ilog2.simps) simp
  next
    case False
    with 1 have "2 ^ ilog2 (n div 2) \<le> n div 2" "n div 2 < 2 ^ Suc (ilog2 (n div 2))" by auto
    with False show ?thesis by (subst ilog2.simps, subst (2) ilog2.simps) (simp, linarith)
  qed
qed

lemma float_bits_small:
  assumes "0 < n" "n < 2 ^ 53"
  shows "float_bits 52 11 n 1 = (ilog2 n + 1022) * 2 ^ 52 + n * 2 ^ (52 - ilog2 n)"
    "2 ^ 52 \<le> n * 2 ^ (52 - ilog2 n)" "n * 2 ^ (52 - ilog2 n) < 2 ^ 53" "ilog2 n \<le> 52"
proof -
  let ?k = "ilog2 n"
  note b = ilog2_bounds [OF assms(1)]
  show k: "?k \<le> 52"
  proof (rule ccontr)
    assume "\<not> ?k \<le> 52"
    then have "(2::nat) ^ 53 \<le> 2 ^ ?k" by (intro power_increasing) auto
    with b assms(2) show False by linarith
  qed
  have split: "(2::nat) ^ 52 = 2 ^ ?k * 2 ^ (52 - ?k)" "(2::nat) ^ 53 = 2 ^ Suc ?k * 2 ^ (52 - ?k)"
    using k by (simp_all flip: power_add)
  show "2 ^ 52 \<le> n * 2 ^ (52 - ?k)" unfolding split(1) using b by simp
  show hi: "n * 2 ^ (52 - ?k) < 2 ^ 53" unfolding split(2) using b by (intro mult_strict_right_mono) auto
  have "nat (52 - int ?k) = 52 - ?k" using k by simp
  moreover have "(?k + 1022) * 2 ^ 52 + n * 2 ^ (52 - ?k) \<le> 2047 * 2 ^ 52"
  proof -
    have "(?k + 1022) * 2 ^ 52 \<le> (1074 * 2 ^ 52 :: nat)" using k by (intro mult_right_mono) auto
    with hi show ?thesis by simp
  qed
  moreover have "nat (int ?k + 1023 - 1) = ?k + 1022" by simp
  ultimately show "float_bits 52 11 n 1 = (?k + 1022) * 2 ^ 52 + n * 2 ^ (52 - ?k)"
    using assms(1) k by (simp add: float_bits_def ratio_exponent_def Let_def max_def min_def)
qed

lemma field_parts: "y < d \<Longrightarrow> (y + a * d) div d = a \<and> (y + a * d) mod d = y" for y :: nat
  by simp

text \<open>Integers of at most 53 bits are represented exactly.\<close>

lemma int_as_f64_exact:
  assumes "\<bar>v\<bar> < 2 ^ 53"
  shows "f64_value (int_as_f64 v) = Some (of_int v)"
proof (cases "v = 0")
  case True
  then show ?thesis by (simp add: int_as_f64_def ratio_as_f64_def float_bits_def f64_value_def)
next
  case False
  define n where "n = nat \<bar>v\<bar>"
  define k where "k = ilog2 n"
  define r where "r = n * 2 ^ (52 - k)"
  have n: "0 < n" "n < 2 ^ 53" using False assms by (auto simp: n_def nat_less_iff)
  note fb = float_bits_small [OF n, folded k_def, folded r_def]
  define s :: nat where "s = (if v < 0 then 2 ^ 63 else 0)"
  define b where "b = s + ((k + 1022) * 2 ^ 52 + r)"
  have m: "(k + 1022) * 2 ^ 52 + r = (k + 1023) * 2 ^ 52 + (r - 2 ^ 52)" using fb(2) by simp
  have small: "r - 2 ^ 52 < 2 ^ 52" using fb(2,3) by simp
  have inner: "(k + 1023) * 2 ^ 52 + (r - 2 ^ 52) < 2 ^ 63"
  proof -
    have "(k + 1023) * 2 ^ 52 \<le> (1075 * 2 ^ 52 :: nat)" using fb(4) by (intro mult_right_mono) auto
    with small show ?thesis by simp
  qed
  then have b64: "b < 2 ^ 64" unfolding b_def m s_def by simp
  moreover have "int_as_f64 v = word_of_nat b"
    by (simp only: int_as_f64_def ratio_as_f64_def b_def s_def fb(1) n_def [symmetric])
  ultimately have u: "unat (int_as_f64 v) = b"
    by (simp only: unat_of_nat) (rule mod_less, simp)
  have sdiv: "s div 2 ^ 52 mod 2 ^ 11 = 0" "s = s div 2 ^ 52 * 2 ^ 52" by (auto simp: s_def)
  have "b = (r - 2 ^ 52) + (s div 2 ^ 52 + (k + 1023)) * 2 ^ 52"
    unfolding b_def m using sdiv(2) by (simp add: algebra_simps)
  with field_parts [OF small] have bdiv: "b div 2 ^ 52 = s div 2 ^ 52 + (k + 1023)"
    and mm: "b mod 2 ^ 52 = r - 2 ^ 52" by metis+
  have e: "b div 2 ^ 52 mod 2 ^ 11 = k + 1023"
  proof -
    have "(k + 1023 + 2048) mod 2048 = k + 1023"
      using fb(4) by (simp only: mod_add_self2) simp
    then have "(3071 + k) mod 2048 = k + 1023" by (simp add: ac_simps)
    with bdiv show ?thesis using fb(4) by (cases "v < 0") (simp_all add: s_def)
  qed
  have sign: "b < 2 ^ 63 \<longleftrightarrow> \<not> v < 0" using inner unfolding b_def m by (auto simp: s_def)
  have "k + 1023 \<noteq> 2047" using fb(4) by simp
  then have "f64_value (int_as_f64 v) =
      Some ((if v < 0 then - 1 else 1) * of_nat r * 2 ^ (k + 1023) / 2 ^ 1075)"
    using u e mm sign fb(2) by (simp add: f64_value_def Let_def)
  moreover have "(of_nat r :: rat) * 2 ^ (k + 1023) / 2 ^ 1075 = of_nat n"
  proof -
    have "(2::rat) ^ (52 - k) * 2 ^ (k + 1023) = 2 ^ 1075" using fb(4) by (simp flip: power_add)
    then show ?thesis by (simp add: r_def field_simps)
  qed
  ultimately show ?thesis by (auto simp: n_def)
qed

end
