(* ===== verification/SerdeModel.thy ===== *)
theory SerdeModel
  imports Floats RowModel QueryModel
begin

text \<open>
  \<open>serde_de.rs\<close>: rows and cells as serde deserializers. Serde and the visitors of the
  caller's types are outside of the repository. A deserializer answers each request with
  one call of a visitor method, so a request is a function to the visitor call it makes, or
  to the error it returns without calling the visitor.
\<close>

section \<open>Requests and visitor calls\<close>

text \<open>The methods of \<open>Deserializer\<close>.\<close>

datatype request =
    Rq_any | Rq_bool
  | Rq_i8 | Rq_i16 | Rq_i32 | Rq_i64 | Rq_i128 | Rq_u8 | Rq_u16 | Rq_u32 | Rq_u64 | Rq_u128
  | Rq_f32 | Rq_f64 | Rq_char | Rq_str | Rq_string | Rq_bytes | Rq_byte_buf
  | Rq_option | Rq_unit | Rq_unit_struct | Rq_newtype_struct
  | Rq_seq | Rq_tuple | Rq_tuple_struct | Rq_map | Rq_struct | Rq_enum
  | Rq_identifier | Rq_ignored_any

text \<open>\<open>ColumnValueDeserializer\<close>; a \<open>char\<close> is one character of the decoded string.\<close>

record column_de =
  cd_val :: column_values
  cd_decoded :: "string option"

datatype visit =
    Visit_bool bool
  | Visit_i8 "8 word" | Visit_i16 i16 | Visit_i32 i32 | Visit_i64 i64 | Visit_i128 i128
  | Visit_u8 u8 | Visit_u16 u16 | Visit_u32 u32 | Visit_u64 u64 | Visit_u128 u128
  | Visit_f32 f32 | Visit_f64 f64 | Visit_char string
  | Visit_borrowed_str string | Visit_string string
  | Visit_borrowed_bytes bytes | Visit_byte_buf bytes
  | Visit_unit | Visit_none | Visit_some column_de | Visit_newtype_struct column_de
  | Visit_enum column_de

text \<open>What the code uses of \<open>uuid\<close>, of \<open>chrono\<close>'s formatting, of the driver's money
  conversion and of \<open>Debug\<close> output.\<close>

record serde_lib =
  sl_tds :: tds_lib
  sl_chrono :: chrono_lib
  sl_discriminant :: "column_values \<Rightarrow> string"
  sl_error_debug :: "tds_error \<Rightarrow> string"
  sl_money_f64 :: "sql_money \<Rightarrow> tds_error + f64"
  sl_uuid_string :: "u128 \<Rightarrow> string"
  sl_uuid_bytes :: "u128 \<Rightarrow> bytes"
  sl_date_format :: "naive_date \<Rightarrow> string"
  sl_time_format :: "naive_time \<Rightarrow> string"
  sl_datetime_format :: "naive_datetime \<Rightarrow> string"
  sl_rfc3339 :: "datetime_fixed \<Rightarrow> string"

section \<open>Cells\<close>

text \<open>\<open>de::Error::custom\<close>.\<close>

definition custom_error :: "string \<Rightarrow> error" where
  "custom_error msg = Conversion msg"

definition unsupported :: "serde_lib \<Rightarrow> column_de \<Rightarrow> string \<Rightarrow> error + 'a" where
  "unsupported S de target =
     Inl (Conversion (''cannot deserialize '' @ sl_discriminant S (cd_val de) @ '' as '' @ target))"

definition temporal_string :: "serde_lib \<Rightarrow> column_de \<Rightarrow> string option" where
  "temporal_string S de =
     (case cd_val de of
        CV_Date _ \<Rightarrow> map_option (sl_date_format S) (from_sql_naive_date (sl_chrono S) (cd_val de))
      | CV_Time _ \<Rightarrow> map_option (sl_time_format S) (from_sql_naive_time (sl_chrono S) (cd_val de))
      | CV_DateTime _ \<Rightarrow> map_option (sl_datetime_format S) (from_sql_naive_datetime (sl_chrono S) (cd_val de))
      | CV_DateTime2 _ \<Rightarrow> map_option (sl_datetime_format S) (from_sql_naive_datetime (sl_chrono S) (cd_val de))
      | CV_SmallDateTime _ \<Rightarrow> map_option (sl_datetime_format S) (from_sql_naive_datetime (sl_chrono S) (cd_val de))
      | CV_DateTimeOffset _ \<Rightarrow> map_option (sl_rfc3339 S) (from_sql_datetime_fixed (sl_chrono S) (cd_val de))
      | _ \<Rightarrow> None)"

text \<open>\<open>visit_int!\<close>: the cell as an \<open>i128\<close>, then \<open>try_from\<close> to the target type, whose
  range, name and visitor method are the arguments.\<close>

fun wide_int :: "column_values \<Rightarrow> int option" where
  "wide_int (CV_TinyInt n) = Some (uint n)"
| "wide_int (CV_SmallInt n) = Some (sint n)"
| "wide_int (CV_Int n) = Some (sint n)"
| "wide_int (CV_BigInt n) = Some (sint n)"
| "wide_int (CV_Bit b) = Some (if b then 1 else 0)"
| "wide_int _ = None"

definition visit_int :: "serde_lib \<Rightarrow> (int \<Rightarrow> bool) \<Rightarrow> string \<Rightarrow> (int \<Rightarrow> visit) \<Rightarrow> column_de \<Rightarrow> error + visit" where
  "visit_int S fits t visit de =
     (case wide_int (cd_val de) of
        None \<Rightarrow> unsupported S de t
      | Some wide \<Rightarrow>
          if fits wide then Inr (visit wide)
          else Inl (custom_error (''value '' @ show_int wide @ '' out of range for '' @ t)))"

definition money_as_f64 :: "serde_lib \<Rightarrow> sql_money \<Rightarrow> error + f64" where
  "money_as_f64 S m =
     map_err (\<lambda>e. custom_error (''money decode failed: '' @ sl_error_debug S e)) (sl_money_f64 S m)"

text \<open>\<open>int_val as f64 / 10_000.0\<close>: the conversion is exact, so one rounding remains.\<close>

definition smallmoney_as_f64 :: "sql_smallmoney \<Rightarrow> f64" where
  "smallmoney_as_f64 m = ratio_as_f64 (sint (int_val m)) 10000"

text \<open>\<open>visit_float!\<close> at \<open>f32\<close> and at \<open>f64\<close>.\<close>

definition visit_f32 :: "serde_lib \<Rightarrow> column_de \<Rightarrow> error + visit" where
  "visit_f32 S de =
     (case cd_val de of
        CV_Real n \<Rightarrow> Inr (Visit_f32 n)
      | CV_Float n \<Rightarrow> Inr (Visit_f32 (f64_as_f32 n))
      | CV_TinyInt n \<Rightarrow> Inr (Visit_f32 (int_as_f32 (uint n)))
      | CV_SmallInt n \<Rightarrow> Inr (Visit_f32 (int_as_f32 (sint n)))
      | CV_Int n \<Rightarrow> Inr (Visit_f32 (int_as_f32 (sint n)))
      | CV_BigInt n \<Rightarrow> Inr (Visit_f32 (int_as_f32 (sint n)))
      | CV_Money m \<Rightarrow> map_ok (\<lambda>f. Visit_f32 (f64_as_f32 f)) (money_as_f64 S m)
      | CV_SmallMoney sm \<Rightarrow> Inr (Visit_f32 (f64_as_f32 (smallmoney_as_f64 sm)))
      | _ \<Rightarrow> unsupported S de ''f32'')"

definition visit_f64 :: "serde_lib \<Rightarrow> column_de \<Rightarrow> error + visit" where
  "visit_f64 S de =
     (case cd_val de of
        CV_Real n \<Rightarrow> Inr (Visit_f64 (f32_as_f64 n))
      | CV_Float n \<Rightarrow> Inr (Visit_f64 n)
      | CV_TinyInt n \<Rightarrow> Inr (Visit_f64 (int_as_f64 (uint n)))
      | CV_SmallInt n \<Rightarrow> Inr (Visit_f64 (int_as_f64 (sint n)))
      | CV_Int n \<Rightarrow> Inr (Visit_f64 (int_as_f64 (sint n)))
      | CV_BigInt n \<Rightarrow> Inr (Visit_f64 (int_as_f64 (sint n)))
      | CV_Money m \<Rightarrow> map_ok Visit_f64 (money_as_f64 S m)
      | CV_SmallMoney sm \<Rightarrow> Inr (Visit_f64 (smallmoney_as_f64 sm))
      | _ \<Rightarrow> unsupported S de ''f64'')"

definition visit_temporal :: "serde_lib \<Rightarrow> column_de \<Rightarrow> error + visit" where
  "visit_temporal S de =
     map_ok Visit_string (ok_or (temporal_string S de) (Conversion ''invalid temporal value''))"

definition visit_decoded :: "column_de \<Rightarrow> error + visit" where
  "visit_decoded de =
     Inr (Visit_borrowed_str (case cd_decoded de of Some s \<Rightarrow> s | None \<Rightarrow> []))"

definition deserialize_any :: "serde_lib \<Rightarrow> column_de \<Rightarrow> error + visit" where
  "deserialize_any S de =
     (case cd_val de of
        CV_Null \<Rightarrow> Inr Visit_unit
      | CV_Bit b \<Rightarrow> Inr (Visit_bool b)
      | CV_TinyInt v \<Rightarrow> Inr (Visit_u8 v)
      | CV_SmallInt v \<Rightarrow> Inr (Visit_i16 v)
      | CV_Int v \<Rightarrow> Inr (Visit_i32 v)
      | CV_BigInt v \<Rightarrow> Inr (Visit_i64 v)
      | CV_Real v \<Rightarrow> Inr (Visit_f32 v)
      | CV_Float v \<Rightarrow> Inr (Visit_f64 v)
      | CV_Bytes b \<Rightarrow> Inr (Visit_borrowed_bytes b)
      | CV_Uuid u \<Rightarrow> Inr (Visit_string (sl_uuid_string S u))
      | CV_String _ \<Rightarrow> visit_decoded de
      | CV_Xml _ \<Rightarrow> visit_decoded de
      | CV_Json _ \<Rightarrow> visit_decoded de
      | CV_Date _ \<Rightarrow> visit_temporal S de
      | CV_Time _ \<Rightarrow> visit_temporal S de
      | CV_DateTime _ \<Rightarrow> visit_temporal S de
      | CV_DateTime2 _ \<Rightarrow> visit_temporal S de
      | CV_SmallDateTime _ \<Rightarrow> visit_temporal S de
      | CV_DateTimeOffset _ \<Rightarrow> visit_temporal S de
      | CV_Decimal d \<Rightarrow> Inr (Visit_string (dec_to_string (sl_tds S) d))
      | CV_Numeric d \<Rightarrow> Inr (Visit_string (dec_to_string (sl_tds S) d))
      | CV_Money m \<Rightarrow> map_ok Visit_f64 (money_as_f64 S m)
      | CV_SmallMoney sm \<Rightarrow> Inr (Visit_f64 (smallmoney_as_f64 sm))
      | CV_Vector _ \<Rightarrow> Inl (Conversion ''ColumnValues::Vector is not supported by serde Deserialize''))"

definition deserialize_option :: "column_de \<Rightarrow> error + visit" where
  "deserialize_option de = (case cd_val de of CV_Null \<Rightarrow> Inr Visit_none | _ \<Rightarrow> Inr (Visit_some de))"

definition deserialize_bool :: "serde_lib \<Rightarrow> column_de \<Rightarrow> error + visit" where
  "deserialize_bool S de = (case cd_val de of CV_Bit b \<Rightarrow> Inr (Visit_bool b) | _ \<Rightarrow> unsupported S de ''bool'')"

text \<open>\<open>chars().next()\<close> on UTF-8 bytes: a lead byte with the continuation bytes (\<open>0x80..=0xBF\<close>)
  after it, and the rest. A \<open>char\<close> is given to the visitor as its encoding.\<close>

definition continuation_byte :: "char \<Rightarrow> bool" where
  "continuation_byte c \<longleftrightarrow> 128 \<le> (of_char c :: nat) \<and> (of_char c :: nat) < 192"

definition chars_next :: "string \<Rightarrow> (string \<times> string) option" where
  "chars_next s =
     (case s of [] \<Rightarrow> None
      | c # cs \<Rightarrow> Some (c # takeWhile continuation_byte cs, dropWhile continuation_byte cs))"

definition deserialize_char :: "serde_lib \<Rightarrow> column_de \<Rightarrow> error + visit" where
  "deserialize_char S de =
     (case cd_decoded de of
        Some s \<Rightarrow>
          (case chars_next s of
             Some (c, rest) \<Rightarrow>
               (if chars_next rest = None then Inr (Visit_char c)
                else Inl (Conversion ''cannot deserialize multi-char string as char''))
           | None \<Rightarrow> Inl (Conversion ''cannot deserialize multi-char string as char''))
      | None \<Rightarrow> unsupported S de ''char'')"

definition deserialize_str :: "serde_lib \<Rightarrow> column_de \<Rightarrow> error + visit" where
  "deserialize_str S de =
     (case cd_val de of
        CV_String _ \<Rightarrow> visit_decoded de
      | CV_Xml _ \<Rightarrow> visit_decoded de
      | CV_Json _ \<Rightarrow> visit_decoded de
      | CV_Uuid u \<Rightarrow> Inr (Visit_string (sl_uuid_string S u))
      | CV_Date _ \<Rightarrow> visit_temporal S de
      | CV_Time _ \<Rightarrow> visit_temporal S de
      | CV_DateTime _ \<Rightarrow> visit_temporal S de
      | CV_DateTime2 _ \<Rightarrow> visit_temporal S de
      | CV_SmallDateTime _ \<Rightarrow> visit_temporal S de
      | CV_DateTimeOffset _ \<Rightarrow> visit_temporal S de
      | CV_Decimal d \<Rightarrow> Inr (Visit_string (dec_to_string (sl_tds S) d))
      | CV_Numeric d \<Rightarrow> Inr (Visit_string (dec_to_string (sl_tds S) d))
      | _ \<Rightarrow> unsupported S de ''&str'')"

definition deserialize_bytes :: "serde_lib \<Rightarrow> column_de \<Rightarrow> error + visit" where
  "deserialize_bytes S de =
     (case cd_val de of
        CV_Bytes b \<Rightarrow> Inr (Visit_borrowed_bytes b)
      | CV_Uuid u \<Rightarrow> Inr (Visit_borrowed_bytes (sl_uuid_bytes S u))
      | _ \<Rightarrow> unsupported S de ''bytes'')"

definition deserialize_byte_buf :: "serde_lib \<Rightarrow> column_de \<Rightarrow> error + visit" where
  "deserialize_byte_buf S de =
     (case cd_val de of
        CV_Bytes b \<Rightarrow> Inr (Visit_byte_buf b)
      | CV_Uuid u \<Rightarrow> Inr (Visit_byte_buf (sl_uuid_bytes S u))
      | _ \<Rightarrow> unsupported S de ''byte buf'')"

definition column_as_seq :: "error + visit" where
  "column_as_seq = Inl (Conversion ''cannot deserialize a column value as a sequence'')"

definition column_as_map :: "error + visit" where
  "column_as_map = Inl (Conversion ''cannot deserialize a column value as a map'')"

fun column_deserialize :: "serde_lib \<Rightarrow> request \<Rightarrow> column_de \<Rightarrow> error + visit" where
  "column_deserialize S Rq_any de = deserialize_any S de"
| "column_deserialize S Rq_bool de = deserialize_bool S de"
| "column_deserialize S Rq_i8 de = visit_int S (fits_signed 8) ''i8'' (\<lambda>i. Visit_i8 (word_of_int i)) de"
| "column_deserialize S Rq_i16 de = visit_int S (fits_signed 16) ''i16'' (\<lambda>i. Visit_i16 (word_of_int i)) de"
| "column_deserialize S Rq_i32 de = visit_int S (fits_signed 32) ''i32'' (\<lambda>i. Visit_i32 (word_of_int i)) de"
| "column_deserialize S Rq_i64 de = visit_int S (fits_signed 64) ''i64'' (\<lambda>i. Visit_i64 (word_of_int i)) de"
| "column_deserialize S Rq_i128 de = visit_int S (fits_signed 128) ''i128'' (\<lambda>i. Visit_i128 (word_of_int i)) de"
| "column_deserialize S Rq_u8 de = visit_int S (fits_unsigned 8) ''u8'' (\<lambda>i. Visit_u8 (word_of_int i)) de"
| "column_deserialize S Rq_u16 de = visit_int S (fits_unsigned 16) ''u16'' (\<lambda>i. Visit_u16 (word_of_int i)) de"
| "column_deserialize S Rq_u32 de = visit_int S (fits_unsigned 32) ''u32'' (\<lambda>i. Visit_u32 (word_of_int i)) de"
| "column_deserialize S Rq_u64 de = visit_int S (fits_unsigned 64) ''u64'' (\<lambda>i. Visit_u64 (word_of_int i)) de"
| "column_deserialize S Rq_u128 de = visit_int S (fits_unsigned 128) ''u128'' (\<lambda>i. Visit_u128 (word_of_int i)) de"
| "column_deserialize S Rq_f32 de = visit_f32 S de"
| "column_deserialize S Rq_f64 de = visit_f64 S de"
| "column_deserialize S Rq_char de = deserialize_char S de"
| "column_deserialize S Rq_str de = deserialize_str S de"
| "column_deserialize S Rq_string de = deserialize_str S de"
| "column_deserialize S Rq_bytes de = deserialize_bytes S de"
| "column_deserialize S Rq_byte_buf de = deserialize_byte_buf S de"
| "column_deserialize S Rq_option de = deserialize_option de"
| "column_deserialize S Rq_unit de = Inr Visit_unit"
| "column_deserialize S Rq_unit_struct de = Inr Visit_unit"
| "column_deserialize S Rq_newtype_struct de = Inr (Visit_newtype_struct de)"
| "column_deserialize S Rq_seq de = column_as_seq"
| "column_deserialize S Rq_tuple de = column_as_seq"
| "column_deserialize S Rq_tuple_struct de = column_as_seq"
| "column_deserialize S Rq_map de = column_as_map"
| "column_deserialize S Rq_struct de = column_as_map"
| "column_deserialize S Rq_enum de = Inr (Visit_enum de)"
| "column_deserialize S Rq_identifier de = deserialize_str S de"
| "column_deserialize S Rq_ignored_any de = Inr Visit_unit"

text \<open>\<open>EnumStrAccess\<close> and \<open>UnitVariant\<close>: the cell names the variant, and only unit variants
  are allowed. A seed is a function of the deserializer it is given.\<close>

definition variant_seed :: "(column_de \<Rightarrow> error + 'v) \<Rightarrow> column_de \<Rightarrow> error + 'v \<times> unit" where
  "variant_seed seed de = map_ok (\<lambda>v. (v, ())) (seed de)"

datatype variant_shape = Unit_variant | Newtype_variant | Tuple_variant | Struct_variant

fun unit_variant_access :: "variant_shape \<Rightarrow> error + unit" where
  "unit_variant_access Unit_variant = Inr ()"
| "unit_variant_access Newtype_variant =
     Inl (Conversion ''newtype enum variants are not supported on column values'')"
| "unit_variant_access Tuple_variant =
     Inl (Conversion ''tuple enum variants are not supported on column values'')"
| "unit_variant_access Struct_variant =
     Inl (Conversion ''struct enum variants are not supported on column values'')"

section \<open>Rows\<close>

text \<open>\<open>RowMapAccess\<close> and \<open>RowSeqAccess\<close>: a row and the index of the next column.\<close>

record row_access =
  ra_row :: row
  ra_idx :: nat

datatype row_visit = Visit_map row_access | Visit_seq row_access | Visit_newtype_row row

definition access_new :: "row \<Rightarrow> row_access" where
  "access_new r = \<lparr>ra_row = r, ra_idx = 0\<rparr>"

fun row_deserialize :: "request \<Rightarrow> row \<Rightarrow> row_visit" where
  "row_deserialize Rq_seq r = Visit_seq (access_new r)"
| "row_deserialize Rq_tuple r = Visit_seq (access_new r)"
| "row_deserialize Rq_tuple_struct r = Visit_seq (access_new r)"
| "row_deserialize Rq_newtype_struct r = Visit_newtype_row r"
| "row_deserialize _ r = Visit_map (access_new r)"

definition cell_de :: "row \<Rightarrow> nat \<Rightarrow> error + column_de" where
  "cell_de r i =
     map_ok (\<lambda>v. \<lparr>cd_val = v, cd_decoded = decoded_str_at r i\<rparr>)
       (ok_or (raw_value r i) (ColumnIndexOutOfBounds i (row_len r)))"

definition next_key_seed :: "(string \<Rightarrow> error + 'k) \<Rightarrow> row_access \<Rightarrow> error + 'k option" where
  "next_key_seed seed a =
     (if row_len (ra_row a) \<le> ra_idx a then Inr None
      else and_then
        (ok_or (nth_opt (row_columns (ra_row a)) (ra_idx a))
          (ColumnIndexOutOfBounds (ra_idx a) (length (row_columns (ra_row a)))))
        (\<lambda>c. map_ok Some (seed (col_name c))))"

text \<open>The index advances whether or not the seed succeeds; it does not when there is no cell.\<close>

definition next_value_seed :: "(column_de \<Rightarrow> error + 'v) \<Rightarrow> row_access \<Rightarrow> (error + 'v) \<times> row_access" where
  "next_value_seed seed a =
     (case cell_de (ra_row a) (ra_idx a) of
        Inl e \<Rightarrow> (Inl e, a)
      | Inr de \<Rightarrow> (seed de, a\<lparr>ra_idx := ra_idx a + 1\<rparr>))"

definition next_element_seed :: "(column_de \<Rightarrow> error + 'v) \<Rightarrow> row_access \<Rightarrow> (error + 'v option) \<times> row_access" where
  "next_element_seed seed a =
     (if row_len (ra_row a) \<le> ra_idx a then (Inr None, a)
      else (case and_then (cell_de (ra_row a) (ra_idx a)) seed of
              Inl e \<Rightarrow> (Inl e, a)
            | Inr v \<Rightarrow> (Inr (Some v), a\<lparr>ra_idx := ra_idx a + 1\<rparr>)))"

text \<open>\<open>size_hint\<close>; \<open>None\<close> is the subtraction overflow.\<close>

definition access_size_hint :: "row_access \<Rightarrow> nat option" where
  "access_size_hint a =
     (if ra_idx a \<le> row_len (ra_row a) then Some (row_len (ra_row a) - ra_idx a) else None)"

text \<open>\<open>Row::deserialize\<close> and \<open>Row::deserialize_borrowed\<close>: the target type's own
  \<open>deserialize\<close> is the argument.\<close>

definition row_deserialize_into :: "(row \<Rightarrow> error + 't) \<Rightarrow> row \<Rightarrow> error + 't" where
  "row_deserialize_into target r = target r"

section \<open>Integer reads\<close>

lemma visit_int_signed:
  assumes "wide_int (cd_val de) = Some n" and "\<And>x y. V x = V y \<Longrightarrow> x = y"
  shows "visit_int S (fits_signed LENGTH('a)) t (\<lambda>i. V (word_of_int i :: 'a::len word)) de = Inr (V x)
    \<longleftrightarrow> sint x = n"
proof (cases "fits_signed LENGTH('a) n")
  case True
  then have "sint (word_of_int n :: 'a word) = n" by (rule sint_of_fitting)
  then have "word_of_int n = x \<longleftrightarrow> sint x = n" by (metis signed_word_eqI)
  with True assms show ?thesis by (auto simp: visit_int_def)
next
  case False
  then have "sint x \<noteq> n" using sint_fits [of x] by auto
  with False assms(1) show ?thesis by (simp add: visit_int_def)
qed

lemma visit_int_unsigned:
  assumes "wide_int (cd_val de) = Some n" and "\<And>x y. V x = V y \<Longrightarrow> x = y"
  shows "visit_int S (fits_unsigned LENGTH('a)) t (\<lambda>i. V (word_of_int i :: 'a::len word)) de = Inr (V x)
    \<longleftrightarrow> uint x = n"
proof (cases "fits_unsigned LENGTH('a) n")
  case True
  then have "uint (word_of_int n :: 'a word) = n" by (rule uint_of_fitting)
  then have "word_of_int n = x \<longleftrightarrow> uint x = n" by (metis unsigned_word_eqI)
  with True assms show ?thesis by (auto simp: visit_int_def)
next
  case False
  have "fits_unsigned LENGTH('a) (uint x)" by (simp add: fits_unsigned_def)
  with False have "uint x \<noteq> n" by auto
  with False assms(1) show ?thesis by (simp add: visit_int_def)
qed

text \<open>C29: a \<open>tinyint\<close> (unsigned), \<open>smallint\<close>, \<open>int\<close>, \<open>bigint\<close> (signed) or \<open>bit\<close> (0 or 1)
  column deserializes into any of the ten integer types exactly when its value is in the
  range of that type, and then as that value: nothing is truncated or reinterpreted,
  whatever the width of the column and the sign.\<close>

theorem serde_integers_exact:
  assumes "(\<exists>x. cd_val de = CV_TinyInt x \<and> n = uint x) \<or> (\<exists>x. cd_val de = CV_SmallInt x \<and> n = sint x) \<or>
    (\<exists>x. cd_val de = CV_Int x \<and> n = sint x) \<or> (\<exists>x. cd_val de = CV_BigInt x \<and> n = sint x) \<or>
    (\<exists>b. cd_val de = CV_Bit b \<and> n = (if b then 1 else 0))"
  shows
    "(column_deserialize S Rq_i8 de = Inr (Visit_i8 x8) \<longleftrightarrow> sint x8 = n) \<and>
     (column_deserialize S Rq_i16 de = Inr (Visit_i16 x16) \<longleftrightarrow> sint x16 = n) \<and>
     (column_deserialize S Rq_i32 de = Inr (Visit_i32 x32) \<longleftrightarrow> sint x32 = n) \<and>
     (column_deserialize S Rq_i64 de = Inr (Visit_i64 x64) \<longleftrightarrow> sint x64 = n) \<and>
     (column_deserialize S Rq_i128 de = Inr (Visit_i128 x128) \<longleftrightarrow> sint x128 = n) \<and>
     (column_deserialize S Rq_u8 de = Inr (Visit_u8 u8) \<longleftrightarrow> uint u8 = n) \<and>
     (column_deserialize S Rq_u16 de = Inr (Visit_u16 u16) \<longleftrightarrow> uint u16 = n) \<and>
     (column_deserialize S Rq_u32 de = Inr (Visit_u32 u32) \<longleftrightarrow> uint u32 = n) \<and>
     (column_deserialize S Rq_u64 de = Inr (Visit_u64 u64) \<longleftrightarrow> uint u64 = n) \<and>
     (column_deserialize S Rq_u128 de = Inr (Visit_u128 u128) \<longleftrightarrow> uint u128 = n)"
proof -
  have n: "wide_int (cd_val de) = Some n" using assms by auto
  show ?thesis
    using visit_int_signed [OF n, of Visit_i8 S "''i8''"] visit_int_signed [OF n, of Visit_i16 S "''i16''"]
      visit_int_signed [OF n, of Visit_i32 S "''i32''"] visit_int_signed [OF n, of Visit_i64 S "''i64''"]
      visit_int_signed [OF n, of Visit_i128 S "''i128''"]
      visit_int_unsigned [OF n, of Visit_u8 S "''u8''"] visit_int_unsigned [OF n, of Visit_u16 S "''u16''"]
      visit_int_unsigned [OF n, of Visit_u32 S "''u32''"] visit_int_unsigned [OF n, of Visit_u64 S "''u64''"]
      visit_int_unsigned [OF n, of Visit_u128 S "''u128''"]
    by simp
qed

definition sample_serde :: serde_lib where
  "sample_serde = \<lparr>sl_tds = sample_lib, sl_chrono = sample_chrono, sl_discriminant = (\<lambda>_. ''Discriminant''),
     sl_error_debug = (\<lambda>_. ''error''), sl_money_f64 = (\<lambda>_. Inr 0), sl_uuid_string = (\<lambda>_. ''uuid''),
     sl_uuid_bytes = (\<lambda>_. []), sl_date_format = (\<lambda>d. show_int (sint (num_days_from_ce d))),
     sl_time_format = (\<lambda>_. ''time''), sl_datetime_format = (\<lambda>_. ''datetime''), sl_rfc3339 = (\<lambda>_. ''rfc3339'')\<rparr>"

theorem serde_integers_exact_witness:
  "column_deserialize sample_serde Rq_i8 \<lparr>cd_val = CV_BigInt (- 5), cd_decoded = None\<rparr> = Inr (Visit_i8 (- 5)) \<and>
   column_deserialize sample_serde Rq_u16 \<lparr>cd_val = CV_BigInt (- 5), cd_decoded = None\<rparr> \<noteq> Inr (Visit_u16 65531)"
proof -
  let ?de = "\<lparr>cd_val = CV_BigInt (- 5), cd_decoded = None\<rparr>"
  have "\<exists>x. cd_val ?de = CV_BigInt x \<and> - 5 = sint x" by simp
  then show ?thesis
    using serde_integers_exact [of ?de "- 5" sample_serde "- 5" _ _ _ _ _ "65531"] by simp
qed

section \<open>Serde and the native readers\<close>

text \<open>C30: whatever the native readers of \<open>Row::get\<close> accept, serde accepts too and reads as the
  same value: booleans, integers, floats, text with its decoded string, and bytes. Serde
  only accepts more (every integer width, bits as integers, numbers as floats).\<close>

theorem serde_reads_extend_native:
  assumes "cd_decoded de = decode_string L (cd_val de)"
  shows
    "(from_sql_bool (cd_val de) = Some b \<longrightarrow> column_deserialize S Rq_bool de = Inr (Visit_bool b)) \<and>
     (from_sql_u8 (cd_val de) = Some x8 \<longrightarrow> column_deserialize S Rq_u8 de = Inr (Visit_u8 x8)) \<and>
     (from_sql_i16 (cd_val de) = Some x16 \<longrightarrow> column_deserialize S Rq_i16 de = Inr (Visit_i16 x16)) \<and>
     (from_sql_i32 (cd_val de) = Some x32 \<longrightarrow> column_deserialize S Rq_i32 de = Inr (Visit_i32 x32)) \<and>
     (from_sql_i64 (cd_val de) = Some x64 \<longrightarrow> column_deserialize S Rq_i64 de = Inr (Visit_i64 x64)) \<and>
     (from_sql_f32 (cd_val de) = Some r32 \<longrightarrow> column_deserialize S Rq_f32 de = Inr (Visit_f32 r32)) \<and>
     (from_sql_f64 (cd_val de) = Some r64 \<longrightarrow> column_deserialize S Rq_f64 de = Inr (Visit_f64 r64)) \<and>
     (from_sql_string L (cd_val de) = Some s \<longrightarrow> column_deserialize S Rq_str de = Inr (Visit_borrowed_str s)) \<and>
     (from_sql_bytes (cd_val de) = Some bs \<longrightarrow> column_deserialize S Rq_bytes de = Inr (Visit_borrowed_bytes bs)) \<and>
     (from_sql_uuid (cd_val de) = Some u \<longrightarrow> column_deserialize S Rq_str de = Inr (Visit_string (sl_uuid_string S u)))"
proof -
  have i: "int_cell_value v = Some n \<Longrightarrow> wide_int v = Some n" for v n by (cases v) auto
  have n: "from_sql_i64 (cd_val de) = Some x64 \<Longrightarrow> int_cell_value (cd_val de) = Some (sint x64)"
    by (simp flip: integer_reads_value(1))
  note n = n integer_reads_value(2-4) [of "cd_val de"]
  have "from_sql_u8 (cd_val de) = Some x8 \<longrightarrow> column_deserialize S Rq_u8 de = Inr (Visit_u8 x8)"
    using i n(4) visit_int_unsigned [of de _ Visit_u8 S "''u8''" x8] by auto
  moreover have "from_sql_i16 (cd_val de) = Some x16 \<longrightarrow> column_deserialize S Rq_i16 de = Inr (Visit_i16 x16)"
    using i n(3) visit_int_signed [of de _ Visit_i16 S "''i16''" x16] by auto
  moreover have "from_sql_i32 (cd_val de) = Some x32 \<longrightarrow> column_deserialize S Rq_i32 de = Inr (Visit_i32 x32)"
    using i n(2) visit_int_signed [of de _ Visit_i32 S "''i32''" x32] by auto
  moreover have "from_sql_i64 (cd_val de) = Some x64 \<longrightarrow> column_deserialize S Rq_i64 de = Inr (Visit_i64 x64)"
    using i n(1) visit_int_signed [of de _ Visit_i64 S "''i64''" x64] by auto
  moreover have "from_sql_bool (cd_val de) = Some b \<longrightarrow> column_deserialize S Rq_bool de = Inr (Visit_bool b)"
    by (cases "cd_val de") (simp_all add: deserialize_bool_def)
  moreover have "(from_sql_f32 (cd_val de) = Some r32 \<longrightarrow> column_deserialize S Rq_f32 de = Inr (Visit_f32 r32)) \<and>
      (from_sql_f64 (cd_val de) = Some r64 \<longrightarrow> column_deserialize S Rq_f64 de = Inr (Visit_f64 r64))"
    by (cases "cd_val de") (simp_all add: visit_f32_def visit_f64_def)
  moreover have "(from_sql_string L (cd_val de) = Some s \<longrightarrow> column_deserialize S Rq_str de = Inr (Visit_borrowed_str s)) \<and>
      (from_sql_uuid (cd_val de) = Some u \<longrightarrow> column_deserialize S Rq_str de = Inr (Visit_string (sl_uuid_string S u)))"
    using assms by (cases "cd_val de") (simp_all add: deserialize_str_def visit_decoded_def)
  moreover have "from_sql_bytes (cd_val de) = Some bs \<longrightarrow> column_deserialize S Rq_bytes de = Inr (Visit_borrowed_bytes bs)"
    by (cases "cd_val de") (simp_all add: deserialize_bytes_def)
  ultimately show ?thesis by blast
qed

theorem serde_reads_extend_native_witness:
  "column_deserialize sample_serde Rq_i64 \<lparr>cd_val = CV_TinyInt 200, cd_decoded = None\<rparr> = Inr (Visit_i64 200)"
  using serde_reads_extend_native [of "\<lparr>cd_val = CV_TinyInt 200, cd_decoded = None\<rparr>" sample_lib _ sample_serde
      _ _ _ "200"]
  by simp

text \<open>An integer column of at most 53 bits also reads exactly as an \<open>f64\<close>; larger ones are
  rounded without an error.\<close>

lemma serde_f64_of_integer:
  assumes "int_cell_value (cd_val de) = Some n" and "\<bar>n\<bar> < 2 ^ 53"
  shows "\<exists>x. column_deserialize S Rq_f64 de = Inr (Visit_f64 x) \<and> f64_value x = Some (of_int n)"
  using assms int_as_f64_exact by (cases "cd_val de") (auto simp: visit_f64_def)

section \<open>Visiting the columns of a row\<close>

lemma raw_value_Some: "i < row_len r \<Longrightarrow> raw_value r i = Some (row_values r ! i)"
  by (simp add: raw_value_def row_len_def nth_opt_def)

lemma raw_value_None: "row_len r \<le> i \<Longrightarrow> raw_value r i = None"
  by (simp add: raw_value_def row_len_def nth_opt_def)

text \<open>The deserializer of one cell.\<close>

definition cell_at :: "row \<Rightarrow> nat \<Rightarrow> column_de" where
  "cell_at r i = \<lparr>cd_val = row_values r ! i, cd_decoded = decoded_str_at r i\<rparr>"

lemma cell_de_cases:
  "cell_de r i = (if i < row_len r then Inr (cell_at r i) else Inl (ColumnIndexOutOfBounds i (row_len r)))"
  by (simp add: cell_de_def cell_at_def raw_value_Some raw_value_None)

text \<open>
  A visitor is code of the caller or of serde. It is a tree that calls the access, looks at
  the answer and goes on, until it is done. Its calls are logged.
\<close>

datatype 'v map_visitor =
    Visitor_done 'v
  | Visitor_key "error + string option \<Rightarrow> 'v map_visitor"
  | Visitor_value "error + column_de \<Rightarrow> 'v map_visitor"
  | Visitor_hint "nat option \<Rightarrow> 'v map_visitor"

datatype access_event =
    Key_answer "error + string option" | Value_answer "error + column_de" | Hint_answer "nat option"

primrec run_visitor :: "'v map_visitor \<Rightarrow> row_access \<Rightarrow> access_event list \<times> 'v" where
  "run_visitor (Visitor_done v) a = ([], v)"
| "run_visitor (Visitor_key f) a =
     (let k = next_key_seed Inr a
      in map_prod ((#) (Key_answer k)) id (run_visitor (f k) a))"
| "run_visitor (Visitor_value f) a =
     (case next_value_seed Inr a of
        (v, a') \<Rightarrow> map_prod ((#) (Value_answer v)) id (run_visitor (f v) a'))"
| "run_visitor (Visitor_hint f) a =
     (let h = access_size_hint a
      in map_prod ((#) (Hint_answer h)) id (run_visitor (f h) a))"

text \<open>What a log looks like when the next column is \<open>i\<close>.\<close>

fun log_ok :: "row \<Rightarrow> nat \<Rightarrow> access_event list \<Rightarrow> bool" where
  "log_ok r i [] \<longleftrightarrow> True"
| "log_ok r i (Key_answer k # es) \<longleftrightarrow>
     k = Inr (if i < row_len r then Some (col_name (row_columns r ! i)) else None) \<and> log_ok r i es"
| "log_ok r i (Value_answer v # es) \<longleftrightarrow>
     (if i < row_len r then v = Inr (cell_at r i) \<and> log_ok r (Suc i) es
      else v = Inl (ColumnIndexOutOfBounds (row_len r) (row_len r)) \<and> log_ok r i es)"
| "log_ok r i (Hint_answer h # es) \<longleftrightarrow> h = Some (row_len r - i) \<and> log_ok r i es"

lemma next_key_at:
  assumes "length (row_columns r) = row_len r"
  shows "next_key_seed seed \<lparr>ra_row = r, ra_idx = i\<rparr> =
    (if i < row_len r then map_ok Some (seed (col_name (row_columns r ! i))) else Inr None)"
  using assms by (simp add: next_key_seed_def nth_opt_def)

lemma next_value_at:
  "next_value_seed seed \<lparr>ra_row = r, ra_idx = i\<rparr> =
    (if i < row_len r then (seed (cell_at r i), \<lparr>ra_row = r, ra_idx = Suc i\<rparr>)
     else (Inl (ColumnIndexOutOfBounds i (row_len r)), \<lparr>ra_row = r, ra_idx = i\<rparr>))"
  by (simp add: next_value_seed_def cell_de_cases)

lemma run_visitor_log:
  assumes "length (row_columns r) = row_len r" and "i \<le> row_len r"
  shows "log_ok r i (fst (run_visitor V \<lparr>ra_row = r, ra_idx = i\<rparr>))"
  using assms(2)
proof (induction V arbitrary: i)
  case (Visitor_value f)
  then show ?case by (cases "i < row_len r") (simp_all add: next_value_at)
qed (simp_all add: Let_def next_key_at [OF assms(1)] access_size_hint_def)

text \<open>C28: no visitor, whatever it calls in whatever order, makes a row's map access misbehave:
  the values it gets are the cells in column order, each once, a key is always the name
  of the column whose value comes next, the size hint is the number of cells left and never
  underflows, and a value asked for past the end is an error that can be repeated.\<close>

theorem serde_access_protocol:
  assumes "length (row_columns r) = row_len r"
  shows "log_ok r 0 (fst (run_visitor V (access_new r)))"
  unfolding access_new_def using assms by (rule run_visitor_log) simp

theorem serde_access_protocol_witness:
  "log_ok (row_from_tds sample_lib 0 [sample_meta ''a''] [CV_Int 7]) 0
     (fst (run_visitor (Visitor_value (\<lambda>_. Visitor_value (\<lambda>_. Visitor_hint (\<lambda>h. Visitor_done h))))
       (access_new (row_from_tds sample_lib 0 [sample_meta ''a''] [CV_Int 7]))))"
  by (rule serde_access_protocol)
    (simp add: row_columns_def row_len_def row_from_tds_def row_from_schema_def row_from_parts_def
      row_schema_from_metadata_def Let_def)

text \<open>The visitors of maps and of derived structs: keys and values in turn until the keys end.\<close>

function visit_entries ::
    "(string \<Rightarrow> error + 'k) \<Rightarrow> ('k \<Rightarrow> column_de \<Rightarrow> error + 'v) \<Rightarrow> row_access \<Rightarrow> error + ('k \<times> 'v) list" where
  "visit_entries kseed vseed a =
     (case next_key_seed kseed a of
        Inl e \<Rightarrow> Inl e
      | Inr None \<Rightarrow> Inr []
      | Inr (Some k) \<Rightarrow>
          (case next_value_seed (vseed k) a of
             (Inl e, a') \<Rightarrow> Inl e
           | (Inr v, a') \<Rightarrow> map_ok (\<lambda>es. (k, v) # es) (visit_entries kseed vseed a')))"
  by pat_completeness auto

termination
  by (relation "measure (\<lambda>(kseed, vseed, a). row_len (ra_row a) - ra_idx a)")
    (auto simp: next_key_seed_def next_value_seed_def split: if_splits sum.splits)

text \<open>The visitors of sequences.\<close>

function visit_elements :: "(column_de \<Rightarrow> error + 'v) \<Rightarrow> row_access \<Rightarrow> error + 'v list" where
  "visit_elements seed a =
     (case next_element_seed seed a of
        (Inl e, a') \<Rightarrow> Inl e
      | (Inr None, a') \<Rightarrow> Inr []
      | (Inr (Some v), a') \<Rightarrow> map_ok (\<lambda>vs. v # vs) (visit_elements seed a'))"
  by pat_completeness auto

termination
  by (relation "measure (\<lambda>(seed, a). row_len (ra_row a) - ra_idx a)")
    (auto simp: next_element_seed_def split: if_splits sum.splits)

declare visit_entries.simps [simp del] visit_elements.simps [simp del]

lemma collect_ok_Cons_map: "collect_ok (x # xs) = and_then x (\<lambda>y. map_ok (\<lambda>ys. y # ys) (collect_ok xs))"
  by (cases x; cases "collect_ok xs") simp_all

definition entry_at ::
    "(string \<Rightarrow> error + 'k) \<Rightarrow> ('k \<Rightarrow> column_de \<Rightarrow> error + 'v) \<Rightarrow> row \<Rightarrow> nat \<Rightarrow> error + 'k \<times> 'v" where
  "entry_at kseed vseed r i =
     and_then (kseed (col_name (row_columns r ! i))) (\<lambda>k. map_ok (\<lambda>v. (k, v)) (vseed k (cell_at r i)))"

lemma visit_entries_from:
  assumes "length (row_columns r) = row_len r" and "i \<le> row_len r"
  shows "visit_entries kseed vseed \<lparr>ra_row = r, ra_idx = i\<rparr> =
    collect_ok (map (entry_at kseed vseed r) [i..<row_len r])"
  using assms(2)
proof (induction "row_len r - i" arbitrary: i)
  case 0
  then show ?case by (subst visit_entries.simps) (simp add: next_key_at [OF assms(1)])
next
  case (Suc n)
  then have i: "i < row_len r" and IH: "visit_entries kseed vseed \<lparr>ra_row = r, ra_idx = Suc i\<rparr> =
      collect_ok (map (entry_at kseed vseed r) [Suc i..<row_len r])" by auto
  have split: "[i..<row_len r] = i # [Suc i..<row_len r]" using i by (simp add: upt_conv_Cons)
  show ?case
  proof (cases "kseed (col_name (row_columns r ! i))")
    case (Inl e)
    with i show ?thesis unfolding split
      by (subst visit_entries.simps) (simp add: next_key_at [OF assms(1)] entry_at_def)
  next
    case (Inr k)
    with i show ?thesis unfolding split
      by (subst visit_entries.simps, cases "vseed k (cell_at r i)")
        (simp_all add: next_key_at [OF assms(1)] next_value_at IH entry_at_def collect_ok_Cons_map
          del: collect_ok.simps)
  qed
qed

lemma visit_elements_from:
  assumes "i \<le> row_len r"
  shows "visit_elements seed \<lparr>ra_row = r, ra_idx = i\<rparr> =
    collect_ok (map (\<lambda>j. seed (cell_at r j)) [i..<row_len r])"
  using assms
proof (induction "row_len r - i" arbitrary: i)
  case 0
  then show ?case by (subst visit_elements.simps) (simp add: next_element_seed_def)
next
  case (Suc n)
  then have i: "i < row_len r" and IH: "visit_elements seed \<lparr>ra_row = r, ra_idx = Suc i\<rparr> =
      collect_ok (map (\<lambda>j. seed (cell_at r j)) [Suc i..<row_len r])" by auto
  have split: "[i..<row_len r] = i # [Suc i..<row_len r]" using i by (simp add: upt_conv_Cons)
  show ?case unfolding split using i
    by (subst visit_elements.simps)
      (simp add: next_element_seed_def cell_de_cases IH collect_ok_Cons_map del: collect_ok.simps
        split: sum.splits)
qed

text \<open>C27: deserializing a row visits every column exactly once, in order: as a map or struct
  it pairs each column's name with its cell, as a sequence or tuple it reads the same cells
  by position, and the first conversion that fails is the error of the whole row.\<close>

theorem serde_visits_columns_in_order:
  assumes "length (row_columns r) = row_len r"
  shows "visit_entries kseed vseed (access_new r) = collect_ok (map (entry_at kseed vseed r) [0..<row_len r])
    \<and> visit_elements seed (access_new r) = collect_ok (map (\<lambda>i. seed (cell_at r i)) [0..<row_len r])"
  by (simp add: access_new_def visit_entries_from [OF assms] visit_elements_from)

theorem serde_visits_columns_in_order_witness:
  "visit_elements (column_deserialize sample_serde Rq_i64)
     (access_new (row_from_tds sample_lib 0 [sample_meta ''a'', sample_meta ''b''] [CV_Int 7, CV_Null])) =
   Inl (Conversion ''cannot deserialize Discriminant as i64'')"
proof -
  let ?r = "row_from_tds sample_lib 0 [sample_meta ''a'', sample_meta ''b''] [CV_Int 7, CV_Null]"
  have "length (row_columns ?r) = row_len ?r" and "row_len ?r = 2"
    and "row_values ?r = [CV_Int 7, CV_Null]"
    by (simp_all add: row_columns_def row_len_def row_from_tds_def row_from_schema_def row_from_parts_def
      row_schema_from_metadata_def Let_def)
  with serde_visits_columns_in_order [of ?r Inr "\<lambda>_. Inr" "column_deserialize sample_serde Rq_i64"]
  show ?thesis
    by (simp add: cell_at_def visit_int_def unsupported_def sample_serde_def fits_signed_def numeral_2_eq_2)
qed

text \<open>A row access is a stream of cells with an exact size hint.\<close>

definition seq_poll :: "row_access \<Rightarrow> (column_de option \<times> row_access) option" where
  "seq_poll a = (case next_element_seed Inr a of (Inr v, a') \<Rightarrow> Some (v, a') | (Inl e, a') \<Rightarrow> None)"

interpretation seq_access: sized_stream seq_poll
  "\<lambda>a. map (cell_at (ra_row a)) [ra_idx a..<row_len (ra_row a)]"
  "\<lambda>a. ra_idx a \<le> row_len (ra_row a)"
  "\<lambda>a. (the (access_size_hint a), access_size_hint a)"
proof unfold_locales
  fix a :: row_access and x xs
  assume "map (cell_at (ra_row a)) [ra_idx a..<row_len (ra_row a)] = x # xs"
  moreover from this have "ra_idx a < row_len (ra_row a)" by (cases "ra_idx a < row_len (ra_row a)") auto
  ultimately show "\<exists>s'. seq_poll a = Some (Some x, s') \<and> ra_idx s' \<le> row_len (ra_row s') \<and>
      map (cell_at (ra_row s')) [ra_idx s'..<row_len (ra_row s')] = xs"
    by (auto simp: seq_poll_def next_element_seed_def cell_de_cases upt_conv_Cons)
qed (auto simp: seq_poll_def next_element_seed_def access_size_hint_def)

end
