(* ===== verification/QueryToValues.thy ===== *)
theory QueryToValues
  imports ClientModel SerdeModel
begin

text \<open>
  The composition of the client, the row writer and the deserializer: what
  \<open>client.query(..).await?.result_sets\<close> followed by \<open>Row::deserialize\<close> yields, from the cells
  the server sent.
\<close>

text \<open>A cell as the deserializer sees it: its text was decoded once, when the row was built.\<close>

definition sent_cell :: "tds_lib \<Rightarrow> column_values \<Rightarrow> column_de" where
  "sent_cell L v = \<lparr>cd_val = v, cd_decoded = decode_string L v\<rparr>"

text \<open>The specification: each column's name with its cell, in column order.\<close>

definition sent_entries ::
    "tds_lib \<Rightarrow> (string \<Rightarrow> error + 'k) \<Rightarrow> ('k \<Rightarrow> column_de \<Rightarrow> error + 'v) \<Rightarrow> column_metadata list
       \<Rightarrow> column_values list \<Rightarrow> error + ('k \<times> 'v) list" where
  "sent_entries L kseed vseed md vs =
     collect_ok (map (\<lambda>(m, v). and_then (kseed (col_name (column_from_tds m)))
       (\<lambda>k. map_ok (\<lambda>x. (k, x)) (vseed k (sent_cell L v)))) (zip md vs))"

fun sent_sets :: "tds_lib \<Rightarrow> reply list \<Rightarrow> (column_metadata list \<times> column_values list list) list" where
  "sent_sets L [] = []"
| "sent_sets L (R_rows md rows err # rest) = (md, map (written_values L) rows) # sent_sets L rest"
| "sent_sets L (_ # rest) = sent_sets L rest"

text \<open>The error a reply carries: the first one, of a statement or at the end of a result set.\<close>

fun reply_error :: "reply list \<Rightarrow> tds_error option" where
  "reply_error [] = None"
| "reply_error (R_norows _ # rest) = reply_error rest"
| "reply_error (R_error e # _) = Some e"
| "reply_error (R_rows _ _ (Some e) # _) = Some e"
| "reply_error (R_rows _ _ None # rest) = reply_error rest"

lemma reply_sets_error:
  "reply_error rs = Some e \<Longrightarrow> reply_sets L p i rs = Inl e"
  "reply_error rs = None \<Longrightarrow> \<exists>sets. reply_sets L p i rs = Inr sets"
proof -
  show "reply_error rs = Some e \<Longrightarrow> reply_sets L p i rs = Inl e"
    by (induction rs arbitrary: p i rule: reply_error.induct) simp_all
  show "reply_error rs = None \<Longrightarrow> \<exists>sets. reply_sets L p i rs = Inr sets"
  proof (induction rs arbitrary: p i rule: reply_error.induct)
    case (5 md rows rest)
    then obtain sets where "reply_sets L (Suc p) (Suc i) rest = Inr sets" by fastforce
    then show ?case by simp
  qed simp_all
qed

lemma reply_row_fields:
  "row_values (reply_row L (reply_schema p md) i calls) = written_values L calls"
  "row_columns (reply_row L (reply_schema p md) i calls) = map column_from_tds md"
  "cell_at (reply_row L (reply_schema p md) i calls) j =
     (if j < length (written_values L calls) then sent_cell L (written_values L calls ! j)
      else cell_at (reply_row L (reply_schema p md) i calls) j)"
  by (simp_all add: reply_row_def reply_schema_def row_from_schema_def row_from_parts_def row_columns_def
      row_schema_from_metadata_def Let_def cell_at_def sent_cell_def decoded_str_at_def nth_opt_def)

lemma reply_row_entries:
  assumes "length (written_values L calls) = length md"
  shows "visit_entries kseed vseed (access_new (reply_row L (reply_schema p md) i calls)) =
    sent_entries L kseed vseed md (written_values L calls)"
proof -
  let ?r = "reply_row L (reply_schema p md) i calls" and ?vs = "written_values L calls"
  have len: "row_len ?r = length ?vs" by (simp add: row_len_def reply_row_fields(1))
  then have w: "length (row_columns ?r) = row_len ?r" by (simp add: reply_row_fields(2) assms)
  have "entry_at kseed vseed ?r j = and_then (kseed (col_name (column_from_tds (md ! j))))
      (\<lambda>k. map_ok (\<lambda>x. (k, x)) (vseed k (sent_cell L (?vs ! j))))" if "j < length ?vs" for j
    using that assms by (simp add: entry_at_def reply_row_fields(2)) (subst reply_row_fields(3), simp)
  then have "map (entry_at kseed vseed ?r) [0..<length ?vs] =
      map (\<lambda>(m, v). and_then (kseed (col_name (column_from_tds m)))
        (\<lambda>k. map_ok (\<lambda>x. (k, x)) (vseed k (sent_cell L v)))) (zip md ?vs)"
    using assms by (intro nth_equalityI) simp_all
  then show ?thesis by (simp add: access_new_def visit_entries_from [OF w] len sent_entries_def)
qed

lemma reply_sets_entries:
  assumes "reply_sets L p i rs = Inr sets"
    and "\<And>md rows err calls. R_rows md rows err \<in> set rs \<Longrightarrow> calls \<in> set rows \<Longrightarrow>
      length (written_values L calls) = length md"
  shows "map (map (\<lambda>r. visit_entries kseed vseed (access_new r))) sets =
    map (\<lambda>(md, rows). map (sent_entries L kseed vseed md) rows) (sent_sets L rs)"
  using assms
proof (induction L p i rs arbitrary: sets rule: reply_sets.induct)
  case (4 L p i md rows err rest)
  from "4.prems"(1) obtain more where err: "err = None" and more: "reply_sets L (Suc p) (Suc i) rest = Inr more"
    and sets: "sets = map (reply_row L (reply_schema p md) i) rows # more"
    by (auto split: option.splits simp: map_ok_eq_Inr)
  have "visit_entries kseed vseed (access_new (reply_row L (reply_schema p md) i calls)) =
      sent_entries L kseed vseed md (written_values L calls)" if "calls \<in> set rows" for calls
    using that "4.prems"(2) [of md rows err calls] by (intro reply_row_entries) simp
  moreover have "map (map (\<lambda>r. visit_entries kseed vseed (access_new r))) more =
      map (\<lambda>(md, rows). map (sent_entries L kseed vseed md) rows) (sent_sets L rest)"
    using "4.prems"(2) by (intro "4.IH" [OF err more]) auto
  ultimately show ?case by (simp add: sets)
qed simp_all

text \<open>C4: from the server's cells to the caller's values. Deserializing every row of a query's
  result gives, for every result set and row the server sent and in that order, the pairs of
  each column's name and the value read from the very cell sent for it, its text decoded once
  by the driver's codec. The query fails exactly when the reply carries an error, whether a
  statement failed or the rows of a result set broke off, and with the first such error.\<close>

theorem queried_rows_deserialize:
  assumes "follows_script D L S" and "budget w = None"
    and "build_params_with_string_encoding params (send_string_parameters_as_unicode (conn w)) = Some rpc"
    and "answers D S (if params = [] then drv_execute D sql else drv_execute_sp_executesql D sql rpc)
           (inner (conn w)) rs"
    and "\<And>md rows err calls. R_rows md rows err \<in> set rs \<Longrightarrow> calls \<in> set rows \<Longrightarrow>
           length (written_values L calls) = length md"
  shows "\<exists>r w'. client_query D L sql params w = Some (Ret r, w') \<and>
    (case reply_error rs of
       Some e \<Rightarrow> r = Inl (Tds e)
     | None \<Rightarrow> \<exists>q. r = Inr q \<and>
         map (map (row_deserialize_into (\<lambda>row. visit_entries kseed vseed (access_new row)))) (result_sets q) =
         map (\<lambda>(md, rows). map (sent_entries L kseed vseed md) rows) (sent_sets L rs))"
proof -
  from client_query_script [OF assms(1-4)] obtain w' where w': "client_query D L sql params w =
      Some (Ret (map_err Tds (map_ok (\<lambda>ss. \<lparr>result_sets = ss\<rparr>) (reply_sets L (next_arc w) 0 rs))), w')" ..
  show ?thesis
  proof (cases "reply_error rs")
    case (Some e)
    with w' reply_sets_error(1) [OF Some] show ?thesis by simp
  next
    case None
    then obtain sets where sets: "reply_sets L (next_arc w) 0 rs = Inr sets" using reply_sets_error(2) by blast
    with w' None reply_sets_entries [OF sets assms(5)] show ?thesis by (simp add: row_deserialize_into_def [abs_def])
  qed
qed

theorem queried_rows_deserialize_witness:
  "\<exists>q w'. client_query (replay_driver sample_lib) sample_lib ''SELECT 7 AS a'' []
      (sample_world None [[R_rows [sample_meta ''a''] [[W_i32 0 7, W_end_row]] None]]) = Some (Ret (Inr q), w') \<and>
    map (map (row_deserialize_into (\<lambda>row. visit_entries Inr (\<lambda>_. column_deserialize sample_serde Rq_i64)
      (access_new row)))) (result_sets q) = [[Inr [(''a'', Visit_i64 7)]]]"
proof -
  let ?rs = "[R_rows [sample_meta ''a''] [[W_i32 0 7, W_end_row]] None]"
  let ?w = "sample_world None [?rs]"
  have "answers (replay_driver sample_lib) live_cursor
      (if [] = ([] :: dyn_to_sql list) then drv_execute (replay_driver sample_lib) ''SELECT 7 AS a''
       else drv_execute_sp_executesql (replay_driver sample_lib) ''SELECT 7 AS a'' [])
      (inner (conn ?w)) ?rs"
    by (simp add: answers_def sample_world_def sample_client_def replay_start_def replay_driver_def
        replay_request_def live_cursor_def)
  moreover have "length (written_values sample_lib calls) = length md"
    if "R_rows md rows err \<in> set ?rs" "calls \<in> set rows" for md rows err calls
    using that by simp
  moreover have "sent_entries sample_lib Inr (\<lambda>_. column_deserialize sample_serde Rq_i64) [sample_meta ''a''] [CV_Int 7] =
      Inr [(''a'', Visit_i64 7)]"
    by (simp add: sent_entries_def sent_cell_def visit_int_def fits_signed_def sample_meta_def column_from_tds_def)
  ultimately show ?thesis
    using queried_rows_deserialize [OF replay_follows_script, where w = ?w and params = "[]" and rpc = "[]"
        and sql = "''SELECT 7 AS a''" and rs = ?rs and kseed = Inr
        and vseed = "\<lambda>_. column_deserialize sample_serde Rq_i64"]
    by (force simp: sample_world_def build_params_with_string_encoding_def)
qed

end
