(* ===== verification/Gregorian.thy ===== *)
theory Gregorian
  imports Prelude
begin

text \<open>
  The proleptic Gregorian calendar as \<open>chrono\<close> documents it: days are counted from
  0001-01-01, which is day 1. The concrete calendar on which the laws of \<open>CalendarModel\<close>
  are shown to hold, and its inverse.
\<close>

definition leap_year :: "nat \<Rightarrow> bool" where
  "leap_year y \<longleftrightarrow> y mod 4 = 0 \<and> (y mod 100 \<noteq> 0 \<or> y mod 400 = 0)"

text \<open>The days of the first \<open>a\<close> years.\<close>

definition days_before :: "nat \<Rightarrow> nat" where
  "days_before a = 365 * a + a div 4 + a div 400 - a div 100"

lemma days_before_Suc: "days_before (Suc a) = days_before a + (if leap_year (Suc a) then 366 else 365)"
proof -
  let ?x = "Suc a"
  have le: "x div 100 \<le> 365 * x + x div 4 + x div 400" for x :: nat
    using div_le_dividend [of x 100] by linarith
  have sum: "days_before x + x div 100 = 365 * x + x div 4 + x div 400" for x :: nat
    using le [of x] by (simp add: days_before_def)
  have "?x mod 400 = 0 \<Longrightarrow> ?x mod 100 = 0" and "?x mod 100 = 0 \<Longrightarrow> ?x mod 4 = 0" by presburger+
  then have "?x div 4 + ?x div 400 + a div 100 =
      a div 4 + a div 400 + ?x div 100 + (if leap_year ?x then 1 else 0)"
    unfolding leap_year_def div_Suc by auto
  then show ?thesis using sum [of a] sum [of ?x] by (auto split: if_splits)
qed

text \<open>Up to two days, a year has 146097/400 days.\<close>

lemma days_before_bounds:
  "400 * days_before a \<le> 146097 * a + 396" "146097 * a \<le> 400 * days_before a + 699"
proof -
  have "4 * (a div 4) + a mod 4 = a" "100 * (a div 100) + a mod 100 = a" "400 * (a div 400) + a mod 400 = a"
    by simp_all
  moreover have "a mod 4 \<le> 3" "a mod 100 \<le> 99" "a mod 400 \<le> 399"
    using mod_less_divisor [of 4 a] mod_less_divisor [of 100 a] mod_less_divisor [of 400 a] by simp_all
  moreover have "days_before a + a div 100 = 365 * a + a div 4 + a div 400"
    using div_le_dividend [of a 100] by (simp add: days_before_def)
  ultimately show "400 * days_before a \<le> 146097 * a + 396" "146097 * a \<le> 400 * days_before a + 699"
    by linarith+
qed

definition years_of_day :: "nat \<Rightarrow> nat" where
  "years_of_day n =
     (let a = 400 * (n - 1) div 146097 in if days_before (Suc a) < n then Suc a else a)"

lemma years_of_day:
  assumes "0 < n"
  shows "days_before (years_of_day n) < n" "n \<le> days_before (Suc (years_of_day n))"
proof -
  define a where "a = 400 * (n - 1) div 146097"
  have "146097 * a + 400 * (n - 1) mod 146097 = 400 * (n - 1)" by (simp add: a_def)
  moreover have "400 * (n - 1) mod 146097 < 146097" by simp
  ultimately have a: "146097 * a \<le> 400 * (n - 1)" "400 * (n - 1) < 146097 * Suc a" by simp_all
  have l: "days_before a < n" using a(1) days_before_bounds(1) [of a] assms by linarith
  have u: "n \<le> days_before (Suc (Suc a))"
    using a(2) days_before_bounds(2) [of "Suc (Suc a)"] assms by simp
  have y: "years_of_day n = (if days_before (Suc a) < n then Suc a else a)"
    by (simp add: years_of_day_def a_def Let_def)
  show "days_before (years_of_day n) < n" "n \<le> days_before (Suc (years_of_day n))"
    using l u by (simp_all add: y)
qed

definition month_len :: "bool \<Rightarrow> nat \<Rightarrow> nat" where
  "month_len lp m =
     (if m = 2 then (if lp then 29 else 28)
      else if m = 4 \<or> m = 6 \<or> m = 9 \<or> m = 11 then 30 else 31)"

fun before_month :: "bool \<Rightarrow> nat \<Rightarrow> nat" where
  "before_month lp 0 = 0"
| "before_month lp (Suc m) = before_month lp m + (if m = 0 then 0 else month_len lp m)"

text \<open>The month and the day of a day \<open>r\<close> counted from the start of month \<open>m\<close>.\<close>

function find_month :: "bool \<Rightarrow> nat \<Rightarrow> nat \<Rightarrow> nat \<times> nat" where
  "find_month lp m r =
     (if 12 \<le> m \<or> r \<le> month_len lp m then (m, r) else find_month lp (Suc m) (r - month_len lp m))"
  by pat_completeness auto
termination by (relation "measure (\<lambda>(lp, m, r). 12 - m)") auto

declare find_month.simps [simp del]

lemma before_month_12: "before_month lp 12 = (if lp then 335 else 334)"
  by (simp add: numeral_eq_Suc month_len_def)

lemma find_month:
  assumes "1 \<le> m" "m \<le> 12" "1 \<le> r" "before_month lp m + r \<le> (if lp then 366 else 365)"
    and "find_month lp m r = (m', d)"
  shows "before_month lp m' + d = before_month lp m + r \<and> 1 \<le> m' \<and> m' \<le> 12 \<and> 1 \<le> d \<and> d \<le> month_len lp m'"
  using assms
proof (induction lp m r rule: find_month.induct)
  case (1 lp m r)
  show ?case
  proof (cases "12 \<le> m \<or> r \<le> month_len lp m")
    case True
    with 1 have e: "m' = m" "d = r" by (simp_all add: find_month.simps [of lp m r])
    have "r \<le> month_len lp m"
    proof (cases "12 \<le> m")
      case True
      with 1 have "m = 12" by simp
      with 1 show ?thesis by (simp add: before_month_12 month_len_def split: if_splits)
    qed (use \<open>12 \<le> m \<or> r \<le> month_len lp m\<close> in simp)
    with 1 e show ?thesis by simp
  next
    case False
    then have s: "1 \<le> Suc m" "Suc m \<le> 12" "1 \<le> r - month_len lp m" by linarith+
    have b: "before_month lp (Suc m) + (r - month_len lp m) = before_month lp m + r"
      using False 1(2) by simp
    have "find_month lp (Suc m) (r - month_len lp m) = (m', d)"
      using 1(6) False by (simp add: find_month.simps [of lp m r])
    from 1(1) [OF False s _ this] b 1(5) show ?thesis by simp
  qed
qed

definition greg_date :: "nat \<Rightarrow> nat \<times> nat \<times> nat" where
  "greg_date n =
     (let a = years_of_day n in (Suc a, find_month (leap_year (Suc a)) 1 (n - days_before a)))"

definition greg_days :: "nat \<Rightarrow> nat \<Rightarrow> nat \<Rightarrow> nat option" where
  "greg_days y m d =
     (if 1 \<le> y \<and> 1 \<le> m \<and> m \<le> 12 \<and> 1 \<le> d \<and> d \<le> month_len (leap_year y) m
      then Some (days_before (y - 1) + before_month (leap_year y) m + d) else None)"

lemma greg_days_of_date:
  assumes "0 < n" and "greg_date n = (y, m, d)"
  shows "greg_days y m d = Some n"
proof -
  note y = years_of_day [OF assms(1)]
  let ?a = "years_of_day n" and ?lp = "leap_year y"
  have e: "y = Suc ?a" and f: "find_month ?lp 1 (n - days_before ?a) = (m, d)"
    using assms(2) by (auto simp: greg_date_def Let_def)
  have "n \<le> days_before ?a + (if ?lp then 366 else 365)" using y(2) by (simp add: days_before_Suc e)
  then have "before_month ?lp 1 + (n - days_before ?a) \<le> (if ?lp then 366 else 365)"
    and "1 \<le> n - days_before ?a" using y(1) by (auto simp: numeral_eq_Suc split: if_splits)
  from find_month [OF _ _ this(2,1) f] have "before_month ?lp m + d = n - days_before ?a"
    "1 \<le> m" "m \<le> 12" "1 \<le> d" "d \<le> month_len ?lp m" by simp_all
  with y(1) show ?thesis by (simp add: greg_days_def e)
qed

lemma days_before_mono: "a \<le> b \<Longrightarrow> days_before a \<le> days_before b"
  by (rule lift_Suc_mono_le [of days_before]) (simp_all add: days_before_Suc)

lemma greg_date_range:
  assumes "0 < n" and "n \<le> 3652059" and "greg_date n = (y, m, d)"
  shows "1 \<le> y" "y \<le> 9999" "1 \<le> m" "m \<le> 12" "1 \<le> d" "d \<le> 31"
proof -
  note g = greg_days_of_date [OF assms(1,3)]
  have "\<not> 9999 \<le> years_of_day n"
    using days_before_mono [of 9999 "years_of_day n"] years_of_day(1) [OF assms(1)] assms(2)
    by (auto simp: days_before_def [of 9999])
  with assms(3) show "1 \<le> y" "y \<le> 9999" by (auto simp: greg_date_def Let_def)
  from g show "1 \<le> m" "m \<le> 12" "1 \<le> d" "d \<le> 31"
    by (auto simp: greg_days_def month_len_def split: if_splits)
qed

end
