(* ===== verification/CalendarModel.thy ===== *)
theory CalendarModel
  imports CompatConv
begin

text \<open>
  The optional conversions of the \<open>time\<close> and \<open>jiff\<close> crates: \<open>time_to_sql\<close> and \<open>jiff_to_sql\<close>
  of \<open>query.rs\<close>, \<open>time_from_sql\<close> and \<open>jiff_from_sql\<close> of \<open>row.rs\<close> and their entries in the
  tables of \<open>compat/conversion.rs\<close>. All of them go through \<open>chrono\<close>. The values of the two
  crates are their public fields; an instant with an offset is its UTC part and the offset,
  as for \<open>chrono\<close>. An encoder that panics is \<open>None\<close>.
\<close>

section \<open>Values and functions of the crates\<close>

text \<open>Calendar accessors of \<open>chrono\<close>; the clock fields are those of the seconds of the day.\<close>

record calendar_lib =
  cal_year :: "naive_date \<Rightarrow> i32"
  cal_month :: "naive_date \<Rightarrow> u32"
  cal_day :: "naive_date \<Rightarrow> u32"
  cal_timestamp :: "datetime_fixed \<Rightarrow> i64"
  cal_subsec_nanos :: "datetime_fixed \<Rightarrow> u32"

definition chrono_hour :: "naive_time \<Rightarrow> u32" where
  "chrono_hour t = num_seconds_from_midnight t div 3600"

definition chrono_minute :: "naive_time \<Rightarrow> u32" where
  "chrono_minute t = num_seconds_from_midnight t div 60 mod 60"

definition chrono_second :: "naive_time \<Rightarrow> u32" where
  "chrono_second t = num_seconds_from_midnight t mod 60"

datatype time_date = TimeDate (td_year: i32) (td_month: u8) (td_day: u8)

datatype time_time = TimeTime (tt_hour: u8) (tt_minute: u8) (tt_second: u8) (tt_nanosecond: u32)

datatype primitive_date_time = PrimitiveDateTime (pdt_date: time_date) (pdt_time: time_time)

datatype offset_date_time = OffsetDateTime (odt_utc: primitive_date_time) (odt_whole_seconds: i32)

text \<open>\<open>to_offset\<close> moves an instant to another offset; \<open>None\<close> is its panic.\<close>

record time_lib =
  tl_month_try_from :: "u8 \<Rightarrow> u8 option"
  tl_from_calendar_date :: "i32 \<Rightarrow> u8 \<Rightarrow> u8 \<Rightarrow> time_date option"
  tl_from_hms_nano :: "u8 \<Rightarrow> u8 \<Rightarrow> u8 \<Rightarrow> u32 \<Rightarrow> time_time option"
  tl_from_whole_seconds :: "i32 \<Rightarrow> i32 option"
  tl_to_offset :: "primitive_date_time \<Rightarrow> i32 \<Rightarrow> offset_date_time option"

type_synonym i8 = "8 word"

datatype civil_date = CivilDate (cv_year: i16) (cv_month: i8) (cv_day: i8)

datatype civil_time = CivilTime (cv_hour: i8) (cv_minute: i8) (cv_second: i8) (cv_subsec_nanosecond: i32)

datatype civil_datetime = CivilDateTime (cv_date: civil_date) (cv_time: civil_time)

datatype timestamp = Timestamp (ts_second: i64) (ts_nanosecond: i32)

datatype zoned = Zoned (zn_timestamp: timestamp) (zn_offset_seconds: i32)

record jiff_lib =
  jl_date_new :: "i16 \<Rightarrow> i8 \<Rightarrow> i8 \<Rightarrow> civil_date option"
  jl_time_new :: "i8 \<Rightarrow> i8 \<Rightarrow> i8 \<Rightarrow> i32 \<Rightarrow> civil_time option"
  jl_timestamp_new :: "i64 \<Rightarrow> i32 \<Rightarrow> timestamp option"
  jl_utc_datetime :: "timestamp \<Rightarrow> civil_datetime"
  jl_offset_from_seconds :: "i32 \<Rightarrow> i32 option"

section \<open>Encoding: time\<close>

text \<open>The chain of \<open>date_to_sql\<close>: a \<open>chrono\<close> date, its day number, an SQL date.\<close>

definition ymd_to_sql :: "tds_lib \<Rightarrow> chrono_lib \<Rightarrow> i32 \<Rightarrow> u32 \<Rightarrow> u32 \<Rightarrow> sql_date option" where
  "ymd_to_sql L C y m d =
     Option.bind (from_ymd_opt C y m d) (\<lambda>chrono_date.
       let days = sint (num_days_from_ce chrono_date) - 1
       in if fits_unsigned 32 days
          then (case date_create L (word_of_int days) of Inl e \<Rightarrow> None | Inr sd \<Rightarrow> Some sd)
          else None)"

definition time_date_to_sql :: "tds_lib \<Rightarrow> chrono_lib \<Rightarrow> time_date \<Rightarrow> sql_date option" where
  "time_date_to_sql L C d = ymd_to_sql L C (td_year d) (ucast (td_month d)) (ucast (td_day d))"

definition time_time_to_sql :: "time_time \<Rightarrow> sql_time" where
  "time_time_to_sql t =
     (let nanos_since_midnight =
        (ucast (tt_hour t) :: u64) * 3600000000000 + ucast (tt_minute t) * 60000000000
        + ucast (tt_second t) * 1000000000 + ucast (tt_nanosecond t)
      in \<lparr>time_nanoseconds = nanos_since_midnight div 100, st_scale = DEFAULT_VARTIME_SCALE\<rparr>)"

definition primitive_dt_to_sql :: "tds_lib \<Rightarrow> chrono_lib \<Rightarrow> primitive_date_time \<Rightarrow> sql_datetime2 option" where
  "primitive_dt_to_sql L C dt =
     map_option (\<lambda>d. \<lparr>dt2_days = get_days d, dt2_time = time_time_to_sql (pdt_time dt)\<rparr>)
       (time_date_to_sql L C (pdt_date dt))"

definition to_sql_time_date :: "tds_lib \<Rightarrow> chrono_lib \<Rightarrow> time_date \<Rightarrow> sql_type option" where
  "to_sql_time_date L C d = map_option (\<lambda>x. ST_Date (Some x)) (time_date_to_sql L C d)"

definition to_sql_time_time :: "time_time \<Rightarrow> sql_type" where
  "to_sql_time_time t = ST_Time (Some (time_time_to_sql t))"

definition to_sql_primitive_dt :: "tds_lib \<Rightarrow> chrono_lib \<Rightarrow> primitive_date_time \<Rightarrow> sql_type option" where
  "to_sql_primitive_dt L C dt = map_option (\<lambda>x. ST_DateTime2 (Some x)) (primitive_dt_to_sql L C dt)"

definition to_sql_offset_dt :: "tds_lib \<Rightarrow> chrono_lib \<Rightarrow> time_lib \<Rightarrow> offset_date_time \<Rightarrow> sql_type option" where
  "to_sql_offset_dt L C T x =
     Option.bind (tl_to_offset T (odt_utc x) 0) (\<lambda>utc.
       map_option
         (\<lambda>dt2. ST_DateTimeOffset (Some
            \<lparr>dto_datetime2 = dt2,
             dto_offset = (word_of_int (quot_int (sint (odt_whole_seconds x)) 60) :: i16)\<rparr>))
         (primitive_dt_to_sql L C (odt_utc utc)))"

section \<open>Encoding: jiff\<close>

text \<open>\<open>u32::try_from\<close> and \<open>u64::try_from\<close> with \<open>expect\<close>.\<close>

definition try_unsigned :: "int \<Rightarrow> 'a::len word option" where
  "try_unsigned i = (if fits_unsigned LENGTH('a) i then Some (word_of_int i) else None)"

definition jiff_date_to_sql :: "tds_lib \<Rightarrow> chrono_lib \<Rightarrow> civil_date \<Rightarrow> sql_date option" where
  "jiff_date_to_sql L C d =
     Option.bind (try_unsigned (sint (cv_month d))) (\<lambda>m.
     Option.bind (try_unsigned (sint (cv_day d))) (\<lambda>dd.
       ymd_to_sql L C (scast (cv_year d)) m dd))"

definition jiff_time_to_sql :: "civil_time \<Rightarrow> sql_time option" where
  "jiff_time_to_sql t =
     Option.bind (try_unsigned (sint (cv_hour t))) (\<lambda>h :: u64.
     Option.bind (try_unsigned (sint (cv_minute t))) (\<lambda>m :: u64.
     Option.bind (try_unsigned (sint (cv_second t))) (\<lambda>s :: u64.
     Option.bind (try_unsigned (sint (cv_subsec_nanosecond t))) (\<lambda>n :: u64.
       let nanos_since_midnight = h * 3600000000000 + m * 60000000000 + s * 1000000000 + n
       in Some \<lparr>time_nanoseconds = nanos_since_midnight div 100, st_scale = DEFAULT_VARTIME_SCALE\<rparr>))))"

definition jiff_datetime_to_sql :: "tds_lib \<Rightarrow> chrono_lib \<Rightarrow> civil_datetime \<Rightarrow> sql_datetime2 option" where
  "jiff_datetime_to_sql L C dt =
     Option.bind (jiff_date_to_sql L C (cv_date dt)) (\<lambda>d.
       map_option (\<lambda>t. \<lparr>dt2_days = get_days d, dt2_time = t\<rparr>) (jiff_time_to_sql (cv_time dt)))"

definition timestamp_to_sql ::
    "tds_lib \<Rightarrow> chrono_lib \<Rightarrow> jiff_lib \<Rightarrow> timestamp \<Rightarrow> i16 \<Rightarrow> sql_datetimeoffset option" where
  "timestamp_to_sql L C J ts offset_minutes =
     map_option (\<lambda>dt2. \<lparr>dto_datetime2 = dt2, dto_offset = offset_minutes\<rparr>)
       (jiff_datetime_to_sql L C (jl_utc_datetime J ts))"

definition to_sql_civil_date :: "tds_lib \<Rightarrow> chrono_lib \<Rightarrow> civil_date \<Rightarrow> sql_type option" where
  "to_sql_civil_date L C d = map_option (\<lambda>x. ST_Date (Some x)) (jiff_date_to_sql L C d)"

definition to_sql_civil_time :: "civil_time \<Rightarrow> sql_type option" where
  "to_sql_civil_time t = map_option (\<lambda>x. ST_Time (Some x)) (jiff_time_to_sql t)"

definition to_sql_civil_datetime :: "tds_lib \<Rightarrow> chrono_lib \<Rightarrow> civil_datetime \<Rightarrow> sql_type option" where
  "to_sql_civil_datetime L C dt = map_option (\<lambda>x. ST_DateTime2 (Some x)) (jiff_datetime_to_sql L C dt)"

definition to_sql_timestamp :: "tds_lib \<Rightarrow> chrono_lib \<Rightarrow> jiff_lib \<Rightarrow> timestamp \<Rightarrow> sql_type option" where
  "to_sql_timestamp L C J ts = map_option (\<lambda>x. ST_DateTimeOffset (Some x)) (timestamp_to_sql L C J ts 0)"

definition to_sql_zoned :: "tds_lib \<Rightarrow> chrono_lib \<Rightarrow> jiff_lib \<Rightarrow> zoned \<Rightarrow> sql_type option" where
  "to_sql_zoned L C J z =
     map_option (\<lambda>x. ST_DateTimeOffset (Some x))
       (timestamp_to_sql L C J (zn_timestamp z)
          (word_of_int (quot_int (sint (zn_offset_seconds z)) 60)))"

section \<open>Decoding: time\<close>

definition time_date_from_chrono :: "calendar_lib \<Rightarrow> time_lib \<Rightarrow> naive_date \<Rightarrow> time_date option" where
  "time_date_from_chrono K T date =
     Option.bind (tl_month_try_from T (ucast (cal_month K date))) (\<lambda>m.
       tl_from_calendar_date T (cal_year K date) m (ucast (cal_day K date)))"

definition time_time_from_chrono :: "time_lib \<Rightarrow> naive_time \<Rightarrow> time_time option" where
  "time_time_from_chrono T t =
     tl_from_hms_nano T (ucast (chrono_hour t)) (ucast (chrono_minute t)) (ucast (chrono_second t)) (nanosecond t)"

definition primitive_from_chrono :: "calendar_lib \<Rightarrow> time_lib \<Rightarrow> naive_datetime \<Rightarrow> primitive_date_time option" where
  "primitive_from_chrono K T dt =
     Option.bind (time_date_from_chrono K T (ndt_date dt)) (\<lambda>d.
     Option.bind (time_time_from_chrono T (ndt_time dt)) (\<lambda>t. Some (PrimitiveDateTime d t)))"

definition from_sql_time_date :: "chrono_lib \<Rightarrow> calendar_lib \<Rightarrow> time_lib \<Rightarrow> column_values \<Rightarrow> time_date option" where
  "from_sql_time_date C K T v = Option.bind (from_sql_naive_date C v) (time_date_from_chrono K T)"

definition from_sql_time_time :: "chrono_lib \<Rightarrow> time_lib \<Rightarrow> column_values \<Rightarrow> time_time option" where
  "from_sql_time_time C T v = Option.bind (from_sql_naive_time C v) (time_time_from_chrono T)"

definition from_sql_primitive_dt ::
    "chrono_lib \<Rightarrow> calendar_lib \<Rightarrow> time_lib \<Rightarrow> column_values \<Rightarrow> primitive_date_time option" where
  "from_sql_primitive_dt C K T v = Option.bind (from_sql_naive_datetime C v) (primitive_from_chrono K T)"

text \<open>The outer option is the panic of \<open>to_offset\<close>.\<close>

definition from_sql_offset_dt ::
    "chrono_lib \<Rightarrow> calendar_lib \<Rightarrow> time_lib \<Rightarrow> column_values \<Rightarrow> offset_date_time option option" where
  "from_sql_offset_dt C K T v =
     (case from_sql_datetime_fixed C v of
        None \<Rightarrow> Some None
      | Some dt \<Rightarrow>
          (case tl_from_whole_seconds T (local_minus_utc dt) of
             None \<Rightarrow> Some None
           | Some offset \<Rightarrow>
               (case primitive_from_chrono K T (naive_utc dt) of
                  None \<Rightarrow> Some None
                | Some utc \<Rightarrow> map_option Some (tl_to_offset T utc offset))))"

section \<open>Decoding: jiff\<close>

definition jiff_date_from_chrono :: "calendar_lib \<Rightarrow> jiff_lib \<Rightarrow> naive_date \<Rightarrow> civil_date option" where
  "jiff_date_from_chrono K J date =
     jl_date_new J (ucast (cal_year K date)) (ucast (cal_month K date)) (ucast (cal_day K date))"

definition jiff_time_from_chrono :: "jiff_lib \<Rightarrow> naive_time \<Rightarrow> civil_time option" where
  "jiff_time_from_chrono J t =
     jl_time_new J (ucast (chrono_hour t)) (ucast (chrono_minute t)) (ucast (chrono_second t)) (ucast (nanosecond t))"

text \<open>\<open>civil::DateTime::new\<close> is \<open>Date::new\<close> and \<open>Time::new\<close> together.\<close>

definition jiff_datetime_from_chrono :: "calendar_lib \<Rightarrow> jiff_lib \<Rightarrow> naive_datetime \<Rightarrow> civil_datetime option" where
  "jiff_datetime_from_chrono K J dt =
     Option.bind (jl_date_new J (ucast (cal_year K (ndt_date dt))) (ucast (cal_month K (ndt_date dt)))
       (ucast (cal_day K (ndt_date dt)))) (\<lambda>d.
     Option.bind (jl_time_new J (ucast (chrono_hour (ndt_time dt))) (ucast (chrono_minute (ndt_time dt)))
       (ucast (chrono_second (ndt_time dt))) (ucast (nanosecond (ndt_time dt)))) (\<lambda>t.
       Some (CivilDateTime d t)))"

definition from_sql_civil_date :: "chrono_lib \<Rightarrow> calendar_lib \<Rightarrow> jiff_lib \<Rightarrow> column_values \<Rightarrow> civil_date option" where
  "from_sql_civil_date C K J v = Option.bind (from_sql_naive_date C v) (jiff_date_from_chrono K J)"

definition from_sql_civil_time :: "chrono_lib \<Rightarrow> jiff_lib \<Rightarrow> column_values \<Rightarrow> civil_time option" where
  "from_sql_civil_time C J v = Option.bind (from_sql_naive_time C v) (jiff_time_from_chrono J)"

definition from_sql_civil_datetime ::
    "chrono_lib \<Rightarrow> calendar_lib \<Rightarrow> jiff_lib \<Rightarrow> column_values \<Rightarrow> civil_datetime option" where
  "from_sql_civil_datetime C K J v = Option.bind (from_sql_naive_datetime C v) (jiff_datetime_from_chrono K J)"

definition from_sql_timestamp ::
    "chrono_lib \<Rightarrow> calendar_lib \<Rightarrow> jiff_lib \<Rightarrow> column_values \<Rightarrow> timestamp option" where
  "from_sql_timestamp C K J v =
     Option.bind (from_sql_datetime_fixed C v) (\<lambda>dt.
       jl_timestamp_new J (cal_timestamp K dt) (ucast (cal_subsec_nanos K dt)))"

definition from_sql_zoned :: "chrono_lib \<Rightarrow> calendar_lib \<Rightarrow> jiff_lib \<Rightarrow> column_values \<Rightarrow> zoned option" where
  "from_sql_zoned C K J v =
     Option.bind (from_sql_datetime_fixed C v) (\<lambda>dt.
     Option.bind (jl_timestamp_new J (cal_timestamp K dt) (ucast (cal_subsec_nanos K dt))) (\<lambda>ts.
     Option.bind (jl_offset_from_seconds J (local_minus_utc dt)) (\<lambda>offset.
       Some (Zoned ts offset))))"

section \<open>Compat tables\<close>

text \<open>The cells the compat readers of the two crates accept.\<close>

definition accepts_time_date :: "column_data \<Rightarrow> bool" where
  "accepts_time_date d = (case d of CD_Date _ \<Rightarrow> True | _ \<Rightarrow> False)"

definition accepts_time_time :: "column_data \<Rightarrow> bool" where
  "accepts_time_time d = (case d of CD_Time _ \<Rightarrow> True | _ \<Rightarrow> False)"

definition accepts_primitive_dt :: "column_data \<Rightarrow> bool" where
  "accepts_primitive_dt d =
     (case d of CD_DateTime _ \<Rightarrow> True | CD_SmallDateTime _ \<Rightarrow> True | CD_DateTime2 _ \<Rightarrow> True | _ \<Rightarrow> False)"

definition accepts_offset_dt :: "column_data \<Rightarrow> bool" where
  "accepts_offset_dt d = (case d of CD_DateTimeOffset _ \<Rightarrow> True | _ \<Rightarrow> False)"

section \<open>Clock arithmetic\<close>

lemma unat_small_cast:
  "unat (x :: 'a::len word) < 2 ^ LENGTH('b) \<Longrightarrow> unat (ucast x :: 'b::len word) = unat x"
  by (simp add: unsigned_ucast_eq take_bit_nat_eq_self)

lemma sint_small_cast:
  assumes "int (unat (x :: 'a::len word)) < 2 ^ (LENGTH('b) - 1)"
  shows "sint (ucast x :: 'b::len word) = int (unat x)"
proof -
  have "- (2 ^ (LENGTH('b) - 1)) \<le> (0::int)" by simp
  then have "- (2 ^ (LENGTH('b) - 1)) \<le> int (unat x)" by linarith
  with assms have "fits_signed LENGTH('b) (int (unat x))" unfolding fits_signed_def by blast
  then have "sint (word_of_int (int (unat x)) :: 'b word) = int (unat x)" by (rule sint_of_fitting)
  moreover have "int (unat x) = uint x" by (rule uint_nat [symmetric])
  ultimately show ?thesis by (simp only: ucast_eq)
qed

lemma clock_split: "x div 3600 * 3600 + x div 60 mod 60 * 60 + x mod 60 = x" for x :: nat
proof -
  have "x div 3600 * 3600 = x div 60 div 60 * 60 * 60" by (simp add: div_mult2_eq [symmetric])
  then have "x div 3600 * 3600 + x div 60 mod 60 * 60 = (x div 60 div 60 * 60 + x div 60 mod 60) * 60"
    by (simp only: add_mult_distrib)
  also have "\<dots> = x div 60 * 60" by (simp only: div_mult_mod_eq)
  finally show ?thesis by (simp only: div_mult_mod_eq)
qed

lemma clock_parts:
  assumes "wf_time t"
  shows "unat (chrono_hour t) < 24" "unat (chrono_minute t) < 60" "unat (chrono_second t) < 60"
    "unat (chrono_hour t) * 3600 + unat (chrono_minute t) * 60 + unat (chrono_second t) =
       unat (num_seconds_from_midnight t)"
proof -
  let ?s = "unat (num_seconds_from_midnight t)"
  have s: "?s < 86400" using assms by (simp add: wf_time_def)
  have h: "unat (chrono_hour t) = ?s div 3600" by (simp add: chrono_hour_def unat_div)
  have m: "unat (chrono_minute t) = ?s div 60 mod 60" by (simp add: chrono_minute_def unat_div unat_mod)
  have c: "unat (chrono_second t) = ?s mod 60" by (simp add: chrono_second_def unat_mod)
  show "unat (chrono_hour t) < 24" using s by (simp add: h)
  show "unat (chrono_minute t) < 60" "unat (chrono_second t) < 60" by (simp_all add: m c)
  show "unat (chrono_hour t) * 3600 + unat (chrono_minute t) * 60 + unat (chrono_second t) = ?s"
    unfolding h m c by (rule clock_split)
qed

lemma u64_sum: "unat a = x \<Longrightarrow> unat b = y \<Longrightarrow> x + y < 2 ^ 64 \<Longrightarrow> unat (a + b :: u64) = x + y"
  by (subst unat_add_bound) simp_all

lemma u64_scaled: "unat a = x \<Longrightarrow> unat k = y \<Longrightarrow> x * y < 2 ^ 64 \<Longrightarrow> unat (a * k :: u64) = x * y"
  by (subst unat_mul_bound) simp_all

text \<open>The nanoseconds of the day computed from the clock fields are those \<open>chrono\<close> gives.\<close>

lemma clock_nanos:
  fixes h m s n :: u64
  assumes "wf_time t" and "unat h = unat (chrono_hour t)" and "unat m = unat (chrono_minute t)"
    and "unat s = unat (chrono_second t)" and "unat n = unat (nanosecond t)"
  shows "h * 3600000000000 + m * 60000000000 + s * 1000000000 + n =
    ucast (num_seconds_from_midnight t) * 1000000000 + ucast (nanosecond t)"
proof (rule unsigned_word_eqI)
  define H M S N Q where "H = unat (chrono_hour t)" and "M = unat (chrono_minute t)"
    and "S = unat (chrono_second t)" and "N = unat (nanosecond t)" and "Q = unat (num_seconds_from_midnight t)"
  have b: "H < 24" "M < 60" "S < 60" "H * 3600 + M * 60 + S = Q" "N < 1000000000" "Q < 86400"
    using clock_parts [OF assms(1)] assms(1) by (simp_all add: H_def M_def S_def N_def Q_def wf_time_def)
  have parts: "unat h = H" "unat m = M" "unat s = S" "unat n = N"
    using assms(2-5) by (simp_all add: H_def M_def S_def N_def)
  have "unat (h * 3600000000000) = H * 3600000000000"
    by (rule u64_scaled [OF parts(1)]) (use b in simp_all)
  moreover have "unat (m * 60000000000) = M * 60000000000"
    by (rule u64_scaled [OF parts(2)]) (use b in simp_all)
  ultimately have hm: "unat (h * 3600000000000 + m * 60000000000) = H * 3600000000000 + M * 60000000000"
    by (rule u64_sum) (use b in simp)
  moreover have "unat (s * 1000000000) = S * 1000000000"
    by (rule u64_scaled [OF parts(3)]) (use b in simp_all)
  ultimately have "unat (h * 3600000000000 + m * 60000000000 + s * 1000000000) =
      H * 3600000000000 + M * 60000000000 + S * 1000000000"
    by (rule u64_sum) (use b in simp)
  then have l: "unat (h * 3600000000000 + m * 60000000000 + s * 1000000000 + n) =
      H * 3600000000000 + M * 60000000000 + S * 1000000000 + N"
    using parts(4) by (rule u64_sum) (use b in simp)
  have "unat (ucast (num_seconds_from_midnight t) * 1000000000 :: u64) = Q * 1000000000"
    by (rule u64_scaled) (use b in \<open>simp_all add: unat_ucast_wider Q_def\<close>)
  then have r: "unat (ucast (num_seconds_from_midnight t) * 1000000000 + ucast (nanosecond t) :: u64) =
      Q * 1000000000 + N"
    by (rule u64_sum) (use b in \<open>simp_all add: unat_ucast_wider N_def\<close>)
  from l r b(4) show "unat (h * 3600000000000 + m * 60000000000 + s * 1000000000 + n) =
      unat (ucast (num_seconds_from_midnight t) * 1000000000 + ucast (nanosecond t) :: u64)"
    by linarith
qed

section \<open>Laws of the crates\<close>

text \<open>The calendar fields of a date in SQL Server's range lead back to it, and are in the ranges
  of months and days; the two crates accept the fields of every such date and of every time
  of day.\<close>

definition calendar_law :: "chrono_lib \<Rightarrow> calendar_lib \<Rightarrow> bool" where
  "calendar_law C K \<longleftrightarrow>
     (\<forall>d. wf_date d \<longrightarrow>
        from_ymd_opt C (cal_year K d) (cal_month K d) (cal_day K d) = Some d \<and>
        1 \<le> sint (cal_year K d) \<and> sint (cal_year K d) \<le> 9999 \<and>
        1 \<le> unat (cal_month K d) \<and> unat (cal_month K d) \<le> 12 \<and>
        1 \<le> unat (cal_day K d) \<and> unat (cal_day K d) \<le> 31)"

definition time_law :: "calendar_lib \<Rightarrow> time_lib \<Rightarrow> bool" where
  "time_law K T \<longleftrightarrow>
     (\<forall>m. 1 \<le> unat m \<and> unat m \<le> 12 \<longrightarrow> tl_month_try_from T m = Some m) \<and>
     (\<forall>d. wf_date d \<longrightarrow>
        tl_from_calendar_date T (cal_year K d) (ucast (cal_month K d)) (ucast (cal_day K d)) =
          Some (TimeDate (cal_year K d) (ucast (cal_month K d)) (ucast (cal_day K d)))) \<and>
     (\<forall>h m s n. unat h < 24 \<and> unat m < 60 \<and> unat s < 60 \<and> unat n < 1000000000 \<longrightarrow>
        tl_from_hms_nano T h m s n = Some (TimeTime h m s n))"

definition jiff_law :: "calendar_lib \<Rightarrow> jiff_lib \<Rightarrow> bool" where
  "jiff_law K J \<longleftrightarrow>
     (\<forall>d. wf_date d \<longrightarrow>
        jl_date_new J (ucast (cal_year K d)) (ucast (cal_month K d)) (ucast (cal_day K d)) =
          Some (CivilDate (ucast (cal_year K d)) (ucast (cal_month K d)) (ucast (cal_day K d)))) \<and>
     (\<forall>h m s n. 0 \<le> sint h \<and> sint h < 24 \<and> 0 \<le> sint m \<and> sint m < 60 \<and> 0 \<le> sint s \<and> sint s < 60 \<and>
        0 \<le> sint n \<and> sint n < 1000000000 \<longrightarrow> jl_time_new J h m s n = Some (CivilTime h m s n))"

text \<open>The counterparts of a \<open>chrono\<close> value in the two crates.\<close>

definition time_of_chrono :: "calendar_lib \<Rightarrow> naive_datetime \<Rightarrow> primitive_date_time" where
  "time_of_chrono K dt = PrimitiveDateTime
     (TimeDate (cal_year K (ndt_date dt)) (ucast (cal_month K (ndt_date dt))) (ucast (cal_day K (ndt_date dt))))
     (TimeTime (ucast (chrono_hour (ndt_time dt))) (ucast (chrono_minute (ndt_time dt)))
        (ucast (chrono_second (ndt_time dt))) (nanosecond (ndt_time dt)))"

definition civil_of_chrono :: "calendar_lib \<Rightarrow> naive_datetime \<Rightarrow> civil_datetime" where
  "civil_of_chrono K dt = CivilDateTime
     (CivilDate (ucast (cal_year K (ndt_date dt))) (ucast (cal_month K (ndt_date dt))) (ucast (cal_day K (ndt_date dt))))
     (CivilTime (ucast (chrono_hour (ndt_time dt))) (ucast (chrono_minute (ndt_time dt)))
        (ucast (chrono_second (ndt_time dt))) (ucast (nanosecond (ndt_time dt))))"

section \<open>Agreement with chrono\<close>

lemma ymd_to_sql_date:
  "from_ymd_opt C y m d = Some date \<Longrightarrow> ymd_to_sql L C y m d = naive_date_to_sql L date"
  by (simp add: ymd_to_sql_def naive_date_to_sql_def Let_def)

lemma calendar_fields:
  assumes "calendar_law C K" and "wf_date d"
  shows "from_ymd_opt C (cal_year K d) (cal_month K d) (cal_day K d) = Some d"
    "1 \<le> sint (cal_year K d)" "sint (cal_year K d) \<le> 9999"
    "1 \<le> unat (cal_month K d)" "unat (cal_month K d) \<le> 12"
    "1 \<le> unat (cal_day K d)" "unat (cal_day K d) \<le> 31"
  using assms by (simp_all add: calendar_law_def)

lemma ucast_back:
  assumes "unat (x :: u32) < 256"
  shows "(ucast (ucast x :: u8) :: u32) = x"
proof (rule unsigned_word_eqI)
  have "unat (ucast x :: u8) = unat x" using assms by (intro unat_small_cast) simp
  then show "unat (ucast (ucast x :: u8) :: u32) = unat x"
    using assms by (subst unat_small_cast) simp_all
qed

lemma time_date_to_sql_chrono:
  assumes "calendar_law C K" and "wf_date d"
  shows "time_date_to_sql L C (TimeDate (cal_year K d) (ucast (cal_month K d)) (ucast (cal_day K d))) =
    naive_date_to_sql L d"
proof -
  note f = calendar_fields [OF assms]
  have "(ucast (ucast (cal_month K d) :: u8) :: u32) = cal_month K d" using f(5) by (intro ucast_back) simp
  moreover have "(ucast (ucast (cal_day K d) :: u8) :: u32) = cal_day K d" using f(7) by (intro ucast_back) simp
  ultimately show ?thesis by (simp add: time_date_to_sql_def ymd_to_sql_date [OF f(1)])
qed

lemma time_time_to_sql_chrono:
  assumes "wf_time t"
  shows "time_time_to_sql (TimeTime (ucast (chrono_hour t)) (ucast (chrono_minute t)) (ucast (chrono_second t))
      (nanosecond t)) = naive_time_to_sql t"
proof -
  note p = clock_parts [OF assms]
  have c: "unat (ucast (ucast x :: u8) :: u64) = unat x" if "unat x < 60" for x :: u32
    using that by (simp add: unat_ucast_wider unat_small_cast)
  have "(ucast (ucast (chrono_hour t) :: u8) :: u64) * 3600000000000 + ucast (ucast (chrono_minute t) :: u8) * 60000000000
      + ucast (ucast (chrono_second t) :: u8) * 1000000000 + ucast (nanosecond t) =
      ucast (num_seconds_from_midnight t) * 1000000000 + ucast (nanosecond t)"
    using p by (intro clock_nanos assms c) (simp_all add: unat_ucast_wider)
  then show ?thesis by (simp add: time_time_to_sql_def naive_time_to_sql_def Let_def)
qed

lemma primitive_dt_to_sql_chrono:
  assumes "calendar_law C K" and "wf_date (ndt_date dt)" and "wf_time (ndt_time dt)"
  shows "primitive_dt_to_sql L C (time_of_chrono K dt) = naive_dt_to_sql L dt"
  by (simp add: primitive_dt_to_sql_def time_of_chrono_def time_date_to_sql_chrono [OF assms(1,2)]
      time_time_to_sql_chrono [OF assms(3)] naive_dt_to_sql_def split: option.splits)

lemma try_unsigned_cast:
  assumes "unat (x :: u32) < 2 ^ (LENGTH('b) - 1)" and "unat x < 2 ^ LENGTH('c)"
  shows "\<exists>w :: 'c::len word. try_unsigned (sint (ucast x :: 'b::len word)) = Some w \<and> unat w = unat x"
proof -
  have "int (unat x) < int (2 ^ (LENGTH('b) - 1))" and c: "int (unat x) < int (2 ^ LENGTH('c))"
    using assms by (simp_all only: of_nat_less_iff)
  then have s: "sint (ucast x :: 'b word) = int (unat x)" by (intro sint_small_cast) (simp only: of_nat_power of_nat_numeral)
  have f: "fits_unsigned LENGTH('c) (int (unat x))" using c unfolding fits_unsigned_def by simp
  then have "uint (word_of_int (int (unat x)) :: 'c word) = int (unat x)" by (rule uint_of_fitting)
  then have "unat (word_of_int (int (unat x)) :: 'c word) = unat x" by (metis nat_int unat_eq_nat_uint)
  with f show ?thesis unfolding try_unsigned_def s by auto
qed

lemma jiff_time_to_sql_chrono:
  assumes "wf_time t"
  shows "jiff_time_to_sql (CivilTime (ucast (chrono_hour t)) (ucast (chrono_minute t)) (ucast (chrono_second t))
      (ucast (nanosecond t))) = Some (naive_time_to_sql t)"
proof -
  note p = clock_parts [OF assms]
  have n: "unat (nanosecond t) < 1000000000" using assms by (simp add: wf_time_def)
  obtain h :: u64 where h: "try_unsigned (sint (ucast (chrono_hour t) :: i8)) = Some h" "unat h = unat (chrono_hour t)"
    using try_unsigned_cast [of "chrono_hour t", where 'b = 8 and 'c = 64] p(1) by auto
  obtain m :: u64 where m: "try_unsigned (sint (ucast (chrono_minute t) :: i8)) = Some m" "unat m = unat (chrono_minute t)"
    using try_unsigned_cast [of "chrono_minute t", where 'b = 8 and 'c = 64] p(2) by auto
  obtain s :: u64 where s: "try_unsigned (sint (ucast (chrono_second t) :: i8)) = Some s" "unat s = unat (chrono_second t)"
    using try_unsigned_cast [of "chrono_second t", where 'b = 8 and 'c = 64] p(3) by auto
  obtain ns :: u64 where ns: "try_unsigned (sint (nanosecond t)) = Some ns" "unat ns = unat (nanosecond t)"
    using try_unsigned_cast [of "nanosecond t", where 'b = 32 and 'c = 64] n by auto
  note w = h(1) m(1) s(1) ns(1) and u = h(2) m(2) s(2) ns(2)
  from clock_nanos [OF assms u] show ?thesis
    by (simp add: jiff_time_to_sql_def w naive_time_to_sql_def Let_def)
qed

lemma jiff_date_to_sql_chrono:
  assumes "calendar_law C K" and "wf_date d"
  shows "jiff_date_to_sql L C (CivilDate (ucast (cal_year K d)) (ucast (cal_month K d)) (ucast (cal_day K d))) =
    naive_date_to_sql L d"
proof -
  note f = calendar_fields [OF assms]
  obtain m where m: "try_unsigned (sint (ucast (cal_month K d) :: i8)) = Some (m :: u32)" "unat m = unat (cal_month K d)"
    using try_unsigned_cast [of "cal_month K d", where 'b = 8 and 'c = 32] f(5) by auto
  obtain dd where dd: "try_unsigned (sint (ucast (cal_day K d) :: i8)) = Some (dd :: u32)" "unat dd = unat (cal_day K d)"
    using try_unsigned_cast [of "cal_day K d", where 'b = 8 and 'c = 32] f(7) by auto
  have md: "m = cal_month K d" "dd = cal_day K d" using m(2) dd(2) by (auto intro: unsigned_word_eqI)
  have "sint (ucast (cal_year K d) :: i16) = sint (cal_year K d)"
  proof -
    have "fits_signed LENGTH(16) (sint (cal_year K d))" using f(2,3) by (simp add: fits_signed_def)
    then have "sint (word_of_int (sint (cal_year K d)) :: i16) = sint (cal_year K d)" by (rule sint_of_fitting)
    moreover have "(word_of_int (sint (cal_year K d)) :: i16) = ucast (cal_year K d)"
      by (simp add: down_cast_same is_down scast_eq [symmetric])
    ultimately show ?thesis by simp
  qed
  then have "(scast (ucast (cal_year K d) :: i16) :: i32) = cal_year K d"
    by (simp add: scast_eq)
  with m(1) dd(1) show ?thesis by (simp add: jiff_date_to_sql_def md ymd_to_sql_date [OF f(1)])
qed

lemma jiff_datetime_to_sql_chrono:
  assumes "calendar_law C K" and "wf_date (ndt_date dt)" and "wf_time (ndt_time dt)"
  shows "jiff_datetime_to_sql L C (civil_of_chrono K dt) = naive_dt_to_sql L dt"
  by (cases "naive_date_to_sql L (ndt_date dt)")
    (simp_all add: jiff_datetime_to_sql_def civil_of_chrono_def jiff_date_to_sql_chrono [OF assms(1,2)]
      jiff_time_to_sql_chrono [OF assms(3), unfolded ucast_u32_id] naive_dt_to_sql_def)

lemma time_date_from_chrono_wf:
  assumes "calendar_law C K" and "time_law K T" and "wf_date d"
  shows "time_date_from_chrono K T d =
    Some (TimeDate (cal_year K d) (ucast (cal_month K d)) (ucast (cal_day K d)))"
proof -
  note f = calendar_fields [OF assms(1,3)]
  have "unat (ucast (cal_month K d) :: u8) = unat (cal_month K d)" using f(5) by (intro unat_small_cast) simp
  with f(4,5) assms(2,3) show ?thesis by (simp add: time_date_from_chrono_def time_law_def)
qed

lemma time_time_from_chrono_wf:
  assumes "time_law K T" and "wf_time t"
  shows "time_time_from_chrono T t =
    Some (TimeTime (ucast (chrono_hour t)) (ucast (chrono_minute t)) (ucast (chrono_second t)) (nanosecond t))"
proof -
  note p = clock_parts [OF assms(2)]
  have u: "unat (ucast x :: u8) = unat x" if "unat x < 60" for x :: u32
    using that by (intro unat_small_cast) simp
  have "unat (nanosecond t) < 1000000000" using assms(2) by (simp add: wf_time_def)
  with p u assms(1) show ?thesis by (simp add: time_time_from_chrono_def time_law_def)
qed

lemma jiff_time_from_chrono_wf:
  assumes "jiff_law K J" and "wf_time t"
  shows "jl_time_new J (ucast (chrono_hour t)) (ucast (chrono_minute t)) (ucast (chrono_second t)) (ucast (nanosecond t)) =
    Some (CivilTime (ucast (chrono_hour t)) (ucast (chrono_minute t)) (ucast (chrono_second t)) (ucast (nanosecond t)))"
proof -
  note p = clock_parts [OF assms(2)]
  have n: "unat (nanosecond t) < 1000000000" using assms(2) by (simp add: wf_time_def)
  have u: "sint (ucast x :: i8) = int (unat x)" if "unat x < 60" for x :: u32
  proof -
    from that have "int (unat x) < 60" by linarith
    then show ?thesis by (intro sint_small_cast) simp
  qed
  have "int (unat (nanosecond t)) < 1000000000" using n by linarith
  then have "sint (ucast (nanosecond t) :: i32) = int (unat (nanosecond t))" by (intro sint_small_cast) simp
  then have ns: "0 \<le> sint (ucast (nanosecond t) :: i32)" "sint (ucast (nanosecond t) :: i32) < 1000000000"
    using n by linarith+
  have "0 \<le> sint (ucast (chrono_hour t) :: i8)" "sint (ucast (chrono_hour t) :: i8) < 24"
    using p(1) u [of "chrono_hour t"] by linarith+
  moreover have "0 \<le> sint (ucast (chrono_minute t) :: i8)" "sint (ucast (chrono_minute t) :: i8) < 60"
    using p(2) u [of "chrono_minute t"] by linarith+
  moreover have "0 \<le> sint (ucast (chrono_second t) :: i8)" "sint (ucast (chrono_second t) :: i8) < 60"
    using p(3) u [of "chrono_second t"] by linarith+
  ultimately show ?thesis using ns assms(1) unfolding jiff_law_def by blast
qed

lemma primitive_from_chrono_wf:
  assumes "calendar_law C K" and "time_law K T" and "wf_date (ndt_date dt)" and "wf_time (ndt_time dt)"
  shows "primitive_from_chrono K T dt = Some (time_of_chrono K dt)"
  by (simp add: primitive_from_chrono_def time_of_chrono_def time_date_from_chrono_wf [OF assms(1-3)]
      time_time_from_chrono_wf [OF assms(2,4)])

lemma jiff_datetime_from_chrono_wf:
  assumes "jiff_law K J" and "wf_date (ndt_date dt)" and "wf_time (ndt_time dt)"
  shows "jiff_datetime_from_chrono K J dt = Some (civil_of_chrono K dt)"
proof -
  have "jl_date_new J (ucast (cal_year K (ndt_date dt))) (ucast (cal_month K (ndt_date dt))) (ucast (cal_day K (ndt_date dt))) =
      Some (CivilDate (ucast (cal_year K (ndt_date dt))) (ucast (cal_month K (ndt_date dt))) (ucast (cal_day K (ndt_date dt))))"
    using assms(1,2) by (simp add: jiff_law_def)
  then show ?thesis
    by (simp only: jiff_datetime_from_chrono_def civil_of_chrono_def jiff_time_from_chrono_wf [OF assms(1,3)]
        bind.bind_lunit)
qed

end
