(* ===== verification/CalendarLaws.thy ===== *)
theory CalendarLaws
  imports CalendarModel Gregorian
begin

text \<open>
  The Gregorian instance of the calendar laws of \<open>CalendarModel\<close>, the laws of instants with
  an offset, and the agreement of the \<open>time\<close> and \<open>jiff\<close> conversions with those of \<open>chrono\<close>.
\<close>

section \<open>Instants\<close>

text \<open>The instants of the claims: two or more days inside SQL Server's range at the end, one at the
  start, so that both crates represent them at any offset below a day; no leap seconds.\<close>

definition wf_instant :: "datetime_fixed \<Rightarrow> bool" where
  "wf_instant x \<longleftrightarrow>
     2 \<le> sint (num_days_from_ce (ndt_date (naive_utc x))) \<and>
     sint (num_days_from_ce (ndt_date (naive_utc x))) \<le> 3652057 \<and>
     wf_time (ndt_time (naive_utc x)) \<and>
     - 86400 < sint (local_minus_utc x) \<and> sint (local_minus_utc x) < 86400"

definition time_instant_law :: "calendar_lib \<Rightarrow> time_lib \<Rightarrow> bool" where
  "time_instant_law K T \<longleftrightarrow>
     (\<forall>x. wf_instant x \<longrightarrow>
        tl_from_whole_seconds T (local_minus_utc x) = Some (local_minus_utc x) \<and>
        tl_to_offset T (time_of_chrono K (naive_utc x)) (local_minus_utc x) =
          Some (OffsetDateTime (time_of_chrono K (naive_utc x)) (local_minus_utc x)) \<and>
        tl_to_offset T (time_of_chrono K (naive_utc x)) 0 =
          Some (OffsetDateTime (time_of_chrono K (naive_utc x)) 0))"

definition timestamp_of_chrono :: "calendar_lib \<Rightarrow> datetime_fixed \<Rightarrow> timestamp" where
  "timestamp_of_chrono K x = Timestamp (cal_timestamp K x) (ucast (cal_subsec_nanos K x))"

definition jiff_instant_law :: "calendar_lib \<Rightarrow> jiff_lib \<Rightarrow> bool" where
  "jiff_instant_law K J \<longleftrightarrow>
     (\<forall>x. wf_instant x \<longrightarrow>
        jl_timestamp_new J (cal_timestamp K x) (ucast (cal_subsec_nanos K x)) = Some (timestamp_of_chrono K x) \<and>
        jl_utc_datetime J (timestamp_of_chrono K x) = civil_of_chrono K (naive_utc x) \<and>
        jl_offset_from_seconds J (local_minus_utc x) = Some (local_minus_utc x))"

lemma wf_instant_parts:
  assumes "wf_instant x"
  shows "wf_date (ndt_date (naive_utc x))" "wf_time (ndt_time (naive_utc x))"
  using assms by (simp_all add: wf_instant_def wf_date_def)

section \<open>The Gregorian instance\<close>

definition greg_chrono :: chrono_lib where
  "greg_chrono = sample_chrono\<lparr>from_ymd_opt :=
     (\<lambda>y m d. if 1 \<le> sint y
        then map_option (\<lambda>n. NaiveDate (of_nat n)) (greg_days (nat (sint y)) (unat m) (unat d)) else None)\<rparr>"

definition greg_of :: "naive_date \<Rightarrow> nat \<times> nat \<times> nat" where
  "greg_of d = greg_date (unat (num_days_from_ce d))"

definition greg_calendar :: calendar_lib where
  "greg_calendar = \<lparr>
     cal_year = (\<lambda>d. of_nat (fst (greg_of d))),
     cal_month = (\<lambda>d. of_nat (fst (snd (greg_of d)))),
     cal_day = (\<lambda>d. of_nat (snd (snd (greg_of d)))),
     cal_timestamp = (\<lambda>x. word_of_int
       ((sint (num_days_from_ce (ndt_date (naive_utc x))) - 719163) * 86400
        + int (unat (num_seconds_from_midnight (ndt_time (naive_utc x)))))),
     cal_subsec_nanos = (\<lambda>x. nanosecond (ndt_time (naive_utc x)))\<rparr>"

lemma unat_of_small_nat: "n < 2 ^ LENGTH('a) \<Longrightarrow> unat (of_nat n :: 'a::len word) = n"
  by (simp add: unsigned_of_nat take_bit_nat_eq_self)

lemma sint_of_small_nat:
  assumes "n < 2 ^ (LENGTH('a) - 1)"
  shows "sint (of_nat n :: 'a::len word) = int n"
proof -
  have "int n < 2 ^ (LENGTH('a) - 1)" using assms by (metis of_nat_less_iff of_nat_numeral of_nat_power)
  moreover have "- (2 ^ (LENGTH('a) - 1)) \<le> int n"
    by (rule order_trans [of _ 0]) simp_all
  ultimately have "sint (word_of_int (int n) :: 'a word) = int n"
    by (intro sint_of_fitting) (simp add: fits_signed_def)
  then show ?thesis by simp
qed

lemma wf_date_number:
  assumes "wf_date d"
  shows "0 < unat (num_days_from_ce d)" "unat (num_days_from_ce d) \<le> 3652059"
    "int (unat (num_days_from_ce d)) = sint (num_days_from_ce d)"
proof -
  define k where "k = sint (num_days_from_ce d)"
  have k: "1 \<le> k" "k \<le> 3652059" using assms by (simp_all add: wf_date_def k_def)
  then have "fits_unsigned LENGTH(32) k" by (simp add: fits_unsigned_def)
  then have "uint (word_of_int k :: i32) = k" by (rule uint_of_fitting)
  then have u: "int (unat (num_days_from_ce d)) = k" by (simp add: k_def)
  then show "int (unat (num_days_from_ce d)) = sint (num_days_from_ce d)" by (simp only: k_def)
  show "0 < unat (num_days_from_ce d)" "unat (num_days_from_ce d) \<le> 3652059" using u k by linarith+
qed

lemma greg_fields:
  assumes "wf_date d" and "greg_of d = (y, m, dd)"
  shows "sint (cal_year greg_calendar d) = int y" "unat (cal_month greg_calendar d) = m"
    "unat (cal_day greg_calendar d) = dd" "1 \<le> y" "y \<le> 9999" "1 \<le> m" "m \<le> 12" "1 \<le> dd" "dd \<le> 31"
    "greg_days y m dd = Some (unat (num_days_from_ce d))"
proof -
  note n = wf_date_number [OF assms(1)] and g = assms(2) [unfolded greg_of_def]
  note r = greg_date_range [OF n(1,2) g]
  then show "1 \<le> y" "y \<le> 9999" "1 \<le> m" "m \<le> 12" "1 \<le> dd" "dd \<le> 31" by simp_all
  show "greg_days y m dd = Some (unat (num_days_from_ce d))" by (rule greg_days_of_date [OF n(1) g])
  have "sint (of_nat y :: i32) = int y" using r by (intro sint_of_small_nat) simp
  then show "sint (cal_year greg_calendar d) = int y" by (simp add: greg_calendar_def assms(2))
  have "unat (of_nat m :: u32) = m" "unat (of_nat dd :: u32) = dd"
    using r by (auto intro!: unat_of_small_nat)
  then show "unat (cal_month greg_calendar d) = m" "unat (cal_day greg_calendar d) = dd"
    by (simp_all add: greg_calendar_def assms(2))
qed

lemma greg_calendar_law: "calendar_law greg_chrono greg_calendar"
  unfolding calendar_law_def
proof (intro allI impI)
  fix d assume d: "wf_date d"
  obtain y m dd where g: "greg_of d = (y, m, dd)" by (metis prod_cases3)
  note f = greg_fields [OF d g]
  have "from_ymd_opt greg_chrono (cal_year greg_calendar d) (cal_month greg_calendar d) (cal_day greg_calendar d) = Some d"
    using f by (cases d) (simp add: greg_chrono_def)
  with f show "from_ymd_opt greg_chrono (cal_year greg_calendar d) (cal_month greg_calendar d) (cal_day greg_calendar d) = Some d \<and>
      1 \<le> sint (cal_year greg_calendar d) \<and> sint (cal_year greg_calendar d) \<le> 9999 \<and>
      1 \<le> unat (cal_month greg_calendar d) \<and> unat (cal_month greg_calendar d) \<le> 12 \<and>
      1 \<le> unat (cal_day greg_calendar d) \<and> unat (cal_day greg_calendar d) \<le> 31"
    by simp
qed

lemma greg_chrono_laws [simp]:
  "chrono_days_law greg_chrono" "chrono_time_law greg_chrono"
  "chrono_offset_law greg_chrono" "chrono_base_law greg_chrono"
proof -
  have "greg_days 1900 1 1 = Some 693596" by (simp add: greg_days_def days_before_def month_len_def)
  then show "chrono_base_law greg_chrono"
    using sample_chrono_laws(4) by (simp add: chrono_base_law_def greg_chrono_def)
qed (use sample_chrono_laws in \<open>simp_all add: chrono_days_law_def chrono_time_law_def chrono_offset_law_def greg_chrono_def\<close>)

text \<open>The two crates check the fields they are given.\<close>

definition greg_time :: time_lib where
  "greg_time = \<lparr>
     tl_month_try_from = (\<lambda>m. if 1 \<le> unat m \<and> unat m \<le> 12 then Some m else None),
     tl_from_calendar_date = (\<lambda>y m d. if greg_days (nat (sint y)) (unat m) (unat d) \<noteq> None
       then Some (TimeDate y m d) else None),
     tl_from_hms_nano = (\<lambda>h m s n. if unat h < 24 \<and> unat m < 60 \<and> unat s < 60 \<and> unat n < 1000000000
       then Some (TimeTime h m s n) else None),
     tl_from_whole_seconds = (\<lambda>s. if \<bar>sint s\<bar> \<le> 93599 then Some s else None),
     tl_to_offset = (\<lambda>utc offset. Some (OffsetDateTime utc offset))\<rparr>"

definition greg_utc_datetime :: "timestamp \<Rightarrow> civil_datetime" where
  "greg_utc_datetime ts = civil_of_chrono greg_calendar
     (NaiveDateTime (NaiveDate (word_of_int (sint (ts_second ts) div 86400 + 719163)))
        (NaiveTime (word_of_int (sint (ts_second ts) mod 86400)) (ucast (ts_nanosecond ts))))"

definition greg_jiff :: jiff_lib where
  "greg_jiff = \<lparr>
     jl_date_new = (\<lambda>y m d. if greg_days (nat (sint y)) (nat (sint m)) (nat (sint d)) \<noteq> None
       then Some (CivilDate y m d) else None),
     jl_time_new = (\<lambda>h m s n. if 0 \<le> sint h \<and> sint h < 24 \<and> 0 \<le> sint m \<and> sint m < 60 \<and>
         0 \<le> sint s \<and> sint s < 60 \<and> 0 \<le> sint n \<and> sint n < 1000000000
       then Some (CivilTime h m s n) else None),
     jl_timestamp_new = (\<lambda>s n. if \<bar>sint s\<bar> \<le> 253402207200 then Some (Timestamp s n) else None),
     jl_utc_datetime = greg_utc_datetime,
     jl_offset_from_seconds = (\<lambda>s. if \<bar>sint s\<bar> \<le> 93599 then Some s else None)\<rparr>"

lemma greg_narrow_fields:
  assumes "wf_date d" and "greg_of d = (y, m, dd)"
  shows "unat (ucast (cal_month greg_calendar d) :: u8) = m" "unat (ucast (cal_day greg_calendar d) :: u8) = dd"
    "sint (ucast (cal_month greg_calendar d) :: i8) = int m" "sint (ucast (cal_day greg_calendar d) :: i8) = int dd"
    "sint (ucast (cal_year greg_calendar d) :: i16) = int y"
proof -
  note f = greg_fields [OF assms]
  show "unat (ucast (cal_month greg_calendar d) :: u8) = m" "unat (ucast (cal_day greg_calendar d) :: u8) = dd"
    using f by (auto simp: unat_small_cast)
  have "int (unat (cal_month greg_calendar d)) < 2 ^ (LENGTH(8) - 1)" "int (unat (cal_day greg_calendar d)) < 2 ^ (LENGTH(8) - 1)"
    unfolding f(2,3) using f(7,9) by simp_all
  note c = sint_small_cast [OF this(1)] sint_small_cast [OF this(2)]
  show "sint (ucast (cal_month greg_calendar d) :: i8) = int m" using c(1) unfolding f(2) .
  show "sint (ucast (cal_day greg_calendar d) :: i8) = int dd" using c(2) unfolding f(3) .
  have "cal_year greg_calendar d = of_nat y" by (simp add: greg_calendar_def assms(2))
  moreover have "(ucast (word_of_int (int y) :: i32) :: i16) = word_of_int (int y)"
    by (rule ucast_down_wi) (simp add: is_down)
  moreover have "sint (of_nat y :: i16) = int y" using f(5) by (intro sint_of_small_nat) simp
  ultimately show "sint (ucast (cal_year greg_calendar d) :: i16) = int y" by simp
qed

lemma greg_time_law: "time_law greg_calendar greg_time"
  unfolding time_law_def
proof (intro conjI allI impI)
  fix d assume d: "wf_date d"
  obtain y m dd where g: "greg_of d = (y, m, dd)" by (metis prod_cases3)
  show "tl_from_calendar_date greg_time (cal_year greg_calendar d) (ucast (cal_month greg_calendar d)) (ucast (cal_day greg_calendar d)) =
      Some (TimeDate (cal_year greg_calendar d) (ucast (cal_month greg_calendar d)) (ucast (cal_day greg_calendar d)))"
    using greg_fields [OF d g] greg_narrow_fields [OF d g] by (simp add: greg_time_def)
qed (simp_all add: greg_time_def)

lemma greg_jiff_law: "jiff_law greg_calendar greg_jiff"
  unfolding jiff_law_def
proof (intro conjI allI impI)
  fix d assume d: "wf_date d"
  obtain y m dd where g: "greg_of d = (y, m, dd)" by (metis prod_cases3)
  show "jl_date_new greg_jiff (ucast (cal_year greg_calendar d)) (ucast (cal_month greg_calendar d)) (ucast (cal_day greg_calendar d)) =
      Some (CivilDate (ucast (cal_year greg_calendar d)) (ucast (cal_month greg_calendar d)) (ucast (cal_day greg_calendar d)))"
    using greg_fields [OF d g] greg_narrow_fields [OF d g] by (simp add: greg_jiff_def)
qed (simp add: greg_jiff_def)

lemma greg_time_instant_law: "time_instant_law greg_calendar greg_time"
  by (simp add: time_instant_law_def greg_time_def wf_instant_def abs_if)

lemma day_and_seconds:
  "0 \<le> s \<Longrightarrow> s < 86400 \<Longrightarrow> (j * 86400 + s) div 86400 = j \<and> (j * 86400 + s) mod 86400 = s" for j s :: int
  by simp

lemma greg_timestamp_parts:
  fixes x :: datetime_fixed
  defines "k \<equiv> sint (num_days_from_ce (ndt_date (naive_utc x)))"
    and "s \<equiv> int (unat (num_seconds_from_midnight (ndt_time (naive_utc x))))"
  assumes "wf_instant x"
  shows "sint (cal_timestamp greg_calendar x) = (k - 719163) * 86400 + s"
    "((k - 719163) * 86400 + s) div 86400 = k - 719163" "((k - 719163) * 86400 + s) mod 86400 = s"
    "\<bar>(k - 719163) * 86400 + s\<bar> \<le> 253402207200"
proof -
  have k: "2 \<le> k" "k \<le> 3652057" using assms(3) by (simp_all add: wf_instant_def k_def)
  have "unat (num_seconds_from_midnight (ndt_time (naive_utc x))) < 86400"
    using assms(3) by (simp add: wf_instant_def wf_time_def)
  then have s: "0 \<le> s" "s < 86400" unfolding s_def by linarith+
  show b: "\<bar>(k - 719163) * 86400 + s\<bar> \<le> 253402207200"
    unfolding abs_le_iff using k s by (intro conjI) simp_all
  have "fits_signed LENGTH(64) ((k - 719163) * 86400 + s)" using b by (auto simp: fits_signed_def abs_le_iff)
  then have "sint (word_of_int ((k - 719163) * 86400 + s) :: i64) = (k - 719163) * 86400 + s" by (rule sint_of_fitting)
  then show "sint (cal_timestamp greg_calendar x) = (k - 719163) * 86400 + s"
    unfolding greg_calendar_def k_def s_def by (simp only: calendar_lib.simps)
  show "((k - 719163) * 86400 + s) div 86400 = k - 719163" "((k - 719163) * 86400 + s) mod 86400 = s"
    using day_and_seconds [OF s] by blast+
qed

lemma greg_jiff_instant_law: "jiff_instant_law greg_calendar greg_jiff"
  unfolding jiff_instant_law_def
proof (intro allI impI conjI)
  fix x assume x: "wf_instant x"
  let ?d = "ndt_date (naive_utc x)" and ?t = "ndt_time (naive_utc x)"
  note p = greg_timestamp_parts [OF x]
  show "jl_timestamp_new greg_jiff (cal_timestamp greg_calendar x) (ucast (cal_subsec_nanos greg_calendar x)) =
      Some (timestamp_of_chrono greg_calendar x)"
    by (simp only: greg_jiff_def jiff_lib.simps p(1,4) if_True timestamp_of_chrono_def)
  have "(word_of_int (sint (cal_timestamp greg_calendar x) mod 86400) :: u32) = num_seconds_from_midnight ?t"
    unfolding p(1,3) by simp
  moreover have "(ucast (ucast (cal_subsec_nanos greg_calendar x) :: i32) :: u32) = nanosecond ?t"
    by (simp add: greg_calendar_def)
  ultimately have "NaiveTime (word_of_int (sint (cal_timestamp greg_calendar x) mod 86400))
      (ucast (ucast (cal_subsec_nanos greg_calendar x) :: i32)) = ?t"
    by (simp only: naive_time.collapse)
  moreover have "NaiveDate (word_of_int (sint (cal_timestamp greg_calendar x) div 86400 + 719163)) = ?d"
    unfolding p(1,2) by (cases ?d) simp
  ultimately show "jl_utc_datetime greg_jiff (timestamp_of_chrono greg_calendar x) =
      civil_of_chrono greg_calendar (naive_utc x)"
    by (cases "naive_utc x") (simp add: greg_jiff_def greg_utc_datetime_def timestamp_of_chrono_def)
  show "jl_offset_from_seconds greg_jiff (local_minus_utc x) = Some (local_minus_utc x)"
    using x by (simp add: greg_jiff_def wf_instant_def abs_if)
qed

section \<open>Agreement of the three libraries\<close>

text \<open>C35: the date-times of the three date libraries are interchangeable on the wire. A
  \<open>time::PrimitiveDateTime\<close> or a \<open>jiff::civil::DateTime\<close> with the calendar fields and the
  clock of a \<open>chrono::NaiveDateTime\<close> is encoded to the same \<open>datetime2\<close>, and every date and
  time \<open>chrono\<close> reads from a value the other two read as the one with the same fields.\<close>

theorem calendar_datetimes_agree:
  assumes "calendar_law C K" "time_law K T" "jiff_law K J"
    and "wf_date (ndt_date dt)" "wf_time (ndt_time dt)"
  shows "to_sql_primitive_dt L C (time_of_chrono K dt) = to_sql_naive_datetime L dt \<and>
     to_sql_civil_datetime L C (civil_of_chrono K dt) = to_sql_naive_datetime L dt \<and>
     (from_sql_naive_datetime C v = Some dt \<longrightarrow>
        from_sql_primitive_dt C K T v = Some (time_of_chrono K dt) \<and>
        from_sql_civil_datetime C K J v = Some (civil_of_chrono K dt))"
  using assms
  by (simp add: to_sql_primitive_dt_def to_sql_civil_datetime_def to_sql_naive_datetime_def
      primitive_dt_to_sql_chrono jiff_datetime_to_sql_chrono from_sql_primitive_dt_def
      from_sql_civil_datetime_def primitive_from_chrono_wf jiff_datetime_from_chrono_wf)

lemma greg_leap_day: "greg_of (NaiveDate 738945) = (2024, 2, 29)"
proof -
  have "years_of_day 738945 = 2023" by (simp add: years_of_day_def days_before_def Let_def)
  then show ?thesis
    by (simp add: greg_of_def greg_date_def days_before_def leap_year_def find_month.simps month_len_def)
qed

lemma civil_leap_day:
  "civil_of_chrono greg_calendar (NaiveDateTime (NaiveDate 738945) (NaiveTime 45296 500)) =
     CivilDateTime (CivilDate 2024 2 29) (CivilTime 12 34 56 500)"
  "time_of_chrono greg_calendar (NaiveDateTime (NaiveDate 738945) (NaiveTime 45296 500)) =
     PrimitiveDateTime (TimeDate 2024 2 29) (TimeTime 12 34 56 500)"
  by (simp_all add: civil_of_chrono_def time_of_chrono_def greg_calendar_def greg_leap_day
      chrono_hour_def chrono_minute_def chrono_second_def)

theorem calendar_datetimes_agree_witness:
  "to_sql_civil_datetime sample_lib greg_chrono (CivilDateTime (CivilDate 2024 2 29) (CivilTime 12 34 56 500)) =
     to_sql_naive_datetime sample_lib (NaiveDateTime (NaiveDate 738945) (NaiveTime 45296 500)) \<and>
   from_sql_primitive_dt greg_chrono greg_calendar greg_time
       (CV_DateTime2 \<lparr>dt2_days = 738944, dt2_time = \<lparr>time_nanoseconds = 452960000005, st_scale = 7\<rparr>\<rparr>) =
     Some (PrimitiveDateTime (TimeDate 2024 2 29) (TimeTime 12 34 56 500))"
proof -
  let ?dt = "NaiveDateTime (NaiveDate 738945) (NaiveTime 45296 500)"
  let ?v = "CV_DateTime2 \<lparr>dt2_days = 738944, dt2_time = \<lparr>time_nanoseconds = 452960000005, st_scale = 7\<rparr>\<rparr>"
  have "from_sql_naive_datetime greg_chrono ?v = Some ?dt"
    by (simp add: from_sql_naive_datetime_def time_of_units_def Let_def greg_chrono_def sample_chrono_def)
  then show ?thesis
    using calendar_datetimes_agree [OF greg_calendar_law greg_time_law greg_jiff_law, of ?dt sample_lib ?v]
    by (simp add: wf_date_def wf_time_def civil_leap_day)
qed

text \<open>C36: the same for instants with an offset below a day whose UTC date is from 0001-01-02 to
  9999-12-29 and whose time is not a leap second (nearer to the ends of SQL Server's range
  the two crates do not represent every instant, and nothing is claimed):
  \<open>time::OffsetDateTime\<close> and \<open>jiff::Zoned\<close> are encoded to the \<open>datetimeoffset\<close> that
  \<open>chrono::DateTime<FixedOffset>\<close> is encoded to, and read back to the same instant and offset;
  \<open>jiff::Timestamp\<close> keeps the instant.\<close>

theorem calendar_instants_agree:
  assumes "calendar_law C K" "time_law K T" "jiff_law K J" "time_instant_law K T" "jiff_instant_law K J"
    and "wf_instant x"
  shows "to_sql_offset_dt L C T (OffsetDateTime (time_of_chrono K (naive_utc x)) (local_minus_utc x)) =
       to_sql_datetime_fixed L x \<and>
     to_sql_zoned L C J (Zoned (timestamp_of_chrono K x) (local_minus_utc x)) = to_sql_datetime_fixed L x \<and>
     to_sql_timestamp L C J (timestamp_of_chrono K x) = to_sql_datetime_utc L (naive_utc x) \<and>
     (from_sql_datetime_fixed C v = Some x \<longrightarrow>
        from_sql_offset_dt C K T v =
          Some (Some (OffsetDateTime (time_of_chrono K (naive_utc x)) (local_minus_utc x))) \<and>
        from_sql_zoned C K J v = Some (Zoned (timestamp_of_chrono K x) (local_minus_utc x)) \<and>
        from_sql_timestamp C K J v = Some (timestamp_of_chrono K x))"
proof -
  note w = wf_instant_parts [OF assms(6)]
  have t: "tl_from_whole_seconds T (local_minus_utc x) = Some (local_minus_utc x)"
    "tl_to_offset T (time_of_chrono K (naive_utc x)) (local_minus_utc x) =
      Some (OffsetDateTime (time_of_chrono K (naive_utc x)) (local_minus_utc x))"
    "tl_to_offset T (time_of_chrono K (naive_utc x)) 0 = Some (OffsetDateTime (time_of_chrono K (naive_utc x)) 0)"
    using assms(4,6) by (simp_all add: time_instant_law_def)
  have j: "jl_timestamp_new J (cal_timestamp K x) (ucast (cal_subsec_nanos K x)) = Some (timestamp_of_chrono K x)"
    "jl_utc_datetime J (timestamp_of_chrono K x) = civil_of_chrono K (naive_utc x)"
    "jl_offset_from_seconds J (local_minus_utc x) = Some (local_minus_utc x)"
    using assms(5,6) by (simp_all add: jiff_instant_law_def)
  note p = primitive_dt_to_sql_chrono [OF assms(1) w] jiff_datetime_to_sql_chrono [OF assms(1) w]
    primitive_from_chrono_wf [OF assms(1,2) w]
  show ?thesis
    by (cases "naive_dt_to_sql L (naive_utc x)")
      (simp_all add: to_sql_offset_dt_def to_sql_zoned_def to_sql_timestamp_def timestamp_to_sql_def to_sql_datetime_fixed_def
        to_sql_datetime_utc_def from_sql_offset_dt_def from_sql_zoned_def from_sql_timestamp_def t j
        j(1) [unfolded ucast_u32_id] p)
qed

theorem calendar_instants_agree_witness:
  "to_sql_offset_dt sample_lib greg_chrono greg_time
       (OffsetDateTime (PrimitiveDateTime (TimeDate 2024 2 29) (TimeTime 12 34 56 500)) (- 19800)) =
     to_sql_datetime_fixed sample_lib
       (DateTimeFixed (NaiveDateTime (NaiveDate 738945) (NaiveTime 45296 500)) (- 19800)) \<and>
   from_sql_offset_dt greg_chrono greg_calendar greg_time
       (CV_DateTimeOffset \<lparr>dto_datetime2 =
          \<lparr>dt2_days = 738944, dt2_time = \<lparr>time_nanoseconds = 452960000005, st_scale = 7\<rparr>\<rparr>, dto_offset = - 330\<rparr>) =
     Some (Some (OffsetDateTime (PrimitiveDateTime (TimeDate 2024 2 29) (TimeTime 12 34 56 500)) (- 19800)))"
proof -
  let ?x = "DateTimeFixed (NaiveDateTime (NaiveDate 738945) (NaiveTime 45296 500)) (- 19800)"
  let ?v = "CV_DateTimeOffset \<lparr>dto_datetime2 =
    \<lparr>dt2_days = 738944, dt2_time = \<lparr>time_nanoseconds = 452960000005, st_scale = 7\<rparr>\<rparr>, dto_offset = - 330\<rparr>"
  have "from_sql_datetime_fixed greg_chrono ?v = Some ?x"
    by (simp add: from_sql_datetime_fixed_def time_of_units_def Let_def greg_chrono_def sample_chrono_def)
  then show ?thesis
    using calendar_instants_agree [OF greg_calendar_law greg_time_law greg_jiff_law
        greg_time_instant_law greg_jiff_instant_law, of ?x sample_lib ?v]
    by (simp add: wf_instant_def wf_time_def civil_leap_day)
qed

end
