(* ===== verification/NativeTypes.thy ===== *)
theory NativeTypes
  imports CalendarLaws
begin

text \<open>
  The native parameter types as one universe: the \<open>ToSql\<close> writer of every type of the
  \<open>impl_into_sql_native!\<close> tables, the variants its compat reader lists
  (\<open>from_column_data_exact!\<close>), and the typing of NULL parameters.
\<close>

text \<open>The typed NULLs of the tables of \<open>impl_into_sql_native!\<close>.\<close>

datatype native_type =
    NT_bool | NT_u8 | NT_i16 | NT_i32 | NT_i64 | NT_f32 | NT_f64 | NT_uuid | NT_decimal | NT_json
  | NT_naive_date | NT_naive_time | NT_naive_datetime | NT_datetime_fixed | NT_datetime_utc
  | NT_time_date | NT_time_time | NT_primitive_dt | NT_offset_dt
  | NT_civil_date | NT_civil_time | NT_civil_datetime | NT_timestamp | NT_zoned

fun native_null :: "native_type \<Rightarrow> column_data" where
  "native_null NT_bool = CD_Bit None"
| "native_null NT_u8 = CD_U8 None"
| "native_null NT_i16 = CD_I16 None"
| "native_null NT_i32 = CD_I32 None"
| "native_null NT_i64 = CD_I64 None"
| "native_null NT_f32 = CD_F32 None"
| "native_null NT_f64 = CD_F64 None"
| "native_null NT_uuid = CD_Guid None"
| "native_null NT_decimal = CD_Numeric None"
| "native_null NT_json = CD_Json None"
| "native_null NT_naive_date = CD_Date None"
| "native_null NT_naive_time = CD_Time None"
| "native_null NT_naive_datetime = CD_DateTime2 None"
| "native_null NT_datetime_fixed = CD_DateTimeOffset None"
| "native_null NT_datetime_utc = CD_DateTimeOffset None"
| "native_null NT_time_date = CD_Date None"
| "native_null NT_time_time = CD_Time None"
| "native_null NT_primitive_dt = CD_DateTime2 None"
| "native_null NT_offset_dt = CD_DateTimeOffset None"
| "native_null NT_civil_date = CD_Date None"
| "native_null NT_civil_time = CD_Time None"
| "native_null NT_civil_datetime = CD_DateTime2 None"
| "native_null NT_timestamp = CD_DateTimeOffset None"
| "native_null NT_zoned = CD_DateTimeOffset None"

datatype native_value =
    NV_bool bool | NV_u8 u8 | NV_i16 i16 | NV_i32 i32 | NV_i64 i64 | NV_f32 f32 | NV_f64 f64
  | NV_uuid u128 | NV_decimal decimal | NV_json json_value
  | NV_naive_date naive_date | NV_naive_time naive_time | NV_naive_datetime naive_datetime
  | NV_datetime_fixed datetime_fixed | NV_datetime_utc naive_datetime
  | NV_time_date time_date | NV_time_time time_time | NV_primitive_dt primitive_date_time
  | NV_offset_dt offset_date_time
  | NV_civil_date civil_date | NV_civil_time civil_time | NV_civil_datetime civil_datetime
  | NV_timestamp timestamp | NV_zoned zoned

text \<open>The libraries the writers call.\<close>

record native_libs =
  nl_tds :: tds_lib
  nl_decimal :: decimal_lib
  nl_json :: json_lib
  nl_chrono :: chrono_lib
  nl_time :: time_lib
  nl_jiff :: jiff_lib

fun native_type_of :: "native_value \<Rightarrow> native_type" where
  "native_type_of (NV_bool _) = NT_bool"
| "native_type_of (NV_u8 _) = NT_u8"
| "native_type_of (NV_i16 _) = NT_i16"
| "native_type_of (NV_i32 _) = NT_i32"
| "native_type_of (NV_i64 _) = NT_i64"
| "native_type_of (NV_f32 _) = NT_f32"
| "native_type_of (NV_f64 _) = NT_f64"
| "native_type_of (NV_uuid _) = NT_uuid"
| "native_type_of (NV_decimal _) = NT_decimal"
| "native_type_of (NV_json _) = NT_json"
| "native_type_of (NV_naive_date _) = NT_naive_date"
| "native_type_of (NV_naive_time _) = NT_naive_time"
| "native_type_of (NV_naive_datetime _) = NT_naive_datetime"
| "native_type_of (NV_datetime_fixed _) = NT_datetime_fixed"
| "native_type_of (NV_datetime_utc _) = NT_datetime_utc"
| "native_type_of (NV_time_date _) = NT_time_date"
| "native_type_of (NV_time_time _) = NT_time_time"
| "native_type_of (NV_primitive_dt _) = NT_primitive_dt"
| "native_type_of (NV_offset_dt _) = NT_offset_dt"
| "native_type_of (NV_civil_date _) = NT_civil_date"
| "native_type_of (NV_civil_time _) = NT_civil_time"
| "native_type_of (NV_civil_datetime _) = NT_civil_datetime"
| "native_type_of (NV_timestamp _) = NT_timestamp"
| "native_type_of (NV_zoned _) = NT_zoned"

text \<open>The dispatch of \<open>NativeToSql::to_sql\<close>; \<open>None\<close> is a panic of a date encoder.\<close>

fun native_to_sql :: "native_libs \<Rightarrow> native_value \<Rightarrow> sql_type option" where
  "native_to_sql N (NV_bool x) = Some (to_sql_bool x)"
| "native_to_sql N (NV_u8 x) = Some (to_sql_u8 x)"
| "native_to_sql N (NV_i16 x) = Some (to_sql_i16 x)"
| "native_to_sql N (NV_i32 x) = Some (to_sql_i32 x)"
| "native_to_sql N (NV_i64 x) = Some (to_sql_i64 x)"
| "native_to_sql N (NV_f32 x) = Some (to_sql_f32 x)"
| "native_to_sql N (NV_f64 x) = Some (to_sql_f64 x)"
| "native_to_sql N (NV_uuid x) = Some (to_sql_uuid x)"
| "native_to_sql N (NV_decimal x) = to_sql_decimal (nl_tds N) (nl_decimal N) x"
| "native_to_sql N (NV_json x) = Some (to_sql_json (nl_tds N) (nl_json N) x)"
| "native_to_sql N (NV_naive_date x) = to_sql_naive_date (nl_tds N) x"
| "native_to_sql N (NV_naive_time x) = Some (to_sql_naive_time x)"
| "native_to_sql N (NV_naive_datetime x) = to_sql_naive_datetime (nl_tds N) x"
| "native_to_sql N (NV_datetime_fixed x) = to_sql_datetime_fixed (nl_tds N) x"
| "native_to_sql N (NV_datetime_utc x) = to_sql_datetime_utc (nl_tds N) x"
| "native_to_sql N (NV_time_date x) = to_sql_time_date (nl_tds N) (nl_chrono N) x"
| "native_to_sql N (NV_time_time x) = Some (to_sql_time_time x)"
| "native_to_sql N (NV_primitive_dt x) = to_sql_primitive_dt (nl_tds N) (nl_chrono N) x"
| "native_to_sql N (NV_offset_dt x) = to_sql_offset_dt (nl_tds N) (nl_chrono N) (nl_time N) x"
| "native_to_sql N (NV_civil_date x) = to_sql_civil_date (nl_tds N) (nl_chrono N) x"
| "native_to_sql N (NV_civil_time x) = to_sql_civil_time x"
| "native_to_sql N (NV_civil_datetime x) = to_sql_civil_datetime (nl_tds N) (nl_chrono N) x"
| "native_to_sql N (NV_timestamp x) = to_sql_timestamp (nl_tds N) (nl_chrono N) (nl_jiff N) x"
| "native_to_sql N (NV_zoned x) = to_sql_zoned (nl_tds N) (nl_chrono N) (nl_jiff N) x"

text \<open>The variants the compat reader of a type lists.\<close>

fun accepted_by :: "native_type \<Rightarrow> column_data \<Rightarrow> bool" where
  "accepted_by NT_bool d = accepts_bool d"
| "accepted_by NT_u8 d = accepts_u8 d"
| "accepted_by NT_i16 d = accepts_i16 d"
| "accepted_by NT_i32 d = accepts_i32 d"
| "accepted_by NT_i64 d = accepts_i64 d"
| "accepted_by NT_f32 d = accepts_f32 d"
| "accepted_by NT_f64 d = accepts_f64 d"
| "accepted_by NT_uuid d = accepts_uuid d"
| "accepted_by NT_decimal d = accepts_decimal d"
| "accepted_by NT_json d = accepts_json d"
| "accepted_by NT_naive_date d = accepts_date d"
| "accepted_by NT_naive_time d = accepts_time d"
| "accepted_by NT_naive_datetime d = accepts_datetime d"
| "accepted_by NT_datetime_fixed d = accepts_datetimeoffset d"
| "accepted_by NT_datetime_utc d =
     (case d of CD_DateTimeOffset _ \<Rightarrow> True | CD_DateTime2 _ \<Rightarrow> True | _ \<Rightarrow> False)"
| "accepted_by NT_time_date d = accepts_time_date d"
| "accepted_by NT_time_time d = accepts_time_time d"
| "accepted_by NT_primitive_dt d = accepts_primitive_dt d"
| "accepted_by NT_offset_dt d = accepts_offset_dt d"
| "accepted_by NT_civil_date d = accepts_time_date d"
| "accepted_by NT_civil_time d = accepts_time_time d"
| "accepted_by NT_civil_datetime d = accepts_primitive_dt d"
| "accepted_by NT_timestamp d = accepts_offset_dt d"
| "accepted_by NT_zoned d = accepts_offset_dt d"

text \<open>\<open>IntoSql for Option<T>\<close>, for a type of the tables.\<close>

definition native_option_into_sql ::
    "native_libs \<Rightarrow> native_type \<Rightarrow> native_value option \<Rightarrow> column_data option" where
  "native_option_into_sql N t x =
     (case x of
        Some v \<Rightarrow> map_option (from_native (nl_tds N)) (native_to_sql N v)
      | None \<Rightarrow> Some (native_null t))"

text \<open>What each writer produces: a value of one SQL type.\<close>

lemma decimal_sql_type: "to_sql_decimal L D d = Some t \<Longrightarrow> \<exists>x. t = ST_Numeric x"
proof -
  have "\<exists>x. decimal_to_sql_type L s precision scale = ST_Numeric x" for s precision scale
    by (simp add: decimal_to_sql_type_def split: sum.split)
  then show "to_sql_decimal L D d = Some t \<Longrightarrow> \<exists>x. t = ST_Numeric x" by (auto simp: to_sql_decimal_def)
qed

lemmas native_writers = conv_defs to_sql_naive_date_def to_sql_naive_time_def to_sql_naive_datetime_def
  to_sql_datetime_fixed_def to_sql_datetime_utc_def to_sql_time_date_def to_sql_time_time_def
  to_sql_primitive_dt_def to_sql_offset_dt_def to_sql_civil_date_def to_sql_civil_time_def
  to_sql_civil_datetime_def to_sql_timestamp_def to_sql_zoned_def

lemmas native_readers = accepts_time_date_def accepts_time_time_def accepts_primitive_dt_def accepts_offset_dt_def

lemma native_writer_typed:
  assumes "native_to_sql N v = Some s" and "native_type_of v \<noteq> NT_json"
  shows "from_native L (into_typed_null s) = native_null (native_type_of v) \<and>
    into_typed_null s = column_data_to_sql L (native_null (native_type_of v)) \<and>
    accepted_by (native_type_of v) (from_native L s) \<and> column_data_to_sql L (from_native L s) = s"
proof (cases v)
  case (NV_decimal d)
  then show ?thesis using assms decimal_sql_type [of "nl_tds N" "nl_decimal N" d] by auto
qed (use assms in \<open>auto simp: native_writers native_readers bind_eq_Some_conv\<close>)

text \<open>C26: the type of a parameter does not depend on its value being present. For every native
  type but \<open>serde_json::Value\<close>, the parameter that the compat \<open>IntoSql\<close> binds for \<open>None\<close> has
  the SQL type of the parameter it binds for a value, the type that the native \<open>Option<T>\<close>
  gives to \<open>None\<close>, and the compat reader of the type takes both the value and the NULL back.\<close>

theorem none_parameter_keeps_type:
  assumes "native_option_into_sql N (native_type_of v) (Some v) = Some d" and "native_type_of v \<noteq> NT_json"
    and "native_to_sql N w = Some s" and "native_type_of w = native_type_of v"
  shows "\<exists>n. native_option_into_sql N (native_type_of v) None = Some n \<and>
     column_data_to_sql (nl_tds N) n = into_typed_null (column_data_to_sql (nl_tds N) d) \<and>
     column_data_to_sql (nl_tds N) n = to_sql_option (\<lambda>_. s) w None \<and>
     accepted_by (native_type_of v) n \<and> accepted_by (native_type_of v) d"
proof -
  obtain sv where sv: "native_to_sql N v = Some sv" and d: "d = from_native (nl_tds N) sv"
    using assms(1) by (auto simp: native_option_into_sql_def)
  note t = native_writer_typed [OF sv assms(2), of "nl_tds N"]
  have "native_type_of w \<noteq> NT_json" using assms(2,4) by simp
  note u = native_writer_typed [OF assms(3) this, of "nl_tds N", unfolded assms(4)]
  have "accepted_by (native_type_of v) (native_null (native_type_of v))"
    by (cases v) (simp_all add: native_readers)
  with t u show ?thesis by (simp add: native_option_into_sql_def d to_sql_option_def)
qed

definition sample_native :: native_libs where
  "sample_native = \<lparr>nl_tds = sample_lib, nl_decimal = \<lparr>dl_to_string = (\<lambda>_. ''0''), dl_parse = (\<lambda>_. None)\<rparr>,
     nl_json = \<lparr>jn_as_i64 = (\<lambda>_. None), jn_as_f64 = (\<lambda>_. None), jv_to_string = (\<lambda>_. ''{}''), jv_from_str = (\<lambda>_. None)\<rparr>,
     nl_chrono = greg_chrono, nl_time = greg_time, nl_jiff = greg_jiff\<rparr>"

theorem none_parameter_keeps_type_witness:
  "native_option_into_sql sample_native NT_naive_time None = Some (CD_Time None) \<and>
   column_data_to_sql sample_lib (CD_Time None) = ST_Time None"
proof -
  let ?t = "NV_naive_time (NaiveTime 45296 500)"
  have "native_option_into_sql sample_native (native_type_of ?t) (Some ?t) =
      Some (CD_Time (Some (naive_time_to_sql (NaiveTime 45296 500))))"
    by (simp add: native_option_into_sql_def to_sql_naive_time_def)
  from none_parameter_keeps_type [OF this, of ?t] show ?thesis
    by (simp add: to_sql_naive_time_def to_sql_option_def native_option_into_sql_def sample_native_def)
qed

text \<open>The exception: a JSON value is bound as \<open>bit\<close>, \<open>bigint\<close>, \<open>float\<close> or \<open>nvarchar\<close>,
  and the native \<open>Option\<close> binds \<open>None\<close> as an \<open>nvarchar(4000)\<close> NULL, but the compat
  \<open>IntoSql\<close> binds \<open>None\<close> as a \<open>json\<close> NULL, a type that no value of its is bound with.\<close>

theorem json_none_parameter_differs:
  "native_option_into_sql N NT_json None = Some (CD_Json None) \<and>
   column_data_to_sql (nl_tds N) (CD_Json None) = ST_Json None \<and>
   to_sql_option (to_sql_json (nl_tds N) (nl_json N)) JNull None = ST_NVarchar None 4000 \<and>
   (\<forall>v x. native_option_into_sql N NT_json (Some (NV_json v)) \<noteq> Some (CD_Json x))"
  by (auto simp: native_option_into_sql_def to_sql_option_def to_sql_json_def split: json_value.splits option.splits)

end
